(* ===== verification/Night_Prelude.thy ===== *)
theory Night_Prelude
  imports Main "HOL-Library.Word" "HOL-Library.Multiset"
begin

text \<open>
  Shared vocabulary of the development: the machine types of the C++ code, the two unordered
  containers the server uses (\<^verbatim>\<open>std::unordered_map\<close> and \<^verbatim>\<open>std::unordered_set\<close>), C strings, and
  the generic lemmas and interfaces the component theories build on.

  An unordered container is modelled by the list of its elements in their current iteration
  order.  The C++ standard leaves that order open and lets every insertion change it (a
  rehash), so an insertion is given a function \<open>rh\<close> that proposes the new order; the
  container contract (each element is visited exactly once) is kept by \<open>reorder\<close>, which
  accepts a proposal only if it is a permutation.  Every theorem is for all \<open>rh\<close>, hence for
  every iteration order a standard library may choose.  Erasing keeps the order of the
  remaining elements, as the standard requires.
\<close>

unbundle bit_operations_syntax

section \<open>Machine types\<close>

type_synonym u8 = "8 word"
type_synonym u16 = "16 word"
type_synonym u32 = "32 word"
type_synonym u64 = "64 word"
type_synonym bytes = "u8 list"

named_theorems state_simps \<open>how an operation changes each field of its state\<close>
named_theorems inv_intros \<open>an operation keeps the invariant of its component\<close>

text \<open>The digits of a number, as \<^verbatim>\<open>std::to_string\<close> and the conversion \<^verbatim>\<open>%u\<close> print it.\<close>

fun decimal :: "nat \<Rightarrow> string" where
  "decimal n = (if n < 10 then [] else decimal (n div 10)) @ [char_of (48 + n mod 10)]"

declare decimal.simps [simp del]

section \<open>Unordered containers\<close>

definition reorder :: "('a list \<Rightarrow> 'a list) \<Rightarrow> 'a list \<Rightarrow> 'a list" where
  "reorder rh xs = (if mset (rh xs) = mset xs then rh xs else xs)"

definition us_insert :: "('a list \<Rightarrow> 'a list) \<Rightarrow> 'a \<Rightarrow> 'a list \<Rightarrow> 'a list" where
  "us_insert rh x xs = (if x \<in> set xs then xs else reorder rh (x # xs))"

definition us_erase :: "'a \<Rightarrow> 'a list \<Rightarrow> 'a list" where
  "us_erase x xs = filter (\<lambda>y. y \<noteq> x) xs"

type_synonym ('k, 'v) umap = "('k \<times> 'v) list"

definition um_keys :: "('k, 'v) umap \<Rightarrow> 'k list" where
  "um_keys m = map fst m"

definition um_find :: "('k, 'v) umap \<Rightarrow> 'k \<Rightarrow> 'v option" where
  "um_find m k = map_of m k"

text \<open>\<^verbatim>\<open>try_emplace\<close> and \<^verbatim>\<open>emplace\<close>: nothing happens when the key is present.\<close>

definition um_emplace :: "('k list \<Rightarrow> 'k list) \<Rightarrow> 'k \<Rightarrow> 'v \<Rightarrow> ('k, 'v) umap \<Rightarrow> ('k, 'v) umap" where
  "um_emplace rh k v m =
     (if k \<in> set (um_keys m) then m
      else let m' = (k, v) # m
           in map (\<lambda>j. (j, the (map_of m' j))) (reorder rh (um_keys m')))"

definition um_erase :: "'k \<Rightarrow> ('k, 'v) umap \<Rightarrow> ('k, 'v) umap" where
  "um_erase k m = filter (\<lambda>(j, _). j \<noteq> k) m"

text \<open>A write through the pointer to the mapped value of \<open>k\<close>.\<close>

definition um_modify :: "'k \<Rightarrow> ('v \<Rightarrow> 'v) \<Rightarrow> ('k, 'v) umap \<Rightarrow> ('k, 'v) umap" where
  "um_modify k f m = map (\<lambda>(j, v). (j, if j = k then f v else v)) m"

definition um_distinct :: "('k, 'v) umap \<Rightarrow> bool" where
  "um_distinct m = distinct (um_keys m)"

section \<open>C strings\<close>

text \<open>\<^verbatim>\<open>std::string::c_str()\<close> read back by code that stops at the first NUL character.\<close>

definition c_str :: "string \<Rightarrow> string" where
  "c_str s = takeWhile (\<lambda>c. c \<noteq> CHR 0x00) s"

section \<open>Lemmas on the containers\<close>

lemma c_str_no_nul: "CHR 0x00 \<notin> set s \<Longrightarrow> c_str s = s"
  by (auto simp: c_str_def takeWhile_eq_all_conv)

lemma mset_reorder [simp]: "mset (reorder rh xs) = mset xs"
  by (simp add: reorder_def)

lemma set_reorder [simp]: "set (reorder rh xs) = set xs"
  by (metis mset_reorder set_mset_mset)

lemma distinct_reorder [simp]: "distinct (reorder rh xs) = distinct xs"
  by (metis mset_reorder mset_eq_imp_distinct_iff)

lemma length_reorder [simp]: "length (reorder rh xs) = length xs"
  by (metis mset_reorder size_mset)

lemma set_us_insert [simp]: "set (us_insert rh x xs) = insert x (set xs)"
  by (auto simp: us_insert_def)

lemma distinct_us_insert [simp]: "distinct xs \<Longrightarrow> distinct (us_insert rh x xs)"
  by (simp add: us_insert_def)

lemma set_us_erase [simp]: "set (us_erase x xs) = set xs - {x}"
  by (auto simp: us_erase_def)

lemma distinct_us_erase [simp]: "distinct xs \<Longrightarrow> distinct (us_erase x xs)"
  by (simp add: us_erase_def)

lemma us_erase_absent [simp]: "x \<notin> set xs \<Longrightarrow> us_erase x xs = xs"
  by (auto simp: us_erase_def filter_id_conv)

lemma um_find_None_iff: "um_find m k = None \<longleftrightarrow> k \<notin> set (um_keys m)"
  by (simp add: um_find_def um_keys_def map_of_eq_None_iff image_iff)

lemma um_find_keys: "um_find m k = Some v \<Longrightarrow> k \<in> set (um_keys m)"
  using um_find_None_iff [of m k] by auto

lemma um_find_Nil [simp]: "um_find [] k = None"
  by (simp add: um_find_def)

lemma map_of_map_keys: "map_of (map (\<lambda>j. (j, f j)) ks) k = (if k \<in> set ks then Some (f k) else None)"
  by (induction ks) auto

lemma um_find_emplace:
  "um_find (um_emplace rh k v m) j =
     (if j = k \<and> um_find m k = None then Some v else um_find m j)"
proof (cases "k \<in> set (um_keys m)")
  case True
  then have "um_find m k \<noteq> None" by (simp add: um_find_None_iff)
  with True show ?thesis by (simp add: um_emplace_def)
next
  case False
  let ?m = "(k, v) # m"
  have "um_find (um_emplace rh k v m) j =
          (if j \<in> set (um_keys ?m) then Some (the (map_of ?m j)) else None)"
    using False by (simp add: um_emplace_def um_find_def map_of_map_keys Let_def del: map_of.simps)
  also have "\<dots> = map_of ?m j"
    using um_find_None_iff [of ?m j] by (auto simp: um_find_def)
  also have "\<dots> = (if j = k \<and> um_find m k = None then Some v else um_find m j)"
    using False by (auto simp: um_find_None_iff) (auto simp: um_find_def)
  finally show ?thesis .
qed

lemma um_find_erase: "um_find (um_erase k m) j = (if j = k then None else um_find m j)"
  by (induction m) (auto simp: um_find_def um_erase_def)

lemma um_find_modify:
  "um_find (um_modify k f m) j = (if j = k then map_option f (um_find m k) else um_find m j)"
  by (induction m) (auto simp: um_find_def um_modify_def)

lemma um_keys_modify [simp]: "um_keys (um_modify k f m) = um_keys m"
  by (auto simp: um_keys_def um_modify_def)

lemma um_modify_absent: "um_find m k = None \<Longrightarrow> um_modify k f m = m"
  by (induction m) (auto simp: um_find_def um_modify_def split: if_splits)

lemma um_erase_absent: "um_find m k = None \<Longrightarrow> um_erase k m = m"
  by (induction m) (auto simp: um_find_def um_erase_def split: if_splits)

lemma um_keys_emplace_eq:
  "um_keys (um_emplace rh k v m) =
     (if k \<in> set (um_keys m) then um_keys m else reorder rh (k # um_keys m))"
proof -
  have "um_keys (map (\<lambda>j. (j, f j)) ks) = ks" for f :: "'a \<Rightarrow> 'b" and ks
    by (simp add: um_keys_def comp_def)
  moreover have "um_keys ((k, v) # m) = k # um_keys m"
    by (simp add: um_keys_def)
  ultimately show ?thesis
    by (simp add: um_emplace_def Let_def)
qed

lemma um_keys_emplace [simp]: "set (um_keys (um_emplace rh k v m)) = insert k (set (um_keys m))"
  by (auto simp: um_keys_emplace_eq)

lemma um_keys_erase [simp]: "um_keys (um_erase k m) = filter (\<lambda>j. j \<noteq> k) (um_keys m)"
  by (induction m) (auto simp: um_keys_def um_erase_def)

lemma um_distinct_Nil [simp]: "um_distinct []"
  by (simp add: um_distinct_def um_keys_def)

lemma um_distinct_emplace [simp]: "um_distinct m \<Longrightarrow> um_distinct (um_emplace rh k v m)"
  by (simp add: um_distinct_def um_keys_emplace_eq)

lemma um_distinct_erase [simp]: "um_distinct m \<Longrightarrow> um_distinct (um_erase k m)"
  by (simp add: um_distinct_def)

lemma um_distinct_modify [simp]: "um_distinct (um_modify k f m) = um_distinct m"
  by (simp add: um_distinct_def)

lemma um_find_in_set: "um_distinct m \<Longrightarrow> um_find m k = Some v \<longleftrightarrow> (k, v) \<in> set m"
  by (simp add: um_distinct_def um_keys_def um_find_def)

lemmas um_finds = um_find_emplace um_find_erase um_find_modify

section \<open>Interfaces\<close>

text \<open>
  What the classes of the server rely on in a keyed container: the lookup laws of the three
  ways they write to it, and that its keys stay unique.  The lemmas below carry a fact about
  every stored value through each write; they are used for the tables of sessions and of
  rooms and for the session table of the transport.
\<close>

locale keyed_store =
  fixes find :: "'m \<Rightarrow> 'k \<Rightarrow> 'v option"
    and emplace :: "'k \<Rightarrow> 'v \<Rightarrow> 'm \<Rightarrow> 'm"
    and erase :: "'k \<Rightarrow> 'm \<Rightarrow> 'm"
    and modify :: "'k \<Rightarrow> ('v \<Rightarrow> 'v) \<Rightarrow> 'm \<Rightarrow> 'm"
    and invar :: "'m \<Rightarrow> bool"
  assumes find_emplace_law:
      "find (emplace k v m) j = (if j = k \<and> find m k = None then Some v else find m j)"
    and find_erase_law: "find (erase k m) j = (if j = k then None else find m j)"
    and find_modify_law:
      "find (modify k f m) j = (if j = k then map_option f (find m k) else find m j)"
    and invar_emplace: "invar m \<Longrightarrow> invar (emplace k v m)"
    and invar_erase: "invar m \<Longrightarrow> invar (erase k m)"
    and invar_modify: "invar m \<Longrightarrow> invar (modify k f m)"
begin

lemma all_emplace:
  assumes "\<And>k v. find m k = Some v \<Longrightarrow> P k v" and "P j w"
    and "find (emplace j w m) k = Some v"
  shows "P k v"
  using assms by (auto simp: find_emplace_law split: if_splits)

lemma all_erase:
  assumes "\<And>k v. find m k = Some v \<Longrightarrow> P k v" and "find (erase j m) k = Some v"
  shows "P k v"
  using assms by (auto simp: find_erase_law split: if_splits)

lemma all_modify:
  assumes "\<And>k v. find m k = Some v \<Longrightarrow> P k v"
    and "\<And>v. find m j = Some v \<Longrightarrow> P j v \<Longrightarrow> P j (f v)"
    and "find (modify j f m) k = Some v"
  shows "P k v"
  using assms by (auto simp: find_modify_law split: if_splits)

lemma absent_stays:
  "find m k = None \<Longrightarrow> find (erase j m) k = None"
  "find m k = None \<Longrightarrow> find (modify j f m) k = None"
  by (auto simp: find_erase_law find_modify_law)

end

interpretation um: keyed_store um_find "um_emplace rh" um_erase um_modify um_distinct
  for rh :: "'k list \<Rightarrow> 'k list"
  by unfold_locales (simp_all add: um_finds)

text \<open>
  A component driven by a sequence of inputs: an invariant that holds at the start and that
  each step keeps holds after every run, and a fact that every step transports from one
  state to the next holds between the ends of a run.
\<close>

locale event_machine =
  fixes step :: "'e \<Rightarrow> 's \<Rightarrow> 's" and invar :: "'s \<Rightarrow> bool"
  assumes step_invar: "invar s \<Longrightarrow> invar (step e s)"
begin

lemma run_invar: "invar s \<Longrightarrow> invar (fold step es s)"
  by (induction es arbitrary: s) (auto intro: step_invar)

lemma run_rel:
  assumes refl: "\<And>s. R s s" and trans: "\<And>a b c. R a b \<Longrightarrow> R b c \<Longrightarrow> R a c"
    and one: "\<And>s e. invar s \<Longrightarrow> R s (step e s)"
  shows "invar s \<Longrightarrow> R s (fold step es s)"
proof (induction es arbitrary: s)
  case Nil
  show ?case by (simp add: refl)
next
  case (Cons e es)
  have "R (step e s) (fold step es (step e s))"
    using Cons.prems by (intro Cons.IH step_invar)
  then show ?case
    using trans [OF one [OF Cons.prems]] by simp
qed

end

end
