(* ===== verification/Night_Protocol.thy ===== *)
theory Night_Protocol
  imports Night_Prelude
begin

text \<open>
  The application protocol (\<^verbatim>\<open>schema/messages.fbs\<close>, \<^verbatim>\<open>messages_generated.h\<close>,
  \<^verbatim>\<open>ProtocolUtil.h\<close>).  A FlatBuffers table is an immutable value; a pointer to a table or a
  string is an \<open>option\<close>, \<open>None\<close> being the null pointer a reader gets for an absent field.
  The enums have a fixed underlying type, so every value of that width can arrive.

  The FlatBuffers runtime is not part of the repository.  It is the record \<open>flatbuffers\<close>:
  what a finished builder returns for a message, what the verifier answers for a buffer and
  what \<^verbatim>\<open>GetRoot\<close> reads from it.  \<open>fb_ok\<close> names the documented behaviour the code relies on:
  a buffer made by the builder is not empty, passes the verifier and reads back as the
  message it was made from.  The theories \<open>Fb_Runtime\<close> to \<open>Fb_Roundtrip\<close> model the generated code below this
  level and derive \<open>fb_ok\<close> from the behaviour of the single calls of the runtime.
\<close>

section \<open>Enums\<close>

type_synonym ErrorCode = u16

definition ErrorCode_NONE :: ErrorCode where "ErrorCode_NONE = 0"
definition ErrorCode_INVALID_NAME :: ErrorCode where "ErrorCode_INVALID_NAME = 1"
definition ErrorCode_DUPLICATE_NAME :: ErrorCode where "ErrorCode_DUPLICATE_NAME = 2"
definition ErrorCode_ROOM_NOT_FOUND :: ErrorCode where "ErrorCode_ROOM_NOT_FOUND = 3"
definition ErrorCode_ROOM_FULL :: ErrorCode where "ErrorCode_ROOM_FULL = 4"
definition ErrorCode_NOT_IN_ROOM :: ErrorCode where "ErrorCode_NOT_IN_ROOM = 5"
definition ErrorCode_INVALID_MESSAGE :: ErrorCode where "ErrorCode_INVALID_MESSAGE = 6"
definition ErrorCode_ALREADY_IN_ROOM :: ErrorCode where "ErrorCode_ALREADY_IN_ROOM = 7"
definition ErrorCode_INTERNAL_ERROR :: ErrorCode where "ErrorCode_INTERNAL_ERROR = 8"

definition EnumNamesErrorCode :: "string list" where
  "EnumNamesErrorCode =
     [''NONE'', ''INVALID_NAME'', ''DUPLICATE_NAME'', ''ROOM_NOT_FOUND'', ''ROOM_FULL'',
      ''NOT_IN_ROOM'', ''INVALID_MESSAGE'', ''ALREADY_IN_ROOM'', ''INTERNAL_ERROR'']"

definition EnumNameErrorCode :: "ErrorCode \<Rightarrow> string" where
  "EnumNameErrorCode e =
     (if e < ErrorCode_NONE \<or> ErrorCode_INTERNAL_ERROR < e then []
      else EnumNamesErrorCode ! unat e)"

type_synonym MessagePayload = u8

definition MessagePayload_NONE :: MessagePayload where "MessagePayload_NONE = 0"
definition MessagePayload_LoginRequest :: MessagePayload where "MessagePayload_LoginRequest = 1"
definition MessagePayload_LoginResponse :: MessagePayload where "MessagePayload_LoginResponse = 2"
definition MessagePayload_RoomListRequest :: MessagePayload where "MessagePayload_RoomListRequest = 3"
definition MessagePayload_RoomListResponse :: MessagePayload where "MessagePayload_RoomListResponse = 4"
definition MessagePayload_JoinRoomRequest :: MessagePayload where "MessagePayload_JoinRoomRequest = 5"
definition MessagePayload_JoinRoomResponse :: MessagePayload where "MessagePayload_JoinRoomResponse = 6"
definition MessagePayload_ChatSendRequest :: MessagePayload where "MessagePayload_ChatSendRequest = 7"
definition MessagePayload_ChatBroadcast :: MessagePayload where "MessagePayload_ChatBroadcast = 8"
definition MessagePayload_LeaveRoomRequest :: MessagePayload where "MessagePayload_LeaveRoomRequest = 9"
definition MessagePayload_LeaveRoomResponse :: MessagePayload where "MessagePayload_LeaveRoomResponse = 10"
definition MessagePayload_DisconnectRequest :: MessagePayload where "MessagePayload_DisconnectRequest = 11"
definition MessagePayload_DisconnectResponse :: MessagePayload where "MessagePayload_DisconnectResponse = 12"
definition MessagePayload_UserJoinedEvent :: MessagePayload where "MessagePayload_UserJoinedEvent = 13"
definition MessagePayload_UserLeftEvent :: MessagePayload where "MessagePayload_UserLeftEvent = 14"
definition MessagePayload_SystemMessageEvent :: MessagePayload where "MessagePayload_SystemMessageEvent = 15"

definition EnumValuesErrorCode :: "ErrorCode list" where
  "EnumValuesErrorCode =
     [ErrorCode_NONE, ErrorCode_INVALID_NAME, ErrorCode_DUPLICATE_NAME, ErrorCode_ROOM_NOT_FOUND, ErrorCode_ROOM_FULL,
      ErrorCode_NOT_IN_ROOM, ErrorCode_INVALID_MESSAGE, ErrorCode_ALREADY_IN_ROOM, ErrorCode_INTERNAL_ERROR]"

definition EnumValuesMessagePayload :: "MessagePayload list" where
  "EnumValuesMessagePayload =
     [MessagePayload_NONE, MessagePayload_LoginRequest, MessagePayload_LoginResponse, MessagePayload_RoomListRequest,
      MessagePayload_RoomListResponse, MessagePayload_JoinRoomRequest, MessagePayload_JoinRoomResponse,
      MessagePayload_ChatSendRequest, MessagePayload_ChatBroadcast, MessagePayload_LeaveRoomRequest,
      MessagePayload_LeaveRoomResponse, MessagePayload_DisconnectRequest, MessagePayload_DisconnectResponse,
      MessagePayload_UserJoinedEvent, MessagePayload_UserLeftEvent, MessagePayload_SystemMessageEvent]"

definition EnumNamesMessagePayload :: "string list" where
  "EnumNamesMessagePayload =
     [''NONE'', ''LoginRequest'', ''LoginResponse'', ''RoomListRequest'', ''RoomListResponse'', ''JoinRoomRequest'',
      ''JoinRoomResponse'', ''ChatSendRequest'', ''ChatBroadcast'', ''LeaveRoomRequest'', ''LeaveRoomResponse'',
      ''DisconnectRequest'', ''DisconnectResponse'', ''UserJoinedEvent'', ''UserLeftEvent'', ''SystemMessageEvent'']"

definition EnumNameMessagePayload :: "MessagePayload \<Rightarrow> string" where
  "EnumNameMessagePayload e =
     (if e < MessagePayload_NONE \<or> MessagePayload_SystemMessageEvent < e then []
      else EnumNamesMessagePayload ! unat e)"

section \<open>Tables\<close>

datatype UserInfo = UserInfo (user_id_U: u32) (display_name_U: "string option")

datatype RoomInfo = RoomInfo (room_id_I: u32) (room_name_I: "string option") (user_count_I: u32)

text \<open>The tables of the payload union, with their fields in schema order.\<close>

datatype payload_table =
    LoginRequest "string option"
  | LoginResponse bool ErrorCode "UserInfo option"
  | RoomListRequest
  | RoomListResponse "RoomInfo option list option"
  | JoinRoomRequest u32
  | JoinRoomResponse bool ErrorCode "RoomInfo option"
  | ChatSendRequest "string option"
  | ChatBroadcast u32 u32 "string option" "string option" u64
  | LeaveRoomRequest
  | LeaveRoomResponse bool ErrorCode
  | DisconnectRequest
  | DisconnectResponse bool ErrorCode
  | UserJoinedEvent u32 "UserInfo option"
  | UserLeftEvent u32 "UserInfo option"
  | SystemMessageEvent u32 "string option"

record Message =
  request_id :: u32
  payload_type :: MessagePayload
  payload :: "payload_table option"

text \<open>\<^verbatim>\<open>MessagePayloadTraits<T>::enum_value\<close>.\<close>

fun MessagePayloadTraits :: "payload_table \<Rightarrow> MessagePayload" where
  "MessagePayloadTraits (LoginRequest _) = MessagePayload_LoginRequest"
| "MessagePayloadTraits (LoginResponse _ _ _) = MessagePayload_LoginResponse"
| "MessagePayloadTraits RoomListRequest = MessagePayload_RoomListRequest"
| "MessagePayloadTraits (RoomListResponse _) = MessagePayload_RoomListResponse"
| "MessagePayloadTraits (JoinRoomRequest _) = MessagePayload_JoinRoomRequest"
| "MessagePayloadTraits (JoinRoomResponse _ _ _) = MessagePayload_JoinRoomResponse"
| "MessagePayloadTraits (ChatSendRequest _) = MessagePayload_ChatSendRequest"
| "MessagePayloadTraits (ChatBroadcast _ _ _ _ _) = MessagePayload_ChatBroadcast"
| "MessagePayloadTraits LeaveRoomRequest = MessagePayload_LeaveRoomRequest"
| "MessagePayloadTraits (LeaveRoomResponse _ _) = MessagePayload_LeaveRoomResponse"
| "MessagePayloadTraits DisconnectRequest = MessagePayload_DisconnectRequest"
| "MessagePayloadTraits (DisconnectResponse _ _) = MessagePayload_DisconnectResponse"
| "MessagePayloadTraits (UserJoinedEvent _ _) = MessagePayload_UserJoinedEvent"
| "MessagePayloadTraits (UserLeftEvent _ _) = MessagePayload_UserLeftEvent"
| "MessagePayloadTraits (SystemMessageEvent _ _) = MessagePayload_SystemMessageEvent"

text \<open>
  \<^verbatim>\<open>payload_as_T()\<close>: the payload pointer if the tag is that of \<open>T\<close>, else null.  The single field
  of a one-field table stands for the table.
\<close>

definition payload_as_LoginRequest :: "Message \<Rightarrow> string option option" where
  "payload_as_LoginRequest m =
     (if payload_type m = MessagePayload_LoginRequest
      then (case payload m of Some (LoginRequest d) \<Rightarrow> Some d | _ \<Rightarrow> None) else None)"

definition payload_as_LoginResponse :: "Message \<Rightarrow> (bool \<times> ErrorCode \<times> UserInfo option) option" where
  "payload_as_LoginResponse m =
     (if payload_type m = MessagePayload_LoginResponse
      then (case payload m of Some (LoginResponse s e u) \<Rightarrow> Some (s, e, u) | _ \<Rightarrow> None) else None)"

definition payload_as_RoomListResponse :: "Message \<Rightarrow> RoomInfo option list option option" where
  "payload_as_RoomListResponse m =
     (if payload_type m = MessagePayload_RoomListResponse
      then (case payload m of Some (RoomListResponse rs) \<Rightarrow> Some rs | _ \<Rightarrow> None) else None)"

definition payload_as_JoinRoomRequest :: "Message \<Rightarrow> u32 option" where
  "payload_as_JoinRoomRequest m =
     (if payload_type m = MessagePayload_JoinRoomRequest
      then (case payload m of Some (JoinRoomRequest r) \<Rightarrow> Some r | _ \<Rightarrow> None) else None)"

definition payload_as_JoinRoomResponse :: "Message \<Rightarrow> (bool \<times> ErrorCode \<times> RoomInfo option) option" where
  "payload_as_JoinRoomResponse m =
     (if payload_type m = MessagePayload_JoinRoomResponse
      then (case payload m of Some (JoinRoomResponse s e r) \<Rightarrow> Some (s, e, r) | _ \<Rightarrow> None) else None)"

definition payload_as_ChatSendRequest :: "Message \<Rightarrow> string option option" where
  "payload_as_ChatSendRequest m =
     (if payload_type m = MessagePayload_ChatSendRequest
      then (case payload m of Some (ChatSendRequest c) \<Rightarrow> Some c | _ \<Rightarrow> None) else None)"

definition payload_as_ChatBroadcast ::
    "Message \<Rightarrow> (u32 \<times> u32 \<times> string option \<times> string option \<times> u64) option" where
  "payload_as_ChatBroadcast m =
     (if payload_type m = MessagePayload_ChatBroadcast
      then (case payload m of Some (ChatBroadcast r i n c t) \<Rightarrow> Some (r, i, n, c, t) | _ \<Rightarrow> None)
      else None)"

definition payload_as_UserJoinedEvent :: "Message \<Rightarrow> (u32 \<times> UserInfo option) option" where
  "payload_as_UserJoinedEvent m =
     (if payload_type m = MessagePayload_UserJoinedEvent
      then (case payload m of Some (UserJoinedEvent r u) \<Rightarrow> Some (r, u) | _ \<Rightarrow> None) else None)"

definition payload_as_UserLeftEvent :: "Message \<Rightarrow> (u32 \<times> UserInfo option) option" where
  "payload_as_UserLeftEvent m =
     (if payload_type m = MessagePayload_UserLeftEvent
      then (case payload m of Some (UserLeftEvent r u) \<Rightarrow> Some (r, u) | _ \<Rightarrow> None) else None)"

definition payload_as_SystemMessageEvent :: "Message \<Rightarrow> (u32 \<times> string option) option" where
  "payload_as_SystemMessageEvent m =
     (if payload_type m = MessagePayload_SystemMessageEvent
      then (case payload m of Some (SystemMessageEvent r c) \<Rightarrow> Some (r, c) | _ \<Rightarrow> None) else None)"

text \<open>
  The functions that make a table from its fields; for a table or a string field they take its
  offset, null if the field is absent.
\<close>

definition CreateLoginRequest :: "string option \<Rightarrow> payload_table" where
  [simp]: "CreateLoginRequest name = LoginRequest name"

definition CreateLoginResponse :: "bool \<Rightarrow> ErrorCode \<Rightarrow> UserInfo option \<Rightarrow> payload_table" where
  [simp]: "CreateLoginResponse success error_code user = LoginResponse success error_code user"

definition CreateRoomListRequest :: payload_table where
  [simp]: "CreateRoomListRequest = RoomListRequest"

definition CreateJoinRoomRequest :: "u32 \<Rightarrow> payload_table" where
  [simp]: "CreateJoinRoomRequest rid = JoinRoomRequest rid"

definition CreateJoinRoomResponse :: "bool \<Rightarrow> ErrorCode \<Rightarrow> RoomInfo option \<Rightarrow> payload_table" where
  [simp]: "CreateJoinRoomResponse success error_code room = JoinRoomResponse success error_code room"

definition CreateChatSendRequest :: "string option \<Rightarrow> payload_table" where
  [simp]: "CreateChatSendRequest content = ChatSendRequest content"

definition CreateLeaveRoomResponse :: "bool \<Rightarrow> ErrorCode \<Rightarrow> payload_table" where
  [simp]: "CreateLeaveRoomResponse success error_code = LeaveRoomResponse success error_code"

definition CreateDisconnectResponse :: "bool \<Rightarrow> ErrorCode \<Rightarrow> payload_table" where
  [simp]: "CreateDisconnectResponse success error_code = DisconnectResponse success error_code"

definition CreateUserJoinedEvent :: "u32 \<Rightarrow> UserInfo option \<Rightarrow> payload_table" where
  [simp]: "CreateUserJoinedEvent rid user = UserJoinedEvent rid user"

definition CreateUserLeftEvent :: "u32 \<Rightarrow> UserInfo option \<Rightarrow> payload_table" where
  [simp]: "CreateUserLeftEvent rid user = UserLeftEvent rid user"

text \<open>The \<^verbatim>\<open>Create...Direct\<close> functions the server calls with non-null C strings.\<close>

definition CreateUserInfoDirect :: "u32 \<Rightarrow> string \<Rightarrow> UserInfo" where
  "CreateUserInfoDirect uid name = UserInfo uid (Some name)"

definition CreateRoomInfoDirect :: "u32 \<Rightarrow> string \<Rightarrow> u32 \<Rightarrow> RoomInfo" where
  "CreateRoomInfoDirect rid name user_count = RoomInfo rid (Some name) user_count"

definition CreateRoomListResponseDirect :: "RoomInfo list \<Rightarrow> payload_table" where
  "CreateRoomListResponseDirect rooms = RoomListResponse (Some (map Some rooms))"

definition CreateChatBroadcastDirect :: "u32 \<Rightarrow> u32 \<Rightarrow> string \<Rightarrow> string \<Rightarrow> u64 \<Rightarrow> payload_table" where
  "CreateChatBroadcastDirect rid sid name content ts =
     ChatBroadcast rid sid (Some name) (Some content) ts"

definition CreateSystemMessageEventDirect :: "u32 \<Rightarrow> string \<Rightarrow> payload_table" where
  "CreateSystemMessageEventDirect rid content = SystemMessageEvent rid (Some content)"

section \<open>The FlatBuffers runtime and ProtocolUtil.h\<close>

record flatbuffers =
  fb_build :: "Message \<Rightarrow> bytes"
  fb_verify :: "bytes \<Rightarrow> bool"
  fb_root :: "bytes \<Rightarrow> Message option"

definition CreateMessage :: "u32 \<Rightarrow> MessagePayload \<Rightarrow> payload_table \<Rightarrow> Message" where
  "CreateMessage rid ty p = \<lparr>request_id = rid, payload_type = ty, payload = Some p\<rparr>"

definition ToUtf8 :: "string option \<Rightarrow> string" where
  "ToUtf8 v = (case v of Some s \<Rightarrow> s | None \<Rightarrow> [])"

definition ToErrorString :: "ErrorCode \<Rightarrow> string" where
  "ToErrorString e = ToUtf8 (Some (EnumNameErrorCode e))"

definition VerifiedMessage :: "flatbuffers \<Rightarrow> bytes \<Rightarrow> Message option" where
  "VerifiedMessage fb data =
     (if data = [] then None
      else if \<not> fb_verify fb data then None
      else fb_root fb data)"

definition BuildMessage :: "flatbuffers \<Rightarrow> u32 \<Rightarrow> MessagePayload \<Rightarrow> payload_table \<Rightarrow> bytes" where
  "BuildMessage fb rid ty build_payload = fb_build fb (CreateMessage rid ty build_payload)"

section \<open>Documented behaviour of the runtime\<close>

text \<open>
  A table is buildable if a vector in it has no null element (a builder takes only offsets of finished
  objects) and the message made of it stays within the number of tables a \<^verbatim>\<open>Verifier\<close> with its default options
  accepts.
\<close>

definition max_tables :: nat where "max_tables = 1000000"

text \<open>How many tables a payload is made of at most, itself included.\<close>

definition room_tables :: "RoomInfo option list option \<Rightarrow> nat" where
  "room_tables rs = (case rs of None \<Rightarrow> 0 | Some xs \<Rightarrow> length xs)"

fun payload_tables :: "payload_table \<Rightarrow> nat" where
  "payload_tables (RoomListResponse rs) = Suc (room_tables rs)"
| "payload_tables _ = 2"

fun no_null_rooms :: "payload_table \<Rightarrow> bool" where
  "no_null_rooms (RoomListResponse (Some rs)) \<longleftrightarrow> None \<notin> set rs"
| "no_null_rooms _ \<longleftrightarrow> True"

definition buildable :: "payload_table \<Rightarrow> bool" where
  "buildable p \<longleftrightarrow> no_null_rooms p \<and> 1 + payload_tables p \<le> max_tables"

lemma buildable_cases [simp]:
  "buildable (RoomListResponse rs) \<longleftrightarrow>
     (case rs of None \<Rightarrow> True | Some xs \<Rightarrow> None \<notin> set xs \<and> length xs + 2 \<le> max_tables)"
  "(\<And>rs. p \<noteq> RoomListResponse rs) \<Longrightarrow> buildable p"
  by (simp add: buildable_def room_tables_def max_tables_def split: option.split)
     (cases p; force simp add: buildable_def max_tables_def)

definition wf_Message :: "Message \<Rightarrow> bool" where
  "wf_Message m =
     (case payload m of
        None \<Rightarrow> True
      | Some p \<Rightarrow> payload_type m = MessagePayloadTraits p \<and> buildable p)"

definition fb_ok_for :: "flatbuffers \<Rightarrow> Message \<Rightarrow> bool" where
  "fb_ok_for fb m \<longleftrightarrow>
     fb_build fb m \<noteq> [] \<and> fb_verify fb (fb_build fb m) \<and> fb_root fb (fb_build fb m) = Some m"

definition fb_ok :: "flatbuffers \<Rightarrow> bool" where
  "fb_ok fb \<longleftrightarrow> (\<forall>m. wf_Message m \<longrightarrow> fb_ok_for fb m)"

section \<open>Lemmas\<close>

lemmas payload_tags =
  MessagePayload_NONE_def MessagePayload_LoginRequest_def MessagePayload_LoginResponse_def
  MessagePayload_RoomListRequest_def MessagePayload_RoomListResponse_def
  MessagePayload_JoinRoomRequest_def MessagePayload_JoinRoomResponse_def
  MessagePayload_ChatSendRequest_def MessagePayload_ChatBroadcast_def
  MessagePayload_LeaveRoomRequest_def MessagePayload_LeaveRoomResponse_def
  MessagePayload_DisconnectRequest_def MessagePayload_DisconnectResponse_def
  MessagePayload_UserJoinedEvent_def MessagePayload_UserLeftEvent_def
  MessagePayload_SystemMessageEvent_def

lemmas error_codes =
  ErrorCode_NONE_def ErrorCode_INVALID_NAME_def ErrorCode_DUPLICATE_NAME_def
  ErrorCode_ROOM_NOT_FOUND_def ErrorCode_ROOM_FULL_def ErrorCode_NOT_IN_ROOM_def
  ErrorCode_INVALID_MESSAGE_def ErrorCode_ALREADY_IN_ROOM_def ErrorCode_INTERNAL_ERROR_def

lemmas payload_as_defs =
  payload_as_LoginRequest_def payload_as_LoginResponse_def payload_as_RoomListResponse_def
  payload_as_JoinRoomRequest_def payload_as_JoinRoomResponse_def payload_as_ChatSendRequest_def
  payload_as_ChatBroadcast_def payload_as_UserJoinedEvent_def payload_as_UserLeftEvent_def
  payload_as_SystemMessageEvent_def

text \<open>The names are looked up inside of their arrays, and the lists of values are in the order of the names.\<close>

lemma enum_names_in_bounds:
  "EnumNameErrorCode e = (if unat e < length EnumNamesErrorCode then EnumNamesErrorCode ! unat e else [])"
  "EnumNameMessagePayload t = (if unat t < length EnumNamesMessagePayload then EnumNamesMessagePayload ! unat t else [])"
  by (auto simp: EnumNameErrorCode_def EnumNamesErrorCode_def EnumNameMessagePayload_def EnumNamesMessagePayload_def
      error_codes payload_tags word_less_nat_alt)

lemma enum_names_of_values:
  "map EnumNameErrorCode EnumValuesErrorCode = EnumNamesErrorCode"
  "map EnumNameMessagePayload EnumValuesMessagePayload = EnumNamesMessagePayload"
  by (simp_all add: enum_names_in_bounds EnumValuesErrorCode_def EnumNamesErrorCode_def EnumValuesMessagePayload_def
      EnumNamesMessagePayload_def error_codes payload_tags)

lemma wf_CreateMessage [simp]:
  "wf_Message (CreateMessage rid ty p) \<longleftrightarrow> ty = MessagePayloadTraits p \<and> buildable p"
  by (simp add: wf_Message_def CreateMessage_def)

lemma CreateMessage_sel [simp]:
  "request_id (CreateMessage rid ty p) = rid"
  "payload_type (CreateMessage rid ty p) = ty"
  "payload (CreateMessage rid ty p) = Some p"
  by (simp_all add: CreateMessage_def)

lemma BuildMessage_ok:
  assumes "fb_ok fb" and "ty = MessagePayloadTraits p" and "buildable p"
  shows "BuildMessage fb rid ty p \<noteq> []" and "fb_verify fb (BuildMessage fb rid ty p)"
    and "fb_root fb (BuildMessage fb rid ty p) = Some (CreateMessage rid ty p)"
  using assms by (simp_all add: fb_ok_def fb_ok_for_def BuildMessage_def)

lemma BuildMessage_roundtrip:
  assumes "fb_ok fb" and "ty = MessagePayloadTraits p" and "buildable p"
  shows "VerifiedMessage fb (BuildMessage fb rid ty p) = Some (CreateMessage rid ty p)"
  by (simp add: VerifiedMessage_def BuildMessage_ok [OF assms])

end
