(* ===== verification/Fb_Runtime.thy ===== *)
theory Fb_Runtime
  imports Night_Protocol "HOL-Library.Monad_Syntax"
begin

text \<open>
  The part of the FlatBuffers runtime that the generated code of \<^verbatim>\<open>messages_generated.h\<close> calls.  The
  runtime is not part of the repository: it is the record \<open>runtime\<close>, an argument of every definition
  that uses it, and its documented behaviour is the predicates \<open>builder_ok\<close>, \<open>finished_ok\<close> and
  \<open>verifier_ok\<close>.

  A builder (\<open>'b\<close>) and a verifier (\<open>'v\<close>) are states that the calls transform.  A pointer into a buffer is
  an address and comes with the bytes it points into; reading outside of the buffer is undefined in
  C++ and has the result \<open>None\<close>.  A check of the verifier answers and changes the verifier, which counts
  tables and nesting; \<open>None\<close> again is undefined behaviour.

  The view \<open>fb_view\<close> gives meaning to the opaque states: the objects a builder has finished and the
  fields of the table under construction, the buffer and the counters of a verifier.
\<close>

section \<open>The calls\<close>

type_synonym uoffset = nat
type_synonym voffset = u16
type_synonym addr = nat
type_synonym 'v check = "'v \<Rightarrow> (bool \<times> 'v) option"

record ('b, 'v) runtime =
  new_builder :: 'b
  StartTable :: "'b \<Rightarrow> uoffset \<times> 'b"
  AddElement8 :: "voffset \<Rightarrow> u8 \<Rightarrow> u8 \<Rightarrow> 'b \<Rightarrow> 'b"
  AddElement16 :: "voffset \<Rightarrow> u16 \<Rightarrow> u16 \<Rightarrow> 'b \<Rightarrow> 'b"
  AddElement32 :: "voffset \<Rightarrow> u32 \<Rightarrow> u32 \<Rightarrow> 'b \<Rightarrow> 'b"
  AddElement64 :: "voffset \<Rightarrow> u64 \<Rightarrow> u64 \<Rightarrow> 'b \<Rightarrow> 'b"
  AddOffset :: "voffset \<Rightarrow> uoffset \<Rightarrow> 'b \<Rightarrow> 'b"
  EndTable_B :: "uoffset \<Rightarrow> 'b \<Rightarrow> uoffset \<times> 'b"
  CreateString_B :: "string \<Rightarrow> 'b \<Rightarrow> uoffset \<times> 'b"
  CreateVector_B :: "uoffset list \<Rightarrow> 'b \<Rightarrow> uoffset \<times> 'b"
  Finish_B :: "uoffset \<Rightarrow> 'b \<Rightarrow> 'b"
  FinishSizePrefixed_B :: "uoffset \<Rightarrow> 'b \<Rightarrow> 'b"
  GetBuffer :: "'b \<Rightarrow> bytes"
  GetField8 :: "bytes \<Rightarrow> addr \<Rightarrow> voffset \<Rightarrow> u8 \<Rightarrow> u8 option"
  GetField16 :: "bytes \<Rightarrow> addr \<Rightarrow> voffset \<Rightarrow> u16 \<Rightarrow> u16 option"
  GetField32 :: "bytes \<Rightarrow> addr \<Rightarrow> voffset \<Rightarrow> u32 \<Rightarrow> u32 option"
  GetField64 :: "bytes \<Rightarrow> addr \<Rightarrow> voffset \<Rightarrow> u64 \<Rightarrow> u64 option"
  GetPointer :: "bytes \<Rightarrow> addr \<Rightarrow> voffset \<Rightarrow> addr option option"
  String_data :: "bytes \<Rightarrow> addr \<Rightarrow> string option"
  Vector_elements :: "bytes \<Rightarrow> addr \<Rightarrow> addr list option"
  Vector_bytes :: "bytes \<Rightarrow> addr \<Rightarrow> u8 list option"
  GetRoot :: "bytes \<Rightarrow> addr option"
  GetSizePrefixedRoot :: "bytes \<Rightarrow> addr option"
  Verifier :: "bytes \<Rightarrow> 'v"
  VerifyTableStart :: "addr \<Rightarrow> 'v check"
  VerifyField8 :: "addr \<Rightarrow> voffset \<Rightarrow> nat \<Rightarrow> 'v check"
  VerifyField16 :: "addr \<Rightarrow> voffset \<Rightarrow> nat \<Rightarrow> 'v check"
  VerifyField32 :: "addr \<Rightarrow> voffset \<Rightarrow> nat \<Rightarrow> 'v check"
  VerifyField64 :: "addr \<Rightarrow> voffset \<Rightarrow> nat \<Rightarrow> 'v check"
  VerifyOffset :: "addr \<Rightarrow> voffset \<Rightarrow> 'v check"
  VerifyString :: "addr option \<Rightarrow> 'v check"
  VerifyVector :: "addr option \<Rightarrow> 'v check"
  VerifyTable :: "(addr \<Rightarrow> 'v check) \<Rightarrow> addr option \<Rightarrow> 'v check"
  VerifyVectorOfTables :: "(addr \<Rightarrow> 'v check) \<Rightarrow> addr option \<Rightarrow> 'v check"
  EndTable_V :: "'v check"
  VerifyBuffer :: "string option \<Rightarrow> (addr \<Rightarrow> 'v check) \<Rightarrow> 'v check"
  VerifySizePrefixedBuffer :: "string option \<Rightarrow> (addr \<Rightarrow> 'v check) \<Rightarrow> 'v check"

text \<open>A chain of \<open>&&\<close>, and a check of what an accessor returns.\<close>

fun all_checks :: "'v check list \<Rightarrow> 'v check" where
  "all_checks [] v = Some (True, v)"
| "all_checks (c # cs) v =
     (case c v of
        None \<Rightarrow> None
      | Some (ok, v') \<Rightarrow> if ok then all_checks cs v' else Some (False, v'))"

definition with_value :: "'a option \<Rightarrow> ('a \<Rightarrow> 'v check) \<Rightarrow> 'v check" where
  "with_value q k v = (case q of None \<Rightarrow> None | Some a \<Rightarrow> k a v)"

declare all_checks.simps [simp del]

text \<open>Following a pointer that may be null.\<close>

definition follow :: "addr option option \<Rightarrow> (addr \<Rightarrow> 'a option) \<Rightarrow> 'a option option" where
  "follow q g =
     (case q of None \<Rightarrow> None | Some None \<Rightarrow> Some None | Some (Some a) \<Rightarrow> map_option Some (g a))"

section \<open>The view\<close>

datatype fb_field = Scalar8 u8 | Scalar16 u16 | Scalar32 u32 | Scalar64 u64 | Reference uoffset

type_synonym fields = "voffset \<rightharpoonup> fb_field"

datatype fb_object = Text string | Elements "uoffset list" | Fields fields

type_synonym objects = "uoffset \<rightharpoonup> fb_object"

record ('b, 'v) fb_view =
  finished :: "'b \<Rightarrow> objects"
  under_way :: "'b \<Rightarrow> (uoffset \<times> fields) option"
  buffer_of :: "'v \<Rightarrow> bytes"
  depth_of :: "'v \<Rightarrow> nat"
  tables_of :: "'v \<Rightarrow> nat"
  vtable_ok :: "bytes \<Rightarrow> addr \<Rightarrow> bool"

definition max_depth :: nat where "max_depth = 64"

section \<open>Documented behaviour: building\<close>

definition opened :: "('b, 'v) fb_view \<Rightarrow> objects \<Rightarrow> 'b \<Rightarrow> uoffset \<Rightarrow> fields \<Rightarrow> bool" where
  "opened V H b s fs \<longleftrightarrow> finished V b = H \<and> under_way V b = Some (s, fs)"

definition makes :: "('b, 'v) fb_view \<Rightarrow> objects \<Rightarrow> uoffset \<times> 'b \<Rightarrow> fb_object \<Rightarrow> bool" where
  "makes V H r obj \<longleftrightarrow>
     fst r \<noteq> 0 \<and> H (fst r) = None \<and> finished V (snd r) = H(fst r \<mapsto> obj) \<and> under_way V (snd r) = None"

text \<open>A scalar equal to the default and a null offset are not stored.\<close>

definition put_scalar :: "('a \<Rightarrow> fb_field) \<Rightarrow> voffset \<Rightarrow> 'a \<Rightarrow> 'a \<Rightarrow> fields \<Rightarrow> fields" where
  "put_scalar C f x d fs = (if x = d then fs else fs(f \<mapsto> C x))"

definition put_reference :: "voffset \<Rightarrow> uoffset \<Rightarrow> fields \<Rightarrow> fields" where
  "put_reference f r fs = (if r = 0 then fs else fs(f \<mapsto> Reference r))"

definition builder_ok :: "('b, 'v) runtime \<Rightarrow> ('b, 'v) fb_view \<Rightarrow> bool" where
  "builder_ok R V \<longleftrightarrow>
     finished V (new_builder R) = Map.empty \<and> under_way V (new_builder R) = None
     \<and> (\<forall>b s b'. under_way V b = None \<and> StartTable R b = (s, b') \<longrightarrow> opened V (finished V b) b' s Map.empty)
     \<and> (\<forall>H b s fs f x d. opened V H b s fs \<longrightarrow>
          opened V H (AddElement8 R f x d b) s (put_scalar Scalar8 f x d fs))
     \<and> (\<forall>H b s fs f x d. opened V H b s fs \<longrightarrow>
          opened V H (AddElement16 R f x d b) s (put_scalar Scalar16 f x d fs))
     \<and> (\<forall>H b s fs f x d. opened V H b s fs \<longrightarrow>
          opened V H (AddElement32 R f x d b) s (put_scalar Scalar32 f x d fs))
     \<and> (\<forall>H b s fs f x d. opened V H b s fs \<longrightarrow>
          opened V H (AddElement64 R f x d b) s (put_scalar Scalar64 f x d fs))
     \<and> (\<forall>H b s fs f r. opened V H b s fs \<and> (r = 0 \<or> r \<in> dom H) \<longrightarrow>
          opened V H (AddOffset R f r b) s (put_reference f r fs))
     \<and> (\<forall>H b s fs. opened V H b s fs \<longrightarrow> makes V H (EndTable_B R s b) (Fields fs))
     \<and> (\<forall>b s. under_way V b = None \<longrightarrow> makes V (finished V b) (CreateString_B R s b) (Text s))
     \<and> (\<forall>b rs. under_way V b = None \<and> set rs \<subseteq> dom (finished V b) \<longrightarrow>
          makes V (finished V b) (CreateVector_B R rs b) (Elements rs))"

section \<open>Documented behaviour: verifying\<close>

text \<open>
  \<open>checks V m c Q\<close>: on a verifier of the buffer \<open>m\<close> the check \<open>c\<close> is defined, and if it answers true then
  \<open>Q\<close>.  \<open>passes V m c d n d' n'\<close>: started at depth \<open>d\<close> with at most \<open>n\<close> tables counted, it answers true and
  leaves depth \<open>d'\<close> and at most \<open>n'\<close> tables.
\<close>

definition checks :: "('b, 'v) fb_view \<Rightarrow> bytes \<Rightarrow> 'v check \<Rightarrow> bool \<Rightarrow> bool" where
  "checks V m c Q \<longleftrightarrow>
     (\<forall>v. buffer_of V v = m \<longrightarrow> (\<exists>ok v'. c v = Some (ok, v') \<and> buffer_of V v' = m \<and> (ok \<longrightarrow> Q)))"

definition passes :: "('b, 'v) fb_view \<Rightarrow> bytes \<Rightarrow> 'v check \<Rightarrow> nat \<Rightarrow> nat \<Rightarrow> nat \<Rightarrow> nat \<Rightarrow> bool" where
  "passes V m c d n d' n' \<longleftrightarrow>
     (\<forall>v. buffer_of V v = m \<and> depth_of V v = d \<and> tables_of V v \<le> n \<longrightarrow>
        (\<exists>v'. c v = Some (True, v') \<and> buffer_of V v' = m \<and> depth_of V v' = d' \<and> tables_of V v' \<le> n'))"

definition verifier_ok :: "('b, 'v) runtime \<Rightarrow> ('b, 'v) fb_view \<Rightarrow> bool" where
  "verifier_ok R V \<longleftrightarrow>
     (\<forall>m. buffer_of V (Verifier R m) = m \<and> depth_of V (Verifier R m) = 0 \<and> tables_of V (Verifier R m) = 0)
     \<and> (\<forall>m p. checks V m (VerifyTableStart R p) (vtable_ok V m p))
     \<and> (\<forall>m p f. vtable_ok V m p \<longrightarrow> checks V m (VerifyField8 R p f 1) (\<forall>d. GetField8 R m p f d \<noteq> None))
     \<and> (\<forall>m p f. vtable_ok V m p \<longrightarrow> checks V m (VerifyField16 R p f 2) (\<forall>d. GetField16 R m p f d \<noteq> None))
     \<and> (\<forall>m p f. vtable_ok V m p \<longrightarrow> checks V m (VerifyField32 R p f 4) (\<forall>d. GetField32 R m p f d \<noteq> None))
     \<and> (\<forall>m p f. vtable_ok V m p \<longrightarrow> checks V m (VerifyField64 R p f 8) (\<forall>d. GetField64 R m p f d \<noteq> None))
     \<and> (\<forall>m p f. vtable_ok V m p \<longrightarrow> checks V m (VerifyOffset R p f) (GetPointer R m p f \<noteq> None))
     \<and> (\<forall>m a. checks V m (VerifyString R (Some a)) (String_data R m a \<noteq> None))
     \<and> (\<forall>m a. checks V m (VerifyVector R (Some a)) (Vector_elements R m a \<noteq> None))
     \<and> (\<forall>v. VerifyString R None v = Some (True, v) \<and> VerifyVector R None v = Some (True, v))
     \<and> (\<forall>c q v. VerifyTable R c q v = (case q of None \<Rightarrow> Some (True, v) | Some p \<Rightarrow> c p v))
     \<and> (\<forall>c v. VerifyVectorOfTables R c None v = Some (True, v))
     \<and> (\<forall>c a ps v. Vector_elements R (buffer_of V v) a = Some ps \<longrightarrow>
          VerifyVectorOfTables R c (Some a) v = all_checks (map c ps) v)
     \<and> (\<forall>m d n. checks V m (EndTable_V R) True \<and> passes V m (EndTable_V R) (Suc d) n d n)
     \<and> (\<forall>c v. (\<exists>v'. buffer_of V v' = buffer_of V v \<and> VerifyBuffer R None c v = Some (False, v'))
          \<or> (\<exists>p v'. GetRoot R (buffer_of V v) = Some p \<and> buffer_of V v' = buffer_of V v
               \<and> VerifyBuffer R None c v = c p v'))"

section \<open>Documented behaviour: reading a finished buffer\<close>

definition scalar_at ::
    "('a \<Rightarrow> fb_field) \<Rightarrow> (voffset \<Rightarrow> 'a \<Rightarrow> 'a option) \<Rightarrow> (voffset \<Rightarrow> bool) \<Rightarrow> fields \<Rightarrow> bool" where
  "scalar_at C get ok fs \<longleftrightarrow>
     (\<forall>f. (fs f = None \<longrightarrow> ok f \<and> (\<forall>d. get f d = Some d))
        \<and> (\<forall>x. fs f = Some (C x) \<longrightarrow> ok f \<and> (\<forall>d. get f d = Some x)))"

definition keeps :: "('b, 'v) fb_view \<Rightarrow> bytes \<Rightarrow> 'v check \<Rightarrow> bool" where
  "keeps V m c \<longleftrightarrow> (\<forall>d n. passes V m c d n d n)"

definition table_at ::
    "('b, 'v) runtime \<Rightarrow> ('b, 'v) fb_view \<Rightarrow> bytes \<Rightarrow> (uoffset \<Rightarrow> addr) \<Rightarrow> addr \<Rightarrow> fields \<Rightarrow> bool" where
  "table_at R V m loc p fs \<longleftrightarrow>
     (\<forall>d n. d < max_depth \<and> n < max_tables \<longrightarrow> passes V m (VerifyTableStart R p) d n (Suc d) (Suc n))
     \<and> scalar_at Scalar8 (GetField8 R m p) (\<lambda>f. keeps V m (VerifyField8 R p f 1)) fs
     \<and> scalar_at Scalar16 (GetField16 R m p) (\<lambda>f. keeps V m (VerifyField16 R p f 2)) fs
     \<and> scalar_at Scalar32 (GetField32 R m p) (\<lambda>f. keeps V m (VerifyField32 R p f 4)) fs
     \<and> scalar_at Scalar64 (GetField64 R m p) (\<lambda>f. keeps V m (VerifyField64 R p f 8)) fs
     \<and> (\<forall>f. (fs f = None \<longrightarrow> keeps V m (VerifyOffset R p f) \<and> GetPointer R m p f = Some None)
          \<and> (\<forall>r. fs f = Some (Reference r) \<longrightarrow>
                keeps V m (VerifyOffset R p f) \<and> GetPointer R m p f = Some (Some (loc r))))"

fun object_at ::
    "('b, 'v) runtime \<Rightarrow> ('b, 'v) fb_view \<Rightarrow> bytes \<Rightarrow> (uoffset \<Rightarrow> addr) \<Rightarrow> addr \<Rightarrow> fb_object \<Rightarrow> bool" where
  "object_at R V m loc p (Text s) \<longleftrightarrow>
     String_data R m p = Some s \<and> keeps V m (VerifyString R (Some p))"
| "object_at R V m loc p (Elements rs) \<longleftrightarrow>
     Vector_elements R m p = Some (map loc rs) \<and> keeps V m (VerifyVector R (Some p))"
| "object_at R V m loc p (Fields fs) \<longleftrightarrow> table_at R V m loc p fs"

definition stored ::
    "('b, 'v) runtime \<Rightarrow> ('b, 'v) fb_view \<Rightarrow> bytes \<Rightarrow> (uoffset \<Rightarrow> addr) \<Rightarrow> objects \<Rightarrow> bool" where
  "stored R V m loc H \<longleftrightarrow> (\<forall>r obj. H r = Some obj \<longrightarrow> object_at R V m loc (loc r) obj)"

definition finished_ok :: "('b, 'v) runtime \<Rightarrow> ('b, 'v) fb_view \<Rightarrow> bool" where
  "finished_ok R V \<longleftrightarrow>
     (\<forall>b r fs. under_way V b = None \<and> finished V b r = Some (Fields fs) \<longrightarrow>
        (let m = GetBuffer R (Finish_B R r b)
         in m \<noteq> [] \<and>
            (\<exists>loc. GetRoot R m = Some (loc r) \<and> stored R V m loc (finished V b)
               \<and> (\<forall>c d n d' n'. passes V m (c (loc r)) d n d' n' \<longrightarrow> passes V m (VerifyBuffer R None c) d n d' n'))))"

definition runtime_ok :: "('b, 'v) runtime \<Rightarrow> ('b, 'v) fb_view \<Rightarrow> bool" where
  "runtime_ok R V \<longleftrightarrow> builder_ok R V \<and> verifier_ok R V \<and> finished_ok R V"

section \<open>Rules for the checks\<close>

named_theorems check_steps \<open>what the first check of a chain establishes for the rest of it\<close>
named_theorems pass_rules \<open>how a check that succeeds moves the counters\<close>

lemma checks_Nil: "Q \<Longrightarrow> checks V m (all_checks []) Q"
  by (auto simp: checks_def all_checks.simps)

lemma checks_Cons:
  assumes "checks V m c P" and "P \<Longrightarrow> checks V m (all_checks cs) Q"
  shows "checks V m (all_checks (c # cs)) Q"
  using assms unfolding checks_def all_checks.simps by (fastforce split: option.split)

lemma checks_mono: "checks V m c P \<Longrightarrow> (P \<Longrightarrow> Q) \<Longrightarrow> checks V m c Q"
  unfolding checks_def by blast

lemma checks_if:
  "(b \<Longrightarrow> checks V m f Q) \<Longrightarrow> (\<not> b \<Longrightarrow> checks V m g Q) \<Longrightarrow> checks V m (\<lambda>v. if b then f v else g v) Q"
  by (cases b) simp_all

lemma checks_skip: "Q \<Longrightarrow> checks V m (\<lambda>v. Some (True, v)) Q"
  by (auto simp: checks_def)

lemma checks_with_value:
  assumes "q \<noteq> None" and "\<And>a. q = Some a \<Longrightarrow> checks V m (k a) (P a)"
  shows "checks V m (with_value q k) (\<forall>a. q = Some a \<longrightarrow> P a)"
  using assms by (auto simp: checks_def with_value_def)

lemma checks_list:
  assumes "\<And>p. p \<in> set ps \<Longrightarrow> checks V m (c p) (P p)"
  shows "checks V m (all_checks (map c ps)) (\<forall>p \<in> set ps. P p)"
  using assms
proof (induction ps)
  case Nil
  then show ?case by (auto simp: checks_def all_checks.simps)
next
  case (Cons p ps)
  have rest: "checks V m (all_checks (map c ps)) (\<forall>q \<in> set (p # ps). P q)" if "P p"
    using Cons.IH Cons.prems that by (auto simp: checks_def)
  have "checks V m (c p) (P p)" using Cons.prems by simp
  from checks_Cons [OF this rest] show ?case by simp
qed

lemma verifier_okD:
  assumes "verifier_ok R V"
  shows "checks V m (VerifyTableStart R p) (vtable_ok V m p)"
    and "vtable_ok V m p \<Longrightarrow> checks V m (VerifyField8 R p f 1) (\<forall>d. GetField8 R m p f d \<noteq> None)"
    and "vtable_ok V m p \<Longrightarrow> checks V m (VerifyField16 R p f 2) (\<forall>d. GetField16 R m p f d \<noteq> None)"
    and "vtable_ok V m p \<Longrightarrow> checks V m (VerifyField32 R p f 4) (\<forall>d. GetField32 R m p f d \<noteq> None)"
    and "vtable_ok V m p \<Longrightarrow> checks V m (VerifyField64 R p f 8) (\<forall>d. GetField64 R m p f d \<noteq> None)"
    and "vtable_ok V m p \<Longrightarrow> checks V m (VerifyOffset R p f) (GetPointer R m p f \<noteq> None)"
    and "checks V m (EndTable_V R) True"
  using assms by (simp_all add: verifier_ok_def)

lemma checks_string:
  assumes "verifier_ok R V"
  shows "checks V m (VerifyString R q) (\<forall>a. q = Some a \<longrightarrow> String_data R m a \<noteq> None)"
  using assms by (cases q) (auto simp: verifier_ok_def checks_def)

lemma checks_vector:
  assumes "verifier_ok R V"
  shows "checks V m (VerifyVector R q) (\<forall>a. q = Some a \<longrightarrow> Vector_elements R m a \<noteq> None)"
  using assms by (cases q) (auto simp: verifier_ok_def checks_def)

lemma checks_table:
  assumes "verifier_ok R V" and "\<And>p. checks V m (c p) (P p)"
  shows "checks V m (VerifyTable R c q) (\<forall>a. q = Some a \<longrightarrow> P a)"
  using assms by (cases q) (auto simp: verifier_ok_def checks_def)

lemma checks_tables:
  assumes "verifier_ok R V" and "\<And>p. checks V m (c p) (P p)"
    and "\<forall>a. q = Some a \<longrightarrow> Vector_elements R m a \<noteq> None"
  shows "checks V m (VerifyVectorOfTables R c q)
    (\<forall>a ps. q = Some a \<longrightarrow> Vector_elements R m a = Some ps \<longrightarrow> (\<forall>p \<in> set ps. P p))"
proof (cases q)
  case None
  then show ?thesis using assms(1) by (auto simp: verifier_ok_def checks_def)
next
  case (Some a)
  then obtain ps where ps: "Vector_elements R m a = Some ps" using assms(3) by auto
  have "VerifyVectorOfTables R c q v = all_checks (map c ps) v" if "buffer_of V v = m" for v
    using assms(1) ps that Some unfolding verifier_ok_def by metis
  moreover have "checks V m (all_checks (map c ps)) (\<forall>p \<in> set ps. P p)"
    using assms(2) by (rule checks_list)
  ultimately show ?thesis using ps Some by (simp add: checks_def)
qed

lemmas verifier_steps [check_steps] = verifier_okD [THEN checks_Cons]

lemma with_string [check_steps]:
  assumes "verifier_ok R V" and "q \<noteq> None"
    and "\<forall>a. q = Some (Some a) \<longrightarrow> String_data R m a \<noteq> None \<Longrightarrow> checks V m (all_checks cs) Q"
  shows "checks V m (all_checks (with_value q (VerifyString R) # cs)) Q"
  by (rule checks_Cons [OF checks_with_value [OF assms(2) checks_string [OF assms(1)]]]) (use assms(3) in auto)

lemma with_vector [check_steps]:
  assumes "verifier_ok R V" and "q \<noteq> None"
    and "\<forall>a. q = Some (Some a) \<longrightarrow> Vector_elements R m a \<noteq> None \<Longrightarrow> checks V m (all_checks cs) Q"
  shows "checks V m (all_checks (with_value q (VerifyVector R) # cs)) Q"
  by (rule checks_Cons [OF checks_with_value [OF assms(2) checks_vector [OF assms(1)]]]) (use assms(3) in auto)

lemma with_table:
  assumes "verifier_ok R V" and "\<And>p. checks V m (c p) (P p)" and "q \<noteq> None"
    and "\<forall>a. q = Some (Some a) \<longrightarrow> P a \<Longrightarrow> checks V m (all_checks cs) Q"
  shows "checks V m (all_checks (with_value q (VerifyTable R c) # cs)) Q"
  by (rule checks_Cons [OF checks_with_value [OF assms(3) checks_table [OF assms(1,2)]]]) (use assms(4) in auto)

lemma with_tables:
  assumes "verifier_ok R V" and "\<And>p. checks V m (c p) (P p)" and "q \<noteq> None"
    and "\<forall>a. q = Some (Some a) \<longrightarrow> Vector_elements R m a \<noteq> None"
    and "\<forall>a ps. q = Some (Some a) \<longrightarrow> Vector_elements R m a = Some ps \<longrightarrow> (\<forall>p \<in> set ps. P p) \<Longrightarrow>
      checks V m (all_checks cs) Q"
  shows "checks V m (all_checks (with_value q (VerifyVectorOfTables R c) # cs)) Q"
proof (rule checks_Cons [OF checks_with_value [OF assms(3)]])
  show "checks V m (VerifyVectorOfTables R c a)
      (\<forall>x ps. a = Some x \<longrightarrow> Vector_elements R m x = Some ps \<longrightarrow> (\<forall>p \<in> set ps. P p))" if "q = Some a" for a
    using that assms(4) by (intro checks_tables [OF assms(1,2)]) simp
qed (use assms(5) in auto)

lemma checks_buffer:
  assumes "verifier_ok R V" and "\<And>p. checks V m (c p) (P p)"
  shows "checks V m (VerifyBuffer R None c) (\<exists>p. GetRoot R m = Some p \<and> P p)"
  unfolding checks_def
proof (intro allI impI)
  fix v
  assume v: "buffer_of V v = m"
  consider v' where "buffer_of V v' = m" "VerifyBuffer R None c v = Some (False, v')"
    | p v' where "GetRoot R m = Some p" "buffer_of V v' = m" "VerifyBuffer R None c v = c p v'"
    using assms(1) v unfolding verifier_ok_def by metis
  then show "\<exists>ok v'. VerifyBuffer R None c v = Some (ok, v') \<and> buffer_of V v' = m
      \<and> (ok \<longrightarrow> (\<exists>p. GetRoot R m = Some p \<and> P p))"
    by cases (use assms(2) in \<open>auto simp: checks_def\<close>)
qed

lemma passes_Nil [pass_rules]: "passes V m (all_checks []) d n d n"
  by (simp add: passes_def all_checks.simps)

lemma passes_Cons [pass_rules]:
  assumes "passes V m c d n d1 n1" and "passes V m (all_checks cs) d1 n1 d2 n2"
  shows "passes V m (all_checks (c # cs)) d n d2 n2"
  using assms unfolding passes_def all_checks.simps by fastforce

lemma passes_keeps: "keeps V m c \<Longrightarrow> passes V m c d n d n"
  by (simp add: keeps_def)

lemma passes_weaken: "passes V m c d n d' n' \<Longrightarrow> n' \<le> n'' \<Longrightarrow> passes V m c d n d' n''"
  unfolding passes_def by (intro allI impI, drule spec, drule (1) mp) (auto intro: le_trans)

lemma passes_with_value: "passes V m (k a) d n d' n' \<Longrightarrow> passes V m (with_value (Some a) k) d n d' n'"
  by (simp add: passes_def with_value_def)

lemma passes_end [pass_rules]: "verifier_ok R V \<Longrightarrow> passes V m (EndTable_V R) (Suc d) n d n"
  by (simp add: verifier_ok_def)

lemma keeps_null [simp]:
  assumes "verifier_ok R V"
  shows "keeps V m (VerifyString R None)" and "keeps V m (VerifyVector R None)"
    and "keeps V m (VerifyTable R c None)" and "keeps V m (VerifyVectorOfTables R c None)"
  using assms by (simp_all add: verifier_ok_def keeps_def passes_def)

lemma passes_VerifyTable:
  "verifier_ok R V \<Longrightarrow> passes V m (VerifyTable R c (Some p)) d n d' n' \<longleftrightarrow> passes V m (c p) d n d' n'"
  by (simp add: verifier_ok_def passes_def)

lemma passes_list:
  assumes "\<And>p n. p \<in> set ps \<Longrightarrow> n < k \<Longrightarrow> passes V m (c p) d n d (Suc n)" and "n + length ps \<le> k"
  shows "passes V m (all_checks (map c ps)) d n d (n + length ps)"
  using assms
proof (induction ps arbitrary: n)
  case Nil
  then show ?case by (simp add: passes_Nil)
next
  case (Cons p ps)
  have "passes V m (c p) d n d (Suc n)" using Cons.prems by simp
  moreover have "passes V m (all_checks (map c ps)) d (Suc n) d (Suc n + length ps)"
    using Cons.prems by (intro Cons.IH) simp_all
  ultimately show ?case by (auto intro: passes_Cons)
qed

lemma passes_VerifyVectorOfTables:
  assumes "verifier_ok R V" and "Vector_elements R m a = Some ps"
    and "passes V m (all_checks (map c ps)) d n d' n'"
  shows "passes V m (VerifyVectorOfTables R c (Some a)) d n d' n'"
proof -
  have "VerifyVectorOfTables R c (Some a) v = all_checks (map c ps) v" if "buffer_of V v = m" for v
    using assms(1,2) that unfolding verifier_ok_def by metis
  then show ?thesis using assms(3) by (simp add: passes_def)
qed

end
