(* ===== verification/Fb_Tables.thy ===== *)
theory Fb_Tables
  imports Fb_Runtime
begin

text \<open>
  The tables of \<^verbatim>\<open>messages_generated.h\<close> at the level of the FlatBuffers runtime: for every table its vtable
  offsets, its accessors, \<^verbatim>\<open>Verify\<close>, its builder and its \<^verbatim>\<open>Create\<close> functions, in the order of the file.  An
  accessor takes the buffer \<open>m\<close> and the address \<open>p\<close> of the table.  A builder is the
  \<^verbatim>\<open>FlatBufferBuilder\<close> it refers to together with \<^verbatim>\<open>start_\<close>.  At the end the functions of
  \<^verbatim>\<open>ProtocolUtil.h\<close> that make and accept whole messages.
\<close>

type_synonym ('b, 'v, 'a) accessor = "('b, 'v) runtime \<Rightarrow> bytes \<Rightarrow> addr \<Rightarrow> 'a option"
type_synonym ('b, 'v) table_check = "('b, 'v) runtime \<Rightarrow> bytes \<Rightarrow> addr \<Rightarrow> 'v check"
type_synonym ('b, 'v, 'a) adder = "('b, 'v) runtime \<Rightarrow> 'a \<Rightarrow> 'b \<Rightarrow> 'b"
type_synonym 'b creation = "'b \<Rightarrow> uoffset \<times> 'b"

text \<open>\<^verbatim>\<open>s ? _fbb.CreateString(s) : 0\<close>, as in every \<^verbatim>\<open>Create...Direct\<close>.\<close>

definition string_or_null :: "('b, 'v) runtime \<Rightarrow> string option \<Rightarrow> 'b creation" where
  "string_or_null R s b = (case s of None \<Rightarrow> (0, b) | Some t \<Rightarrow> CreateString_B R t b)"

section \<open>UserInfo\<close>

definition UserInfo_VT_USER_ID :: voffset where [simp]: "UserInfo_VT_USER_ID = 4"
definition UserInfo_VT_DISPLAY_NAME :: voffset where [simp]: "UserInfo_VT_DISPLAY_NAME = 6"

definition UserInfo_user_id :: "('b, 'v, u32) accessor" where
  "UserInfo_user_id R m p = GetField32 R m p UserInfo_VT_USER_ID 0"

definition UserInfo_display_name :: "('b, 'v, addr option) accessor" where
  "UserInfo_display_name R m p = GetPointer R m p UserInfo_VT_DISPLAY_NAME"

definition UserInfo_Verify :: "('b, 'v) table_check" where
  "UserInfo_Verify R m p = all_checks
     [VerifyTableStart R p,
      VerifyField32 R p UserInfo_VT_USER_ID 4,
      VerifyOffset R p UserInfo_VT_DISPLAY_NAME,
      with_value (UserInfo_display_name R m p) (VerifyString R),
      EndTable_V R]"

definition UserInfoBuilder_add_user_id :: "('b, 'v, u32) adder" where
  "UserInfoBuilder_add_user_id R x b = AddElement32 R UserInfo_VT_USER_ID x 0 b"

definition UserInfoBuilder_add_display_name :: "('b, 'v, uoffset) adder" where
  "UserInfoBuilder_add_display_name R r b = AddOffset R UserInfo_VT_DISPLAY_NAME r b"

definition UserInfoBuilder_new :: "('b, 'v) runtime \<Rightarrow> 'b creation" where
  "UserInfoBuilder_new R b = StartTable R b"

definition UserInfoBuilder_Finish :: "('b, 'v) runtime \<Rightarrow> uoffset \<Rightarrow> 'b creation" where
  "UserInfoBuilder_Finish R start b = EndTable_B R start b"

definition CreateUserInfo_B :: "('b, 'v) runtime \<Rightarrow> u32 \<Rightarrow> uoffset \<Rightarrow> 'b creation" where
  "CreateUserInfo_B R user_id display_name b =
     (let (start, b) = UserInfoBuilder_new R b;
          b = UserInfoBuilder_add_display_name R display_name b;
          b = UserInfoBuilder_add_user_id R user_id b
      in UserInfoBuilder_Finish R start b)"

definition CreateUserInfoDirect_B :: "('b, 'v) runtime \<Rightarrow> u32 \<Rightarrow> string option \<Rightarrow> 'b creation" where
  "CreateUserInfoDirect_B R user_id display_name b =
     (let (display_name, b) = string_or_null R display_name b
      in CreateUserInfo_B R user_id display_name b)"

section \<open>RoomInfo\<close>

definition RoomInfo_VT_ROOM_ID :: voffset where [simp]: "RoomInfo_VT_ROOM_ID = 4"
definition RoomInfo_VT_ROOM_NAME :: voffset where [simp]: "RoomInfo_VT_ROOM_NAME = 6"
definition RoomInfo_VT_USER_COUNT :: voffset where [simp]: "RoomInfo_VT_USER_COUNT = 8"

definition RoomInfo_room_id :: "('b, 'v, u32) accessor" where
  "RoomInfo_room_id R m p = GetField32 R m p RoomInfo_VT_ROOM_ID 0"

definition RoomInfo_room_name :: "('b, 'v, addr option) accessor" where
  "RoomInfo_room_name R m p = GetPointer R m p RoomInfo_VT_ROOM_NAME"

definition RoomInfo_user_count :: "('b, 'v, u32) accessor" where
  "RoomInfo_user_count R m p = GetField32 R m p RoomInfo_VT_USER_COUNT 0"

definition RoomInfo_Verify :: "('b, 'v) table_check" where
  "RoomInfo_Verify R m p = all_checks
     [VerifyTableStart R p,
      VerifyField32 R p RoomInfo_VT_ROOM_ID 4,
      VerifyOffset R p RoomInfo_VT_ROOM_NAME,
      with_value (RoomInfo_room_name R m p) (VerifyString R),
      VerifyField32 R p RoomInfo_VT_USER_COUNT 4,
      EndTable_V R]"

definition RoomInfoBuilder_add_room_id :: "('b, 'v, u32) adder" where
  "RoomInfoBuilder_add_room_id R x b = AddElement32 R RoomInfo_VT_ROOM_ID x 0 b"

definition RoomInfoBuilder_add_room_name :: "('b, 'v, uoffset) adder" where
  "RoomInfoBuilder_add_room_name R r b = AddOffset R RoomInfo_VT_ROOM_NAME r b"

definition RoomInfoBuilder_add_user_count :: "('b, 'v, u32) adder" where
  "RoomInfoBuilder_add_user_count R x b = AddElement32 R RoomInfo_VT_USER_COUNT x 0 b"

definition RoomInfoBuilder_new :: "('b, 'v) runtime \<Rightarrow> 'b creation" where
  "RoomInfoBuilder_new R b = StartTable R b"

definition RoomInfoBuilder_Finish :: "('b, 'v) runtime \<Rightarrow> uoffset \<Rightarrow> 'b creation" where
  "RoomInfoBuilder_Finish R start b = EndTable_B R start b"

definition CreateRoomInfo_B :: "('b, 'v) runtime \<Rightarrow> u32 \<Rightarrow> uoffset \<Rightarrow> u32 \<Rightarrow> 'b creation" where
  "CreateRoomInfo_B R room_id room_name user_count b =
     (let (start, b) = RoomInfoBuilder_new R b;
          b = RoomInfoBuilder_add_user_count R user_count b;
          b = RoomInfoBuilder_add_room_name R room_name b;
          b = RoomInfoBuilder_add_room_id R room_id b
      in RoomInfoBuilder_Finish R start b)"

definition CreateRoomInfoDirect_B :: "('b, 'v) runtime \<Rightarrow> u32 \<Rightarrow> string option \<Rightarrow> u32 \<Rightarrow> 'b creation" where
  "CreateRoomInfoDirect_B R room_id room_name user_count b =
     (let (room_name, b) = string_or_null R room_name b
      in CreateRoomInfo_B R room_id room_name user_count b)"

section \<open>LoginRequest\<close>

definition LoginRequest_VT_DISPLAY_NAME :: voffset where [simp]: "LoginRequest_VT_DISPLAY_NAME = 4"

definition LoginRequest_display_name :: "('b, 'v, addr option) accessor" where
  "LoginRequest_display_name R m p = GetPointer R m p LoginRequest_VT_DISPLAY_NAME"

definition LoginRequest_Verify :: "('b, 'v) table_check" where
  "LoginRequest_Verify R m p = all_checks
     [VerifyTableStart R p,
      VerifyOffset R p LoginRequest_VT_DISPLAY_NAME,
      with_value (LoginRequest_display_name R m p) (VerifyString R),
      EndTable_V R]"

definition LoginRequestBuilder_add_display_name :: "('b, 'v, uoffset) adder" where
  "LoginRequestBuilder_add_display_name R r b = AddOffset R LoginRequest_VT_DISPLAY_NAME r b"

definition LoginRequestBuilder_new :: "('b, 'v) runtime \<Rightarrow> 'b creation" where
  "LoginRequestBuilder_new R b = StartTable R b"

definition LoginRequestBuilder_Finish :: "('b, 'v) runtime \<Rightarrow> uoffset \<Rightarrow> 'b creation" where
  "LoginRequestBuilder_Finish R start b = EndTable_B R start b"

definition CreateLoginRequest_B :: "('b, 'v) runtime \<Rightarrow> uoffset \<Rightarrow> 'b creation" where
  "CreateLoginRequest_B R display_name b =
     (let (start, b) = LoginRequestBuilder_new R b;
          b = LoginRequestBuilder_add_display_name R display_name b
      in LoginRequestBuilder_Finish R start b)"

definition CreateLoginRequestDirect_B :: "('b, 'v) runtime \<Rightarrow> string option \<Rightarrow> 'b creation" where
  "CreateLoginRequestDirect_B R display_name b =
     (let (display_name, b) = string_or_null R display_name b
      in CreateLoginRequest_B R display_name b)"

section \<open>LoginResponse\<close>

definition LoginResponse_VT_SUCCESS :: voffset where [simp]: "LoginResponse_VT_SUCCESS = 4"
definition LoginResponse_VT_ERROR_CODE :: voffset where [simp]: "LoginResponse_VT_ERROR_CODE = 6"
definition LoginResponse_VT_USER :: voffset where [simp]: "LoginResponse_VT_USER = 8"

definition LoginResponse_success :: "('b, 'v, bool) accessor" where
  "LoginResponse_success R m p = map_option (\<lambda>x. x \<noteq> 0) (GetField8 R m p LoginResponse_VT_SUCCESS 0)"

definition LoginResponse_error_code :: "('b, 'v, ErrorCode) accessor" where
  "LoginResponse_error_code R m p = GetField16 R m p LoginResponse_VT_ERROR_CODE 0"

definition LoginResponse_user :: "('b, 'v, addr option) accessor" where
  "LoginResponse_user R m p = GetPointer R m p LoginResponse_VT_USER"

definition LoginResponse_Verify :: "('b, 'v) table_check" where
  "LoginResponse_Verify R m p = all_checks
     [VerifyTableStart R p,
      VerifyField8 R p LoginResponse_VT_SUCCESS 1,
      VerifyField16 R p LoginResponse_VT_ERROR_CODE 2,
      VerifyOffset R p LoginResponse_VT_USER,
      with_value (LoginResponse_user R m p) (VerifyTable R (UserInfo_Verify R m)),
      EndTable_V R]"

definition LoginResponseBuilder_add_success :: "('b, 'v, bool) adder" where
  "LoginResponseBuilder_add_success R success b = AddElement8 R LoginResponse_VT_SUCCESS (of_bool success) 0 b"

definition LoginResponseBuilder_add_error_code :: "('b, 'v, ErrorCode) adder" where
  "LoginResponseBuilder_add_error_code R x b = AddElement16 R LoginResponse_VT_ERROR_CODE x 0 b"

definition LoginResponseBuilder_add_user :: "('b, 'v, uoffset) adder" where
  "LoginResponseBuilder_add_user R r b = AddOffset R LoginResponse_VT_USER r b"

definition LoginResponseBuilder_new :: "('b, 'v) runtime \<Rightarrow> 'b creation" where
  "LoginResponseBuilder_new R b = StartTable R b"

definition LoginResponseBuilder_Finish :: "('b, 'v) runtime \<Rightarrow> uoffset \<Rightarrow> 'b creation" where
  "LoginResponseBuilder_Finish R start b = EndTable_B R start b"

definition CreateLoginResponse_B :: "('b, 'v) runtime \<Rightarrow> bool \<Rightarrow> ErrorCode \<Rightarrow> uoffset \<Rightarrow> 'b creation" where
  "CreateLoginResponse_B R success error_code user b =
     (let (start, b) = LoginResponseBuilder_new R b;
          b = LoginResponseBuilder_add_user R user b;
          b = LoginResponseBuilder_add_error_code R error_code b;
          b = LoginResponseBuilder_add_success R success b
      in LoginResponseBuilder_Finish R start b)"

section \<open>RoomListRequest\<close>

definition RoomListRequest_Verify :: "('b, 'v) table_check" where
  "RoomListRequest_Verify R m p = all_checks
     [VerifyTableStart R p,
      EndTable_V R]"

definition RoomListRequestBuilder_new :: "('b, 'v) runtime \<Rightarrow> 'b creation" where
  "RoomListRequestBuilder_new R b = StartTable R b"

definition RoomListRequestBuilder_Finish :: "('b, 'v) runtime \<Rightarrow> uoffset \<Rightarrow> 'b creation" where
  "RoomListRequestBuilder_Finish R start b = EndTable_B R start b"

definition CreateRoomListRequest_B :: "('b, 'v) runtime \<Rightarrow> 'b creation" where
  "CreateRoomListRequest_B R b =
     (let (start, b) = RoomListRequestBuilder_new R b
      in RoomListRequestBuilder_Finish R start b)"

section \<open>RoomListResponse\<close>

definition RoomListResponse_VT_ROOMS :: voffset where [simp]: "RoomListResponse_VT_ROOMS = 4"

definition RoomListResponse_rooms :: "('b, 'v, addr option) accessor" where
  "RoomListResponse_rooms R m p = GetPointer R m p RoomListResponse_VT_ROOMS"

definition RoomListResponse_Verify :: "('b, 'v) table_check" where
  "RoomListResponse_Verify R m p = all_checks
     [VerifyTableStart R p,
      VerifyOffset R p RoomListResponse_VT_ROOMS,
      with_value (RoomListResponse_rooms R m p) (VerifyVector R),
      with_value (RoomListResponse_rooms R m p) (VerifyVectorOfTables R (RoomInfo_Verify R m)),
      EndTable_V R]"

definition RoomListResponseBuilder_add_rooms :: "('b, 'v, uoffset) adder" where
  "RoomListResponseBuilder_add_rooms R r b = AddOffset R RoomListResponse_VT_ROOMS r b"

definition RoomListResponseBuilder_new :: "('b, 'v) runtime \<Rightarrow> 'b creation" where
  "RoomListResponseBuilder_new R b = StartTable R b"

definition RoomListResponseBuilder_Finish :: "('b, 'v) runtime \<Rightarrow> uoffset \<Rightarrow> 'b creation" where
  "RoomListResponseBuilder_Finish R start b = EndTable_B R start b"

definition CreateRoomListResponse_B :: "('b, 'v) runtime \<Rightarrow> uoffset \<Rightarrow> 'b creation" where
  "CreateRoomListResponse_B R rooms b =
     (let (start, b) = RoomListResponseBuilder_new R b;
          b = RoomListResponseBuilder_add_rooms R rooms b
      in RoomListResponseBuilder_Finish R start b)"

definition CreateRoomListResponseDirect_B :: "('b, 'v) runtime \<Rightarrow> uoffset list option \<Rightarrow> 'b creation" where
  "CreateRoomListResponseDirect_B R rooms b =
     (let (rooms, b) = (case rooms of None \<Rightarrow> (0, b) | Some rs \<Rightarrow> CreateVector_B R rs b)
      in CreateRoomListResponse_B R rooms b)"

section \<open>JoinRoomRequest\<close>

definition JoinRoomRequest_VT_ROOM_ID :: voffset where [simp]: "JoinRoomRequest_VT_ROOM_ID = 4"

definition JoinRoomRequest_room_id :: "('b, 'v, u32) accessor" where
  "JoinRoomRequest_room_id R m p = GetField32 R m p JoinRoomRequest_VT_ROOM_ID 0"

definition JoinRoomRequest_Verify :: "('b, 'v) table_check" where
  "JoinRoomRequest_Verify R m p = all_checks
     [VerifyTableStart R p,
      VerifyField32 R p JoinRoomRequest_VT_ROOM_ID 4,
      EndTable_V R]"

definition JoinRoomRequestBuilder_add_room_id :: "('b, 'v, u32) adder" where
  "JoinRoomRequestBuilder_add_room_id R x b = AddElement32 R JoinRoomRequest_VT_ROOM_ID x 0 b"

definition JoinRoomRequestBuilder_new :: "('b, 'v) runtime \<Rightarrow> 'b creation" where
  "JoinRoomRequestBuilder_new R b = StartTable R b"

definition JoinRoomRequestBuilder_Finish :: "('b, 'v) runtime \<Rightarrow> uoffset \<Rightarrow> 'b creation" where
  "JoinRoomRequestBuilder_Finish R start b = EndTable_B R start b"

definition CreateJoinRoomRequest_B :: "('b, 'v) runtime \<Rightarrow> u32 \<Rightarrow> 'b creation" where
  "CreateJoinRoomRequest_B R room_id b =
     (let (start, b) = JoinRoomRequestBuilder_new R b;
          b = JoinRoomRequestBuilder_add_room_id R room_id b
      in JoinRoomRequestBuilder_Finish R start b)"

section \<open>JoinRoomResponse\<close>

definition JoinRoomResponse_VT_SUCCESS :: voffset where [simp]: "JoinRoomResponse_VT_SUCCESS = 4"
definition JoinRoomResponse_VT_ERROR_CODE :: voffset where [simp]: "JoinRoomResponse_VT_ERROR_CODE = 6"
definition JoinRoomResponse_VT_ROOM :: voffset where [simp]: "JoinRoomResponse_VT_ROOM = 8"

definition JoinRoomResponse_success :: "('b, 'v, bool) accessor" where
  "JoinRoomResponse_success R m p = map_option (\<lambda>x. x \<noteq> 0) (GetField8 R m p JoinRoomResponse_VT_SUCCESS 0)"

definition JoinRoomResponse_error_code :: "('b, 'v, ErrorCode) accessor" where
  "JoinRoomResponse_error_code R m p = GetField16 R m p JoinRoomResponse_VT_ERROR_CODE 0"

definition JoinRoomResponse_room :: "('b, 'v, addr option) accessor" where
  "JoinRoomResponse_room R m p = GetPointer R m p JoinRoomResponse_VT_ROOM"

definition JoinRoomResponse_Verify :: "('b, 'v) table_check" where
  "JoinRoomResponse_Verify R m p = all_checks
     [VerifyTableStart R p,
      VerifyField8 R p JoinRoomResponse_VT_SUCCESS 1,
      VerifyField16 R p JoinRoomResponse_VT_ERROR_CODE 2,
      VerifyOffset R p JoinRoomResponse_VT_ROOM,
      with_value (JoinRoomResponse_room R m p) (VerifyTable R (RoomInfo_Verify R m)),
      EndTable_V R]"

definition JoinRoomResponseBuilder_add_success :: "('b, 'v, bool) adder" where
  "JoinRoomResponseBuilder_add_success R success b = AddElement8 R JoinRoomResponse_VT_SUCCESS (of_bool success) 0 b"

definition JoinRoomResponseBuilder_add_error_code :: "('b, 'v, ErrorCode) adder" where
  "JoinRoomResponseBuilder_add_error_code R x b = AddElement16 R JoinRoomResponse_VT_ERROR_CODE x 0 b"

definition JoinRoomResponseBuilder_add_room :: "('b, 'v, uoffset) adder" where
  "JoinRoomResponseBuilder_add_room R r b = AddOffset R JoinRoomResponse_VT_ROOM r b"

definition JoinRoomResponseBuilder_new :: "('b, 'v) runtime \<Rightarrow> 'b creation" where
  "JoinRoomResponseBuilder_new R b = StartTable R b"

definition JoinRoomResponseBuilder_Finish :: "('b, 'v) runtime \<Rightarrow> uoffset \<Rightarrow> 'b creation" where
  "JoinRoomResponseBuilder_Finish R start b = EndTable_B R start b"

definition CreateJoinRoomResponse_B :: "('b, 'v) runtime \<Rightarrow> bool \<Rightarrow> ErrorCode \<Rightarrow> uoffset \<Rightarrow> 'b creation" where
  "CreateJoinRoomResponse_B R success error_code room b =
     (let (start, b) = JoinRoomResponseBuilder_new R b;
          b = JoinRoomResponseBuilder_add_room R room b;
          b = JoinRoomResponseBuilder_add_error_code R error_code b;
          b = JoinRoomResponseBuilder_add_success R success b
      in JoinRoomResponseBuilder_Finish R start b)"

section \<open>ChatSendRequest\<close>

definition ChatSendRequest_VT_CONTENT :: voffset where [simp]: "ChatSendRequest_VT_CONTENT = 4"

definition ChatSendRequest_content :: "('b, 'v, addr option) accessor" where
  "ChatSendRequest_content R m p = GetPointer R m p ChatSendRequest_VT_CONTENT"

definition ChatSendRequest_Verify :: "('b, 'v) table_check" where
  "ChatSendRequest_Verify R m p = all_checks
     [VerifyTableStart R p,
      VerifyOffset R p ChatSendRequest_VT_CONTENT,
      with_value (ChatSendRequest_content R m p) (VerifyString R),
      EndTable_V R]"

definition ChatSendRequestBuilder_add_content :: "('b, 'v, uoffset) adder" where
  "ChatSendRequestBuilder_add_content R r b = AddOffset R ChatSendRequest_VT_CONTENT r b"

definition ChatSendRequestBuilder_new :: "('b, 'v) runtime \<Rightarrow> 'b creation" where
  "ChatSendRequestBuilder_new R b = StartTable R b"

definition ChatSendRequestBuilder_Finish :: "('b, 'v) runtime \<Rightarrow> uoffset \<Rightarrow> 'b creation" where
  "ChatSendRequestBuilder_Finish R start b = EndTable_B R start b"

definition CreateChatSendRequest_B :: "('b, 'v) runtime \<Rightarrow> uoffset \<Rightarrow> 'b creation" where
  "CreateChatSendRequest_B R content b =
     (let (start, b) = ChatSendRequestBuilder_new R b;
          b = ChatSendRequestBuilder_add_content R content b
      in ChatSendRequestBuilder_Finish R start b)"

definition CreateChatSendRequestDirect_B :: "('b, 'v) runtime \<Rightarrow> string option \<Rightarrow> 'b creation" where
  "CreateChatSendRequestDirect_B R content b =
     (let (content, b) = string_or_null R content b
      in CreateChatSendRequest_B R content b)"

section \<open>ChatBroadcast\<close>

definition ChatBroadcast_VT_ROOM_ID :: voffset where [simp]: "ChatBroadcast_VT_ROOM_ID = 4"
definition ChatBroadcast_VT_SENDER_ID :: voffset where [simp]: "ChatBroadcast_VT_SENDER_ID = 6"
definition ChatBroadcast_VT_SENDER_NAME :: voffset where [simp]: "ChatBroadcast_VT_SENDER_NAME = 8"
definition ChatBroadcast_VT_CONTENT :: voffset where [simp]: "ChatBroadcast_VT_CONTENT = 10"
definition ChatBroadcast_VT_TIMESTAMP :: voffset where [simp]: "ChatBroadcast_VT_TIMESTAMP = 12"

definition ChatBroadcast_room_id :: "('b, 'v, u32) accessor" where
  "ChatBroadcast_room_id R m p = GetField32 R m p ChatBroadcast_VT_ROOM_ID 0"

definition ChatBroadcast_sender_id :: "('b, 'v, u32) accessor" where
  "ChatBroadcast_sender_id R m p = GetField32 R m p ChatBroadcast_VT_SENDER_ID 0"

definition ChatBroadcast_sender_name :: "('b, 'v, addr option) accessor" where
  "ChatBroadcast_sender_name R m p = GetPointer R m p ChatBroadcast_VT_SENDER_NAME"

definition ChatBroadcast_content :: "('b, 'v, addr option) accessor" where
  "ChatBroadcast_content R m p = GetPointer R m p ChatBroadcast_VT_CONTENT"

definition ChatBroadcast_timestamp :: "('b, 'v, u64) accessor" where
  "ChatBroadcast_timestamp R m p = GetField64 R m p ChatBroadcast_VT_TIMESTAMP 0"

definition ChatBroadcast_Verify :: "('b, 'v) table_check" where
  "ChatBroadcast_Verify R m p = all_checks
     [VerifyTableStart R p,
      VerifyField32 R p ChatBroadcast_VT_ROOM_ID 4,
      VerifyField32 R p ChatBroadcast_VT_SENDER_ID 4,
      VerifyOffset R p ChatBroadcast_VT_SENDER_NAME,
      with_value (ChatBroadcast_sender_name R m p) (VerifyString R),
      VerifyOffset R p ChatBroadcast_VT_CONTENT,
      with_value (ChatBroadcast_content R m p) (VerifyString R),
      VerifyField64 R p ChatBroadcast_VT_TIMESTAMP 8,
      EndTable_V R]"

definition ChatBroadcastBuilder_add_room_id :: "('b, 'v, u32) adder" where
  "ChatBroadcastBuilder_add_room_id R x b = AddElement32 R ChatBroadcast_VT_ROOM_ID x 0 b"

definition ChatBroadcastBuilder_add_sender_id :: "('b, 'v, u32) adder" where
  "ChatBroadcastBuilder_add_sender_id R x b = AddElement32 R ChatBroadcast_VT_SENDER_ID x 0 b"

definition ChatBroadcastBuilder_add_sender_name :: "('b, 'v, uoffset) adder" where
  "ChatBroadcastBuilder_add_sender_name R r b = AddOffset R ChatBroadcast_VT_SENDER_NAME r b"

definition ChatBroadcastBuilder_add_content :: "('b, 'v, uoffset) adder" where
  "ChatBroadcastBuilder_add_content R r b = AddOffset R ChatBroadcast_VT_CONTENT r b"

definition ChatBroadcastBuilder_add_timestamp :: "('b, 'v, u64) adder" where
  "ChatBroadcastBuilder_add_timestamp R x b = AddElement64 R ChatBroadcast_VT_TIMESTAMP x 0 b"

definition ChatBroadcastBuilder_new :: "('b, 'v) runtime \<Rightarrow> 'b creation" where
  "ChatBroadcastBuilder_new R b = StartTable R b"

definition ChatBroadcastBuilder_Finish :: "('b, 'v) runtime \<Rightarrow> uoffset \<Rightarrow> 'b creation" where
  "ChatBroadcastBuilder_Finish R start b = EndTable_B R start b"

definition CreateChatBroadcast_B :: "('b, 'v) runtime \<Rightarrow> u32 \<Rightarrow> u32 \<Rightarrow> uoffset \<Rightarrow> uoffset \<Rightarrow> u64 \<Rightarrow> 'b creation" where
  "CreateChatBroadcast_B R room_id sender_id sender_name content timestamp b =
     (let (start, b) = ChatBroadcastBuilder_new R b;
          b = ChatBroadcastBuilder_add_timestamp R timestamp b;
          b = ChatBroadcastBuilder_add_content R content b;
          b = ChatBroadcastBuilder_add_sender_name R sender_name b;
          b = ChatBroadcastBuilder_add_sender_id R sender_id b;
          b = ChatBroadcastBuilder_add_room_id R room_id b
      in ChatBroadcastBuilder_Finish R start b)"

definition CreateChatBroadcastDirect_B :: "('b, 'v) runtime \<Rightarrow> u32 \<Rightarrow> u32 \<Rightarrow> string option \<Rightarrow> string option \<Rightarrow> u64 \<Rightarrow> 'b creation" where
  "CreateChatBroadcastDirect_B R room_id sender_id sender_name content timestamp b =
     (let (sender_name, b) = string_or_null R sender_name b;
          (content, b) = string_or_null R content b
      in CreateChatBroadcast_B R room_id sender_id sender_name content timestamp b)"

section \<open>LeaveRoomRequest\<close>

definition LeaveRoomRequest_Verify :: "('b, 'v) table_check" where
  "LeaveRoomRequest_Verify R m p = all_checks
     [VerifyTableStart R p,
      EndTable_V R]"

definition LeaveRoomRequestBuilder_new :: "('b, 'v) runtime \<Rightarrow> 'b creation" where
  "LeaveRoomRequestBuilder_new R b = StartTable R b"

definition LeaveRoomRequestBuilder_Finish :: "('b, 'v) runtime \<Rightarrow> uoffset \<Rightarrow> 'b creation" where
  "LeaveRoomRequestBuilder_Finish R start b = EndTable_B R start b"

definition CreateLeaveRoomRequest_B :: "('b, 'v) runtime \<Rightarrow> 'b creation" where
  "CreateLeaveRoomRequest_B R b =
     (let (start, b) = LeaveRoomRequestBuilder_new R b
      in LeaveRoomRequestBuilder_Finish R start b)"

section \<open>LeaveRoomResponse\<close>

definition LeaveRoomResponse_VT_SUCCESS :: voffset where [simp]: "LeaveRoomResponse_VT_SUCCESS = 4"
definition LeaveRoomResponse_VT_ERROR_CODE :: voffset where [simp]: "LeaveRoomResponse_VT_ERROR_CODE = 6"

definition LeaveRoomResponse_success :: "('b, 'v, bool) accessor" where
  "LeaveRoomResponse_success R m p = map_option (\<lambda>x. x \<noteq> 0) (GetField8 R m p LeaveRoomResponse_VT_SUCCESS 0)"

definition LeaveRoomResponse_error_code :: "('b, 'v, ErrorCode) accessor" where
  "LeaveRoomResponse_error_code R m p = GetField16 R m p LeaveRoomResponse_VT_ERROR_CODE 0"

definition LeaveRoomResponse_Verify :: "('b, 'v) table_check" where
  "LeaveRoomResponse_Verify R m p = all_checks
     [VerifyTableStart R p,
      VerifyField8 R p LeaveRoomResponse_VT_SUCCESS 1,
      VerifyField16 R p LeaveRoomResponse_VT_ERROR_CODE 2,
      EndTable_V R]"

definition LeaveRoomResponseBuilder_add_success :: "('b, 'v, bool) adder" where
  "LeaveRoomResponseBuilder_add_success R success b = AddElement8 R LeaveRoomResponse_VT_SUCCESS (of_bool success) 0 b"

definition LeaveRoomResponseBuilder_add_error_code :: "('b, 'v, ErrorCode) adder" where
  "LeaveRoomResponseBuilder_add_error_code R x b = AddElement16 R LeaveRoomResponse_VT_ERROR_CODE x 0 b"

definition LeaveRoomResponseBuilder_new :: "('b, 'v) runtime \<Rightarrow> 'b creation" where
  "LeaveRoomResponseBuilder_new R b = StartTable R b"

definition LeaveRoomResponseBuilder_Finish :: "('b, 'v) runtime \<Rightarrow> uoffset \<Rightarrow> 'b creation" where
  "LeaveRoomResponseBuilder_Finish R start b = EndTable_B R start b"

definition CreateLeaveRoomResponse_B :: "('b, 'v) runtime \<Rightarrow> bool \<Rightarrow> ErrorCode \<Rightarrow> 'b creation" where
  "CreateLeaveRoomResponse_B R success error_code b =
     (let (start, b) = LeaveRoomResponseBuilder_new R b;
          b = LeaveRoomResponseBuilder_add_error_code R error_code b;
          b = LeaveRoomResponseBuilder_add_success R success b
      in LeaveRoomResponseBuilder_Finish R start b)"

section \<open>DisconnectRequest\<close>

definition DisconnectRequest_Verify :: "('b, 'v) table_check" where
  "DisconnectRequest_Verify R m p = all_checks
     [VerifyTableStart R p,
      EndTable_V R]"

definition DisconnectRequestBuilder_new :: "('b, 'v) runtime \<Rightarrow> 'b creation" where
  "DisconnectRequestBuilder_new R b = StartTable R b"

definition DisconnectRequestBuilder_Finish :: "('b, 'v) runtime \<Rightarrow> uoffset \<Rightarrow> 'b creation" where
  "DisconnectRequestBuilder_Finish R start b = EndTable_B R start b"

definition CreateDisconnectRequest_B :: "('b, 'v) runtime \<Rightarrow> 'b creation" where
  "CreateDisconnectRequest_B R b =
     (let (start, b) = DisconnectRequestBuilder_new R b
      in DisconnectRequestBuilder_Finish R start b)"

section \<open>DisconnectResponse\<close>

definition DisconnectResponse_VT_SUCCESS :: voffset where [simp]: "DisconnectResponse_VT_SUCCESS = 4"
definition DisconnectResponse_VT_ERROR_CODE :: voffset where [simp]: "DisconnectResponse_VT_ERROR_CODE = 6"

definition DisconnectResponse_success :: "('b, 'v, bool) accessor" where
  "DisconnectResponse_success R m p = map_option (\<lambda>x. x \<noteq> 0) (GetField8 R m p DisconnectResponse_VT_SUCCESS 0)"

definition DisconnectResponse_error_code :: "('b, 'v, ErrorCode) accessor" where
  "DisconnectResponse_error_code R m p = GetField16 R m p DisconnectResponse_VT_ERROR_CODE 0"

definition DisconnectResponse_Verify :: "('b, 'v) table_check" where
  "DisconnectResponse_Verify R m p = all_checks
     [VerifyTableStart R p,
      VerifyField8 R p DisconnectResponse_VT_SUCCESS 1,
      VerifyField16 R p DisconnectResponse_VT_ERROR_CODE 2,
      EndTable_V R]"

definition DisconnectResponseBuilder_add_success :: "('b, 'v, bool) adder" where
  "DisconnectResponseBuilder_add_success R success b = AddElement8 R DisconnectResponse_VT_SUCCESS (of_bool success) 0 b"

definition DisconnectResponseBuilder_add_error_code :: "('b, 'v, ErrorCode) adder" where
  "DisconnectResponseBuilder_add_error_code R x b = AddElement16 R DisconnectResponse_VT_ERROR_CODE x 0 b"

definition DisconnectResponseBuilder_new :: "('b, 'v) runtime \<Rightarrow> 'b creation" where
  "DisconnectResponseBuilder_new R b = StartTable R b"

definition DisconnectResponseBuilder_Finish :: "('b, 'v) runtime \<Rightarrow> uoffset \<Rightarrow> 'b creation" where
  "DisconnectResponseBuilder_Finish R start b = EndTable_B R start b"

definition CreateDisconnectResponse_B :: "('b, 'v) runtime \<Rightarrow> bool \<Rightarrow> ErrorCode \<Rightarrow> 'b creation" where
  "CreateDisconnectResponse_B R success error_code b =
     (let (start, b) = DisconnectResponseBuilder_new R b;
          b = DisconnectResponseBuilder_add_error_code R error_code b;
          b = DisconnectResponseBuilder_add_success R success b
      in DisconnectResponseBuilder_Finish R start b)"

section \<open>UserJoinedEvent\<close>

definition UserJoinedEvent_VT_ROOM_ID :: voffset where [simp]: "UserJoinedEvent_VT_ROOM_ID = 4"
definition UserJoinedEvent_VT_USER :: voffset where [simp]: "UserJoinedEvent_VT_USER = 6"

definition UserJoinedEvent_room_id :: "('b, 'v, u32) accessor" where
  "UserJoinedEvent_room_id R m p = GetField32 R m p UserJoinedEvent_VT_ROOM_ID 0"

definition UserJoinedEvent_user :: "('b, 'v, addr option) accessor" where
  "UserJoinedEvent_user R m p = GetPointer R m p UserJoinedEvent_VT_USER"

definition UserJoinedEvent_Verify :: "('b, 'v) table_check" where
  "UserJoinedEvent_Verify R m p = all_checks
     [VerifyTableStart R p,
      VerifyField32 R p UserJoinedEvent_VT_ROOM_ID 4,
      VerifyOffset R p UserJoinedEvent_VT_USER,
      with_value (UserJoinedEvent_user R m p) (VerifyTable R (UserInfo_Verify R m)),
      EndTable_V R]"

definition UserJoinedEventBuilder_add_room_id :: "('b, 'v, u32) adder" where
  "UserJoinedEventBuilder_add_room_id R x b = AddElement32 R UserJoinedEvent_VT_ROOM_ID x 0 b"

definition UserJoinedEventBuilder_add_user :: "('b, 'v, uoffset) adder" where
  "UserJoinedEventBuilder_add_user R r b = AddOffset R UserJoinedEvent_VT_USER r b"

definition UserJoinedEventBuilder_new :: "('b, 'v) runtime \<Rightarrow> 'b creation" where
  "UserJoinedEventBuilder_new R b = StartTable R b"

definition UserJoinedEventBuilder_Finish :: "('b, 'v) runtime \<Rightarrow> uoffset \<Rightarrow> 'b creation" where
  "UserJoinedEventBuilder_Finish R start b = EndTable_B R start b"

definition CreateUserJoinedEvent_B :: "('b, 'v) runtime \<Rightarrow> u32 \<Rightarrow> uoffset \<Rightarrow> 'b creation" where
  "CreateUserJoinedEvent_B R room_id user b =
     (let (start, b) = UserJoinedEventBuilder_new R b;
          b = UserJoinedEventBuilder_add_user R user b;
          b = UserJoinedEventBuilder_add_room_id R room_id b
      in UserJoinedEventBuilder_Finish R start b)"

section \<open>UserLeftEvent\<close>

definition UserLeftEvent_VT_ROOM_ID :: voffset where [simp]: "UserLeftEvent_VT_ROOM_ID = 4"
definition UserLeftEvent_VT_USER :: voffset where [simp]: "UserLeftEvent_VT_USER = 6"

definition UserLeftEvent_room_id :: "('b, 'v, u32) accessor" where
  "UserLeftEvent_room_id R m p = GetField32 R m p UserLeftEvent_VT_ROOM_ID 0"

definition UserLeftEvent_user :: "('b, 'v, addr option) accessor" where
  "UserLeftEvent_user R m p = GetPointer R m p UserLeftEvent_VT_USER"

definition UserLeftEvent_Verify :: "('b, 'v) table_check" where
  "UserLeftEvent_Verify R m p = all_checks
     [VerifyTableStart R p,
      VerifyField32 R p UserLeftEvent_VT_ROOM_ID 4,
      VerifyOffset R p UserLeftEvent_VT_USER,
      with_value (UserLeftEvent_user R m p) (VerifyTable R (UserInfo_Verify R m)),
      EndTable_V R]"

definition UserLeftEventBuilder_add_room_id :: "('b, 'v, u32) adder" where
  "UserLeftEventBuilder_add_room_id R x b = AddElement32 R UserLeftEvent_VT_ROOM_ID x 0 b"

definition UserLeftEventBuilder_add_user :: "('b, 'v, uoffset) adder" where
  "UserLeftEventBuilder_add_user R r b = AddOffset R UserLeftEvent_VT_USER r b"

definition UserLeftEventBuilder_new :: "('b, 'v) runtime \<Rightarrow> 'b creation" where
  "UserLeftEventBuilder_new R b = StartTable R b"

definition UserLeftEventBuilder_Finish :: "('b, 'v) runtime \<Rightarrow> uoffset \<Rightarrow> 'b creation" where
  "UserLeftEventBuilder_Finish R start b = EndTable_B R start b"

definition CreateUserLeftEvent_B :: "('b, 'v) runtime \<Rightarrow> u32 \<Rightarrow> uoffset \<Rightarrow> 'b creation" where
  "CreateUserLeftEvent_B R room_id user b =
     (let (start, b) = UserLeftEventBuilder_new R b;
          b = UserLeftEventBuilder_add_user R user b;
          b = UserLeftEventBuilder_add_room_id R room_id b
      in UserLeftEventBuilder_Finish R start b)"

section \<open>SystemMessageEvent\<close>

definition SystemMessageEvent_VT_ROOM_ID :: voffset where [simp]: "SystemMessageEvent_VT_ROOM_ID = 4"
definition SystemMessageEvent_VT_CONTENT :: voffset where [simp]: "SystemMessageEvent_VT_CONTENT = 6"

definition SystemMessageEvent_room_id :: "('b, 'v, u32) accessor" where
  "SystemMessageEvent_room_id R m p = GetField32 R m p SystemMessageEvent_VT_ROOM_ID 0"

definition SystemMessageEvent_content :: "('b, 'v, addr option) accessor" where
  "SystemMessageEvent_content R m p = GetPointer R m p SystemMessageEvent_VT_CONTENT"

definition SystemMessageEvent_Verify :: "('b, 'v) table_check" where
  "SystemMessageEvent_Verify R m p = all_checks
     [VerifyTableStart R p,
      VerifyField32 R p SystemMessageEvent_VT_ROOM_ID 4,
      VerifyOffset R p SystemMessageEvent_VT_CONTENT,
      with_value (SystemMessageEvent_content R m p) (VerifyString R),
      EndTable_V R]"

definition SystemMessageEventBuilder_add_room_id :: "('b, 'v, u32) adder" where
  "SystemMessageEventBuilder_add_room_id R x b = AddElement32 R SystemMessageEvent_VT_ROOM_ID x 0 b"

definition SystemMessageEventBuilder_add_content :: "('b, 'v, uoffset) adder" where
  "SystemMessageEventBuilder_add_content R r b = AddOffset R SystemMessageEvent_VT_CONTENT r b"

definition SystemMessageEventBuilder_new :: "('b, 'v) runtime \<Rightarrow> 'b creation" where
  "SystemMessageEventBuilder_new R b = StartTable R b"

definition SystemMessageEventBuilder_Finish :: "('b, 'v) runtime \<Rightarrow> uoffset \<Rightarrow> 'b creation" where
  "SystemMessageEventBuilder_Finish R start b = EndTable_B R start b"

definition CreateSystemMessageEvent_B :: "('b, 'v) runtime \<Rightarrow> u32 \<Rightarrow> uoffset \<Rightarrow> 'b creation" where
  "CreateSystemMessageEvent_B R room_id content b =
     (let (start, b) = SystemMessageEventBuilder_new R b;
          b = SystemMessageEventBuilder_add_content R content b;
          b = SystemMessageEventBuilder_add_room_id R room_id b
      in SystemMessageEventBuilder_Finish R start b)"

definition CreateSystemMessageEventDirect_B :: "('b, 'v) runtime \<Rightarrow> u32 \<Rightarrow> string option \<Rightarrow> 'b creation" where
  "CreateSystemMessageEventDirect_B R room_id content b =
     (let (content, b) = string_or_null R content b
      in CreateSystemMessageEvent_B R room_id content b)"

section \<open>Message\<close>

definition Message_VT_REQUEST_ID :: voffset where [simp]: "Message_VT_REQUEST_ID = 4"
definition Message_VT_PAYLOAD_TYPE :: voffset where [simp]: "Message_VT_PAYLOAD_TYPE = 6"
definition Message_VT_PAYLOAD :: voffset where [simp]: "Message_VT_PAYLOAD = 8"

definition Message_request_id :: "('b, 'v, u32) accessor" where
  "Message_request_id R m p = GetField32 R m p Message_VT_REQUEST_ID 0"

definition Message_payload_type :: "('b, 'v, MessagePayload) accessor" where
  "Message_payload_type R m p = GetField8 R m p Message_VT_PAYLOAD_TYPE 0"

definition Message_payload :: "('b, 'v, addr option) accessor" where
  "Message_payload R m p = GetPointer R m p Message_VT_PAYLOAD"

definition Message_payload_as_LoginRequest :: "('b, 'v, addr option) accessor" where
  "Message_payload_as_LoginRequest R m p =
     do { ty \<leftarrow> Message_payload_type R m p;
          if ty = MessagePayload_LoginRequest then Message_payload R m p else Some None }"

definition Message_payload_as_LoginResponse :: "('b, 'v, addr option) accessor" where
  "Message_payload_as_LoginResponse R m p =
     do { ty \<leftarrow> Message_payload_type R m p;
          if ty = MessagePayload_LoginResponse then Message_payload R m p else Some None }"

definition Message_payload_as_RoomListRequest :: "('b, 'v, addr option) accessor" where
  "Message_payload_as_RoomListRequest R m p =
     do { ty \<leftarrow> Message_payload_type R m p;
          if ty = MessagePayload_RoomListRequest then Message_payload R m p else Some None }"

definition Message_payload_as_RoomListResponse :: "('b, 'v, addr option) accessor" where
  "Message_payload_as_RoomListResponse R m p =
     do { ty \<leftarrow> Message_payload_type R m p;
          if ty = MessagePayload_RoomListResponse then Message_payload R m p else Some None }"

definition Message_payload_as_JoinRoomRequest :: "('b, 'v, addr option) accessor" where
  "Message_payload_as_JoinRoomRequest R m p =
     do { ty \<leftarrow> Message_payload_type R m p;
          if ty = MessagePayload_JoinRoomRequest then Message_payload R m p else Some None }"

definition Message_payload_as_JoinRoomResponse :: "('b, 'v, addr option) accessor" where
  "Message_payload_as_JoinRoomResponse R m p =
     do { ty \<leftarrow> Message_payload_type R m p;
          if ty = MessagePayload_JoinRoomResponse then Message_payload R m p else Some None }"

definition Message_payload_as_ChatSendRequest :: "('b, 'v, addr option) accessor" where
  "Message_payload_as_ChatSendRequest R m p =
     do { ty \<leftarrow> Message_payload_type R m p;
          if ty = MessagePayload_ChatSendRequest then Message_payload R m p else Some None }"

definition Message_payload_as_ChatBroadcast :: "('b, 'v, addr option) accessor" where
  "Message_payload_as_ChatBroadcast R m p =
     do { ty \<leftarrow> Message_payload_type R m p;
          if ty = MessagePayload_ChatBroadcast then Message_payload R m p else Some None }"

definition Message_payload_as_LeaveRoomRequest :: "('b, 'v, addr option) accessor" where
  "Message_payload_as_LeaveRoomRequest R m p =
     do { ty \<leftarrow> Message_payload_type R m p;
          if ty = MessagePayload_LeaveRoomRequest then Message_payload R m p else Some None }"

definition Message_payload_as_LeaveRoomResponse :: "('b, 'v, addr option) accessor" where
  "Message_payload_as_LeaveRoomResponse R m p =
     do { ty \<leftarrow> Message_payload_type R m p;
          if ty = MessagePayload_LeaveRoomResponse then Message_payload R m p else Some None }"

definition Message_payload_as_DisconnectRequest :: "('b, 'v, addr option) accessor" where
  "Message_payload_as_DisconnectRequest R m p =
     do { ty \<leftarrow> Message_payload_type R m p;
          if ty = MessagePayload_DisconnectRequest then Message_payload R m p else Some None }"

definition Message_payload_as_DisconnectResponse :: "('b, 'v, addr option) accessor" where
  "Message_payload_as_DisconnectResponse R m p =
     do { ty \<leftarrow> Message_payload_type R m p;
          if ty = MessagePayload_DisconnectResponse then Message_payload R m p else Some None }"

definition Message_payload_as_UserJoinedEvent :: "('b, 'v, addr option) accessor" where
  "Message_payload_as_UserJoinedEvent R m p =
     do { ty \<leftarrow> Message_payload_type R m p;
          if ty = MessagePayload_UserJoinedEvent then Message_payload R m p else Some None }"

definition Message_payload_as_UserLeftEvent :: "('b, 'v, addr option) accessor" where
  "Message_payload_as_UserLeftEvent R m p =
     do { ty \<leftarrow> Message_payload_type R m p;
          if ty = MessagePayload_UserLeftEvent then Message_payload R m p else Some None }"

definition Message_payload_as_SystemMessageEvent :: "('b, 'v, addr option) accessor" where
  "Message_payload_as_SystemMessageEvent R m p =
     do { ty \<leftarrow> Message_payload_type R m p;
          if ty = MessagePayload_SystemMessageEvent then Message_payload R m p else Some None }"

definition VerifyMessagePayload ::
    "('b, 'v) runtime \<Rightarrow> bytes \<Rightarrow> addr option \<Rightarrow> MessagePayload \<Rightarrow> 'v check" where
  "VerifyMessagePayload R m obj type v =
     (if type = MessagePayload_NONE then Some (True, v)
      else if type = MessagePayload_LoginRequest then VerifyTable R (LoginRequest_Verify R m) obj v
      else if type = MessagePayload_LoginResponse then VerifyTable R (LoginResponse_Verify R m) obj v
      else if type = MessagePayload_RoomListRequest then VerifyTable R (RoomListRequest_Verify R m) obj v
      else if type = MessagePayload_RoomListResponse then VerifyTable R (RoomListResponse_Verify R m) obj v
      else if type = MessagePayload_JoinRoomRequest then VerifyTable R (JoinRoomRequest_Verify R m) obj v
      else if type = MessagePayload_JoinRoomResponse then VerifyTable R (JoinRoomResponse_Verify R m) obj v
      else if type = MessagePayload_ChatSendRequest then VerifyTable R (ChatSendRequest_Verify R m) obj v
      else if type = MessagePayload_ChatBroadcast then VerifyTable R (ChatBroadcast_Verify R m) obj v
      else if type = MessagePayload_LeaveRoomRequest then VerifyTable R (LeaveRoomRequest_Verify R m) obj v
      else if type = MessagePayload_LeaveRoomResponse then VerifyTable R (LeaveRoomResponse_Verify R m) obj v
      else if type = MessagePayload_DisconnectRequest then VerifyTable R (DisconnectRequest_Verify R m) obj v
      else if type = MessagePayload_DisconnectResponse then VerifyTable R (DisconnectResponse_Verify R m) obj v
      else if type = MessagePayload_UserJoinedEvent then VerifyTable R (UserJoinedEvent_Verify R m) obj v
      else if type = MessagePayload_UserLeftEvent then VerifyTable R (UserLeftEvent_Verify R m) obj v
      else if type = MessagePayload_SystemMessageEvent then VerifyTable R (SystemMessageEvent_Verify R m) obj v
      else Some (True, v))"

definition Message_Verify :: "('b, 'v) table_check" where
  "Message_Verify R m p = all_checks
     [VerifyTableStart R p,
      VerifyField32 R p Message_VT_REQUEST_ID 4,
      VerifyField8 R p Message_VT_PAYLOAD_TYPE 1,
      VerifyOffset R p Message_VT_PAYLOAD,
      with_value (Message_payload R m p)
         (\<lambda>obj. with_value (Message_payload_type R m p) (VerifyMessagePayload R m obj)),
      EndTable_V R]"

definition MessageBuilder_add_request_id :: "('b, 'v, u32) adder" where
  "MessageBuilder_add_request_id R x b = AddElement32 R Message_VT_REQUEST_ID x 0 b"

definition MessageBuilder_add_payload_type :: "('b, 'v, MessagePayload) adder" where
  "MessageBuilder_add_payload_type R x b = AddElement8 R Message_VT_PAYLOAD_TYPE x 0 b"

definition MessageBuilder_add_payload :: "('b, 'v, uoffset) adder" where
  "MessageBuilder_add_payload R r b = AddOffset R Message_VT_PAYLOAD r b"

definition MessageBuilder_new :: "('b, 'v) runtime \<Rightarrow> 'b creation" where
  "MessageBuilder_new R b = StartTable R b"

definition MessageBuilder_Finish :: "('b, 'v) runtime \<Rightarrow> uoffset \<Rightarrow> 'b creation" where
  "MessageBuilder_Finish R start b = EndTable_B R start b"

definition CreateMessage_B :: "('b, 'v) runtime \<Rightarrow> u32 \<Rightarrow> MessagePayload \<Rightarrow> uoffset \<Rightarrow> 'b creation" where
  "CreateMessage_B R rid ty obj b =
     (let (start, b) = MessageBuilder_new R b;
          b = MessageBuilder_add_payload R obj b;
          b = MessageBuilder_add_request_id R rid b;
          b = MessageBuilder_add_payload_type R ty b
      in MessageBuilder_Finish R start b)"

section \<open>Whole buffers\<close>

definition VerifyMessagePayloadVector ::
    "('b, 'v) runtime \<Rightarrow> bytes \<Rightarrow> addr option \<Rightarrow> addr option \<Rightarrow> 'v check" where
  "VerifyMessagePayloadVector R m values types v =
     (case (values, types) of
        (Some vs, Some ts) \<Rightarrow>
          do { objs \<leftarrow> Vector_elements R m vs;
               tags \<leftarrow> Vector_bytes R m ts;
               if length objs \<noteq> length tags then Some (False, v)
               else all_checks (map (\<lambda>(obj, ty). VerifyMessagePayload R m (Some obj) ty) (zip objs tags)) v }
      | _ \<Rightarrow> Some (values = None \<and> types = None, v))"

definition GetMessage :: "('b, 'v) runtime \<Rightarrow> bytes \<Rightarrow> addr option" where
  "GetMessage R buf = GetRoot R buf"

definition GetSizePrefixedMessage :: "('b, 'v) runtime \<Rightarrow> bytes \<Rightarrow> addr option" where
  "GetSizePrefixedMessage R buf = GetSizePrefixedRoot R buf"

definition VerifyMessageBuffer :: "('b, 'v) runtime \<Rightarrow> bytes \<Rightarrow> 'v check" where
  "VerifyMessageBuffer R m = VerifyBuffer R None (Message_Verify R m)"

definition VerifySizePrefixedMessageBuffer :: "('b, 'v) runtime \<Rightarrow> bytes \<Rightarrow> 'v check" where
  "VerifySizePrefixedMessageBuffer R m = VerifySizePrefixedBuffer R None (Message_Verify R m)"

definition FinishMessageBuffer :: "('b, 'v) runtime \<Rightarrow> uoffset \<Rightarrow> 'b \<Rightarrow> 'b" where
  "FinishMessageBuffer R root b = Finish_B R root b"

definition FinishSizePrefixedMessageBuffer :: "('b, 'v) runtime \<Rightarrow> uoffset \<Rightarrow> 'b \<Rightarrow> 'b" where
  "FinishSizePrefixedMessageBuffer R root b = FinishSizePrefixed_B R root b"

section \<open>ProtocolUtil.h\<close>

definition CreateString_U :: "('b, 'v) runtime \<Rightarrow> string \<Rightarrow> 'b creation" where
  "CreateString_U R value b = CreateString_B R value b"

text \<open>The result is undefined (\<open>None\<close>), the null pointer, or the address of the message.\<close>

definition VerifiedMessage_B :: "('b, 'v) runtime \<Rightarrow> bytes \<Rightarrow> addr option option" where
  "VerifiedMessage_B R data =
     (if data = [] then Some None
      else do { (ok, _) \<leftarrow> VerifyMessageBuffer R data (Verifier R data);
                if \<not> ok then Some None else map_option Some (GetRoot R data) })"

definition BuildMessage_B ::
    "('b, 'v) runtime \<Rightarrow> u32 \<Rightarrow> MessagePayload \<Rightarrow> 'b creation \<Rightarrow> bytes" where
  "BuildMessage_B R rid ty build_payload =
     (let b = new_builder R;
          (obj, b) = build_payload b;
          (message, b) = CreateMessage_B R rid ty obj b;
          b = FinishMessageBuffer R message b
      in GetBuffer R b)"

section \<open>Bundles\<close>

lemmas accessor_defs =
  UserInfo_user_id_def UserInfo_display_name_def RoomInfo_room_id_def RoomInfo_room_name_def
  RoomInfo_user_count_def LoginRequest_display_name_def LoginResponse_success_def
  LoginResponse_error_code_def LoginResponse_user_def RoomListResponse_rooms_def
  JoinRoomRequest_room_id_def JoinRoomResponse_success_def JoinRoomResponse_error_code_def
  JoinRoomResponse_room_def ChatSendRequest_content_def ChatBroadcast_room_id_def
  ChatBroadcast_sender_id_def ChatBroadcast_sender_name_def ChatBroadcast_content_def
  ChatBroadcast_timestamp_def LeaveRoomResponse_success_def LeaveRoomResponse_error_code_def
  DisconnectResponse_success_def DisconnectResponse_error_code_def UserJoinedEvent_room_id_def
  UserJoinedEvent_user_def UserLeftEvent_room_id_def UserLeftEvent_user_def
  SystemMessageEvent_room_id_def SystemMessageEvent_content_def Message_request_id_def
  Message_payload_type_def Message_payload_def

lemmas payload_as_B_defs =
  Message_payload_as_LoginRequest_def Message_payload_as_LoginResponse_def
  Message_payload_as_RoomListRequest_def Message_payload_as_RoomListResponse_def
  Message_payload_as_JoinRoomRequest_def Message_payload_as_JoinRoomResponse_def
  Message_payload_as_ChatSendRequest_def Message_payload_as_ChatBroadcast_def
  Message_payload_as_LeaveRoomRequest_def Message_payload_as_LeaveRoomResponse_def
  Message_payload_as_DisconnectRequest_def Message_payload_as_DisconnectResponse_def
  Message_payload_as_UserJoinedEvent_def Message_payload_as_UserLeftEvent_def
  Message_payload_as_SystemMessageEvent_def

lemmas builder_defs =
  UserInfoBuilder_add_user_id_def UserInfoBuilder_add_display_name_def UserInfoBuilder_new_def
  UserInfoBuilder_Finish_def RoomInfoBuilder_add_room_id_def RoomInfoBuilder_add_room_name_def
  RoomInfoBuilder_add_user_count_def RoomInfoBuilder_new_def RoomInfoBuilder_Finish_def
  LoginRequestBuilder_add_display_name_def LoginRequestBuilder_new_def LoginRequestBuilder_Finish_def
  LoginResponseBuilder_add_success_def LoginResponseBuilder_add_error_code_def
  LoginResponseBuilder_add_user_def LoginResponseBuilder_new_def LoginResponseBuilder_Finish_def
  RoomListRequestBuilder_new_def RoomListRequestBuilder_Finish_def
  RoomListResponseBuilder_add_rooms_def RoomListResponseBuilder_new_def
  RoomListResponseBuilder_Finish_def JoinRoomRequestBuilder_add_room_id_def
  JoinRoomRequestBuilder_new_def JoinRoomRequestBuilder_Finish_def
  JoinRoomResponseBuilder_add_success_def JoinRoomResponseBuilder_add_error_code_def
  JoinRoomResponseBuilder_add_room_def JoinRoomResponseBuilder_new_def
  JoinRoomResponseBuilder_Finish_def ChatSendRequestBuilder_add_content_def
  ChatSendRequestBuilder_new_def ChatSendRequestBuilder_Finish_def
  ChatBroadcastBuilder_add_room_id_def ChatBroadcastBuilder_add_sender_id_def
  ChatBroadcastBuilder_add_sender_name_def ChatBroadcastBuilder_add_content_def
  ChatBroadcastBuilder_add_timestamp_def ChatBroadcastBuilder_new_def ChatBroadcastBuilder_Finish_def
  LeaveRoomRequestBuilder_new_def LeaveRoomRequestBuilder_Finish_def
  LeaveRoomResponseBuilder_add_success_def LeaveRoomResponseBuilder_add_error_code_def
  LeaveRoomResponseBuilder_new_def LeaveRoomResponseBuilder_Finish_def
  DisconnectRequestBuilder_new_def DisconnectRequestBuilder_Finish_def
  DisconnectResponseBuilder_add_success_def DisconnectResponseBuilder_add_error_code_def
  DisconnectResponseBuilder_new_def DisconnectResponseBuilder_Finish_def
  UserJoinedEventBuilder_add_room_id_def UserJoinedEventBuilder_add_user_def
  UserJoinedEventBuilder_new_def UserJoinedEventBuilder_Finish_def
  UserLeftEventBuilder_add_room_id_def UserLeftEventBuilder_add_user_def UserLeftEventBuilder_new_def
  UserLeftEventBuilder_Finish_def SystemMessageEventBuilder_add_room_id_def
  SystemMessageEventBuilder_add_content_def SystemMessageEventBuilder_new_def
  SystemMessageEventBuilder_Finish_def MessageBuilder_add_request_id_def
  MessageBuilder_add_payload_type_def MessageBuilder_add_payload_def MessageBuilder_new_def
  MessageBuilder_Finish_def

end
