(* ===== verification/Fb_Reading.thy ===== *)
theory Fb_Reading
  imports Fb_Tables
begin

text \<open>
  What a reader gets out of a buffer, and that the verifier protects it.  \<open>T_at\<close> calls every accessor of
  the table \<open>T\<close> and follows every pointer it returns; it is undefined (\<open>None\<close>) as soon as one of these
  reads leaves the buffer.  For every table, \<^verbatim>\<open>Verify\<close> itself is defined on any bytes, and if it answers
  true then so is \<open>T_at\<close>.
\<close>

section \<open>Reading a table with its accessors\<close>

definition UserInfo_at :: "('b, 'v, UserInfo) accessor" where
  "UserInfo_at R m p =
     do { i \<leftarrow> UserInfo_user_id R m p;
          n \<leftarrow> follow (UserInfo_display_name R m p) (String_data R m);
          Some (UserInfo i n) }"

definition RoomInfo_at :: "('b, 'v, RoomInfo) accessor" where
  "RoomInfo_at R m p =
     do { i \<leftarrow> RoomInfo_room_id R m p;
          n \<leftarrow> follow (RoomInfo_room_name R m p) (String_data R m);
          c \<leftarrow> RoomInfo_user_count R m p;
          Some (RoomInfo i n c) }"

definition LoginRequest_at :: "('b, 'v, payload_table) accessor" where
  "LoginRequest_at R m p =
     do { n \<leftarrow> follow (LoginRequest_display_name R m p) (String_data R m);
          Some (LoginRequest n) }"

definition LoginResponse_at :: "('b, 'v, payload_table) accessor" where
  "LoginResponse_at R m p =
     do { s \<leftarrow> LoginResponse_success R m p;
          e \<leftarrow> LoginResponse_error_code R m p;
          u \<leftarrow> follow (LoginResponse_user R m p) (UserInfo_at R m);
          Some (LoginResponse s e u) }"

definition RoomListRequest_at :: "('b, 'v, payload_table) accessor" where
  "RoomListRequest_at R m p = Some RoomListRequest"

definition RoomInfos_at :: "('b, 'v, RoomInfo list) accessor" where
  "RoomInfos_at R m a = do { ps \<leftarrow> Vector_elements R m a; those (map (RoomInfo_at R m) ps) }"

definition RoomListResponse_at :: "('b, 'v, payload_table) accessor" where
  "RoomListResponse_at R m p =
     do { rs \<leftarrow> follow (RoomListResponse_rooms R m p) (RoomInfos_at R m);
          Some (RoomListResponse (map_option (map Some) rs)) }"

definition JoinRoomRequest_at :: "('b, 'v, payload_table) accessor" where
  "JoinRoomRequest_at R m p =
     do { i \<leftarrow> JoinRoomRequest_room_id R m p;
          Some (JoinRoomRequest i) }"

definition JoinRoomResponse_at :: "('b, 'v, payload_table) accessor" where
  "JoinRoomResponse_at R m p =
     do { s \<leftarrow> JoinRoomResponse_success R m p;
          e \<leftarrow> JoinRoomResponse_error_code R m p;
          r \<leftarrow> follow (JoinRoomResponse_room R m p) (RoomInfo_at R m);
          Some (JoinRoomResponse s e r) }"

definition ChatSendRequest_at :: "('b, 'v, payload_table) accessor" where
  "ChatSendRequest_at R m p =
     do { c \<leftarrow> follow (ChatSendRequest_content R m p) (String_data R m);
          Some (ChatSendRequest c) }"

definition ChatBroadcast_at :: "('b, 'v, payload_table) accessor" where
  "ChatBroadcast_at R m p =
     do { i \<leftarrow> ChatBroadcast_room_id R m p;
          k \<leftarrow> ChatBroadcast_sender_id R m p;
          n \<leftarrow> follow (ChatBroadcast_sender_name R m p) (String_data R m);
          c \<leftarrow> follow (ChatBroadcast_content R m p) (String_data R m);
          t \<leftarrow> ChatBroadcast_timestamp R m p;
          Some (ChatBroadcast i k n c t) }"

definition LeaveRoomRequest_at :: "('b, 'v, payload_table) accessor" where
  "LeaveRoomRequest_at R m p = Some LeaveRoomRequest"

definition LeaveRoomResponse_at :: "('b, 'v, payload_table) accessor" where
  "LeaveRoomResponse_at R m p =
     do { s \<leftarrow> LeaveRoomResponse_success R m p;
          e \<leftarrow> LeaveRoomResponse_error_code R m p;
          Some (LeaveRoomResponse s e) }"

definition DisconnectRequest_at :: "('b, 'v, payload_table) accessor" where
  "DisconnectRequest_at R m p = Some DisconnectRequest"

definition DisconnectResponse_at :: "('b, 'v, payload_table) accessor" where
  "DisconnectResponse_at R m p =
     do { s \<leftarrow> DisconnectResponse_success R m p;
          e \<leftarrow> DisconnectResponse_error_code R m p;
          Some (DisconnectResponse s e) }"

definition UserJoinedEvent_at :: "('b, 'v, payload_table) accessor" where
  "UserJoinedEvent_at R m p =
     do { i \<leftarrow> UserJoinedEvent_room_id R m p;
          u \<leftarrow> follow (UserJoinedEvent_user R m p) (UserInfo_at R m);
          Some (UserJoinedEvent i u) }"

definition UserLeftEvent_at :: "('b, 'v, payload_table) accessor" where
  "UserLeftEvent_at R m p =
     do { i \<leftarrow> UserLeftEvent_room_id R m p;
          u \<leftarrow> follow (UserLeftEvent_user R m p) (UserInfo_at R m);
          Some (UserLeftEvent i u) }"

definition SystemMessageEvent_at :: "('b, 'v, payload_table) accessor" where
  "SystemMessageEvent_at R m p =
     do { i \<leftarrow> SystemMessageEvent_room_id R m p;
          c \<leftarrow> follow (SystemMessageEvent_content R m p) (String_data R m);
          Some (SystemMessageEvent i c) }"

definition payload_at :: "('b, 'v, payload_table option) accessor" where
  "payload_at R m p =
     do { ty \<leftarrow> Message_payload_type R m p;
          if ty = MessagePayload_LoginRequest then
            follow (Message_payload_as_LoginRequest R m p) (LoginRequest_at R m)
          else if ty = MessagePayload_LoginResponse then
            follow (Message_payload_as_LoginResponse R m p) (LoginResponse_at R m)
          else if ty = MessagePayload_RoomListRequest then
            follow (Message_payload_as_RoomListRequest R m p) (RoomListRequest_at R m)
          else if ty = MessagePayload_RoomListResponse then
            follow (Message_payload_as_RoomListResponse R m p) (RoomListResponse_at R m)
          else if ty = MessagePayload_JoinRoomRequest then
            follow (Message_payload_as_JoinRoomRequest R m p) (JoinRoomRequest_at R m)
          else if ty = MessagePayload_JoinRoomResponse then
            follow (Message_payload_as_JoinRoomResponse R m p) (JoinRoomResponse_at R m)
          else if ty = MessagePayload_ChatSendRequest then
            follow (Message_payload_as_ChatSendRequest R m p) (ChatSendRequest_at R m)
          else if ty = MessagePayload_ChatBroadcast then
            follow (Message_payload_as_ChatBroadcast R m p) (ChatBroadcast_at R m)
          else if ty = MessagePayload_LeaveRoomRequest then
            follow (Message_payload_as_LeaveRoomRequest R m p) (LeaveRoomRequest_at R m)
          else if ty = MessagePayload_LeaveRoomResponse then
            follow (Message_payload_as_LeaveRoomResponse R m p) (LeaveRoomResponse_at R m)
          else if ty = MessagePayload_DisconnectRequest then
            follow (Message_payload_as_DisconnectRequest R m p) (DisconnectRequest_at R m)
          else if ty = MessagePayload_DisconnectResponse then
            follow (Message_payload_as_DisconnectResponse R m p) (DisconnectResponse_at R m)
          else if ty = MessagePayload_UserJoinedEvent then
            follow (Message_payload_as_UserJoinedEvent R m p) (UserJoinedEvent_at R m)
          else if ty = MessagePayload_UserLeftEvent then
            follow (Message_payload_as_UserLeftEvent R m p) (UserLeftEvent_at R m)
          else if ty = MessagePayload_SystemMessageEvent then
            follow (Message_payload_as_SystemMessageEvent R m p) (SystemMessageEvent_at R m)
          else map_option (\<lambda>_. None) (Message_payload R m p) }"

definition Message_at :: "('b, 'v, Message) accessor" where
  "Message_at R m p =
     do { i \<leftarrow> Message_request_id R m p;
          ty \<leftarrow> Message_payload_type R m p;
          obj \<leftarrow> payload_at R m p;
          Some \<lparr>request_id = i, payload_type = ty, payload = obj\<rparr> }"

section \<open>A verified table can be read\<close>

lemma follow_None [simp]:
  "follow q g = None \<longleftrightarrow> q = None \<or> (\<exists>a. q = Some (Some a) \<and> g a = None)"
  by (auto simp: follow_def split: option.split)

lemma follow_Some: "follow q g = Some (Some t) \<longleftrightarrow> (\<exists>a. q = Some (Some a) \<and> g a = Some t)"
  by (auto simp: follow_def split: option.split)

lemma those_None [simp]: "those xs = None \<longleftrightarrow> None \<in> set xs"
  by (induction xs) (auto split: option.split)

lemmas reading_simps = accessor_defs Option.bind_eq_None_conv

lemma RoomInfos_at_None:
  "RoomInfos_at R m a = None \<longleftrightarrow>
     Vector_elements R m a = None \<or> (\<exists>ps. Vector_elements R m a = Some ps \<and> (\<exists>p \<in> set ps. RoomInfo_at R m p = None))"
  by (cases "Vector_elements R m a") (auto simp: RoomInfos_at_def image_iff eq_commute [of None])

lemma UserInfo_checked:
  "verifier_ok R V \<Longrightarrow> checks V m (UserInfo_Verify R m p) (UserInfo_at R m p \<noteq> None)"
  unfolding UserInfo_Verify_def
  by (intro check_steps checks_Nil) (auto simp: UserInfo_at_def reading_simps)

lemmas with_UserInfo [check_steps] = with_table [OF _ UserInfo_checked]

lemma RoomInfo_checked:
  "verifier_ok R V \<Longrightarrow> checks V m (RoomInfo_Verify R m p) (RoomInfo_at R m p \<noteq> None)"
  unfolding RoomInfo_Verify_def
  by (intro check_steps checks_Nil) (auto simp: RoomInfo_at_def reading_simps)

lemmas with_RoomInfo [check_steps] = with_table [OF _ RoomInfo_checked]
lemmas with_RoomInfos [check_steps] = with_tables [OF _ RoomInfo_checked]

lemma LoginRequest_checked:
  "verifier_ok R V \<Longrightarrow> checks V m (LoginRequest_Verify R m p) (LoginRequest_at R m p \<noteq> None)"
  unfolding LoginRequest_Verify_def
  by (intro check_steps checks_Nil) (auto simp: LoginRequest_at_def reading_simps)

lemma LoginResponse_checked:
  "verifier_ok R V \<Longrightarrow> checks V m (LoginResponse_Verify R m p) (LoginResponse_at R m p \<noteq> None)"
  unfolding LoginResponse_Verify_def
  by (intro check_steps checks_Nil) (auto simp: LoginResponse_at_def reading_simps)

lemma RoomListRequest_checked:
  "verifier_ok R V \<Longrightarrow> checks V m (RoomListRequest_Verify R m p) (RoomListRequest_at R m p \<noteq> None)"
  unfolding RoomListRequest_Verify_def
  by (intro check_steps checks_Nil) (auto simp: RoomListRequest_at_def reading_simps)

lemma RoomListResponse_checked:
  "verifier_ok R V \<Longrightarrow> checks V m (RoomListResponse_Verify R m p) (RoomListResponse_at R m p \<noteq> None)"
  unfolding RoomListResponse_Verify_def
  by (intro check_steps checks_Nil) (auto simp: RoomListResponse_at_def RoomInfos_at_None reading_simps)

lemma JoinRoomRequest_checked:
  "verifier_ok R V \<Longrightarrow> checks V m (JoinRoomRequest_Verify R m p) (JoinRoomRequest_at R m p \<noteq> None)"
  unfolding JoinRoomRequest_Verify_def
  by (intro check_steps checks_Nil) (auto simp: JoinRoomRequest_at_def reading_simps)

lemma JoinRoomResponse_checked:
  "verifier_ok R V \<Longrightarrow> checks V m (JoinRoomResponse_Verify R m p) (JoinRoomResponse_at R m p \<noteq> None)"
  unfolding JoinRoomResponse_Verify_def
  by (intro check_steps checks_Nil) (auto simp: JoinRoomResponse_at_def reading_simps)

lemma ChatSendRequest_checked:
  "verifier_ok R V \<Longrightarrow> checks V m (ChatSendRequest_Verify R m p) (ChatSendRequest_at R m p \<noteq> None)"
  unfolding ChatSendRequest_Verify_def
  by (intro check_steps checks_Nil) (auto simp: ChatSendRequest_at_def reading_simps)

lemma ChatBroadcast_checked:
  "verifier_ok R V \<Longrightarrow> checks V m (ChatBroadcast_Verify R m p) (ChatBroadcast_at R m p \<noteq> None)"
  unfolding ChatBroadcast_Verify_def
  by (intro check_steps checks_Nil) (auto simp: ChatBroadcast_at_def reading_simps)

lemma LeaveRoomRequest_checked:
  "verifier_ok R V \<Longrightarrow> checks V m (LeaveRoomRequest_Verify R m p) (LeaveRoomRequest_at R m p \<noteq> None)"
  unfolding LeaveRoomRequest_Verify_def
  by (intro check_steps checks_Nil) (auto simp: LeaveRoomRequest_at_def reading_simps)

lemma LeaveRoomResponse_checked:
  "verifier_ok R V \<Longrightarrow> checks V m (LeaveRoomResponse_Verify R m p) (LeaveRoomResponse_at R m p \<noteq> None)"
  unfolding LeaveRoomResponse_Verify_def
  by (intro check_steps checks_Nil) (auto simp: LeaveRoomResponse_at_def reading_simps)

lemma DisconnectRequest_checked:
  "verifier_ok R V \<Longrightarrow> checks V m (DisconnectRequest_Verify R m p) (DisconnectRequest_at R m p \<noteq> None)"
  unfolding DisconnectRequest_Verify_def
  by (intro check_steps checks_Nil) (auto simp: DisconnectRequest_at_def reading_simps)

lemma DisconnectResponse_checked:
  "verifier_ok R V \<Longrightarrow> checks V m (DisconnectResponse_Verify R m p) (DisconnectResponse_at R m p \<noteq> None)"
  unfolding DisconnectResponse_Verify_def
  by (intro check_steps checks_Nil) (auto simp: DisconnectResponse_at_def reading_simps)

lemma UserJoinedEvent_checked:
  "verifier_ok R V \<Longrightarrow> checks V m (UserJoinedEvent_Verify R m p) (UserJoinedEvent_at R m p \<noteq> None)"
  unfolding UserJoinedEvent_Verify_def
  by (intro check_steps checks_Nil) (auto simp: UserJoinedEvent_at_def reading_simps)

lemma UserLeftEvent_checked:
  "verifier_ok R V \<Longrightarrow> checks V m (UserLeftEvent_Verify R m p) (UserLeftEvent_at R m p \<noteq> None)"
  unfolding UserLeftEvent_Verify_def
  by (intro check_steps checks_Nil) (auto simp: UserLeftEvent_at_def reading_simps)

lemma SystemMessageEvent_checked:
  "verifier_ok R V \<Longrightarrow> checks V m (SystemMessageEvent_Verify R m p) (SystemMessageEvent_at R m p \<noteq> None)"
  unfolding SystemMessageEvent_Verify_def
  by (intro check_steps checks_Nil) (auto simp: SystemMessageEvent_at_def reading_simps)

section \<open>A verified message can be read\<close>

definition payload_readable :: "('b, 'v) runtime \<Rightarrow> bytes \<Rightarrow> MessagePayload \<Rightarrow> addr \<Rightarrow> bool" where
  "payload_readable R m ty a \<longleftrightarrow>
     (ty = MessagePayload_LoginRequest \<longrightarrow> LoginRequest_at R m a \<noteq> None)
     \<and> (ty = MessagePayload_LoginResponse \<longrightarrow> LoginResponse_at R m a \<noteq> None)
     \<and> (ty = MessagePayload_RoomListRequest \<longrightarrow> RoomListRequest_at R m a \<noteq> None)
     \<and> (ty = MessagePayload_RoomListResponse \<longrightarrow> RoomListResponse_at R m a \<noteq> None)
     \<and> (ty = MessagePayload_JoinRoomRequest \<longrightarrow> JoinRoomRequest_at R m a \<noteq> None)
     \<and> (ty = MessagePayload_JoinRoomResponse \<longrightarrow> JoinRoomResponse_at R m a \<noteq> None)
     \<and> (ty = MessagePayload_ChatSendRequest \<longrightarrow> ChatSendRequest_at R m a \<noteq> None)
     \<and> (ty = MessagePayload_ChatBroadcast \<longrightarrow> ChatBroadcast_at R m a \<noteq> None)
     \<and> (ty = MessagePayload_LeaveRoomRequest \<longrightarrow> LeaveRoomRequest_at R m a \<noteq> None)
     \<and> (ty = MessagePayload_LeaveRoomResponse \<longrightarrow> LeaveRoomResponse_at R m a \<noteq> None)
     \<and> (ty = MessagePayload_DisconnectRequest \<longrightarrow> DisconnectRequest_at R m a \<noteq> None)
     \<and> (ty = MessagePayload_DisconnectResponse \<longrightarrow> DisconnectResponse_at R m a \<noteq> None)
     \<and> (ty = MessagePayload_UserJoinedEvent \<longrightarrow> UserJoinedEvent_at R m a \<noteq> None)
     \<and> (ty = MessagePayload_UserLeftEvent \<longrightarrow> UserLeftEvent_at R m a \<noteq> None)
     \<and> (ty = MessagePayload_SystemMessageEvent \<longrightarrow> SystemMessageEvent_at R m a \<noteq> None)"

lemmas table_checks =
  checks_table [OF _ LoginRequest_checked]
  checks_table [OF _ LoginResponse_checked]
  checks_table [OF _ RoomListRequest_checked]
  checks_table [OF _ RoomListResponse_checked]
  checks_table [OF _ JoinRoomRequest_checked]
  checks_table [OF _ JoinRoomResponse_checked]
  checks_table [OF _ ChatSendRequest_checked]
  checks_table [OF _ ChatBroadcast_checked]
  checks_table [OF _ LeaveRoomRequest_checked]
  checks_table [OF _ LeaveRoomResponse_checked]
  checks_table [OF _ DisconnectRequest_checked]
  checks_table [OF _ DisconnectResponse_checked]
  checks_table [OF _ UserJoinedEvent_checked]
  checks_table [OF _ UserLeftEvent_checked]
  checks_table [OF _ SystemMessageEvent_checked]

lemma payload_checked:
  assumes "verifier_ok R V"
  shows "checks V m (VerifyMessagePayload R m q ty) (\<forall>a. q = Some a \<longrightarrow> payload_readable R m ty a)"
  unfolding VerifyMessagePayload_def [abs_def]
  by (intro checks_if checks_skip table_checks [OF assms assms, THEN checks_mono])
     (simp_all add: payload_readable_def payload_tags)

lemma with_payload [check_steps]:
  assumes "verifier_ok R V" and "q \<noteq> None" and "t \<noteq> None"
    and "\<forall>a ty. q = Some (Some a) \<longrightarrow> t = Some ty \<longrightarrow> payload_readable R m ty a \<Longrightarrow> checks V m (all_checks cs) Q"
  shows "checks V m (all_checks (with_value q (\<lambda>obj. with_value t (VerifyMessagePayload R m obj)) # cs)) Q"
  by (rule checks_Cons [OF checks_with_value [OF assms(2) checks_with_value [OF assms(3) payload_checked [OF assms(1)]]]])
     (use assms(4) in auto)

lemma if_not_None: "(c \<Longrightarrow> x \<noteq> None) \<Longrightarrow> (\<not> c \<Longrightarrow> y \<noteq> None) \<Longrightarrow> (if c then x else y) \<noteq> None"
  by simp

lemma payload_at_defined:
  assumes "Message_payload_type R m p = Some ty" and "Message_payload R m p = Some q"
    and "\<forall>a. q = Some a \<longrightarrow> payload_readable R m ty a"
  shows "payload_at R m p \<noteq> None"
proof -
  have "follow (Some q) g \<noteq> None" if "\<And>a. q = Some a \<Longrightarrow> g a \<noteq> None" for g :: "addr \<Rightarrow> payload_table option"
    using that by auto
  then show ?thesis
    unfolding payload_at_def payload_as_B_defs assms(1,2) Option.bind.simps
    by (intro if_not_None) (use assms(3) in \<open>simp_all add: payload_readable_def payload_tags\<close>)
qed

lemma Message_at_defined:
  assumes "\<forall>d. GetField32 R m p 4 d \<noteq> None" and "\<forall>d. GetField8 R m p 6 d \<noteq> None"
    and "GetPointer R m p 8 \<noteq> None"
    and "\<forall>a ty. Message_payload R m p = Some (Some a) \<longrightarrow> Message_payload_type R m p = Some ty \<longrightarrow>
      payload_readable R m ty a"
  shows "Message_at R m p \<noteq> None"
proof -
  obtain i ty q where "Message_request_id R m p = Some i" "Message_payload_type R m p = Some ty"
      "Message_payload R m p = Some q"
    using assms(1,2) [rule_format, of 0] assms(3) by (auto simp: accessor_defs)
  with payload_at_defined [OF this(2,3)] assms(4) show ?thesis by (auto simp: Message_at_def)
qed

lemma Message_checked:
  "verifier_ok R V \<Longrightarrow> checks V m (Message_Verify R m p) (Message_at R m p \<noteq> None)"
  unfolding Message_Verify_def
  by (intro check_steps checks_Nil) (auto simp: accessor_defs intro!: Message_at_defined [unfolded not_None_eq])

lemmas table_at_defs =
  LoginRequest_at_def LoginResponse_at_def RoomListRequest_at_def RoomListResponse_at_def
  JoinRoomRequest_at_def JoinRoomResponse_at_def ChatSendRequest_at_def ChatBroadcast_at_def
  LeaveRoomRequest_at_def LeaveRoomResponse_at_def DisconnectRequest_at_def DisconnectResponse_at_def
  UserJoinedEvent_at_def UserLeftEvent_at_def SystemMessageEvent_at_def

lemma table_tags:
  "LoginRequest_at R m a = Some t \<Longrightarrow> MessagePayloadTraits t = MessagePayload_LoginRequest"
  "LoginResponse_at R m a = Some t \<Longrightarrow> MessagePayloadTraits t = MessagePayload_LoginResponse"
  "RoomListRequest_at R m a = Some t \<Longrightarrow> MessagePayloadTraits t = MessagePayload_RoomListRequest"
  "RoomListResponse_at R m a = Some t \<Longrightarrow> MessagePayloadTraits t = MessagePayload_RoomListResponse"
  "JoinRoomRequest_at R m a = Some t \<Longrightarrow> MessagePayloadTraits t = MessagePayload_JoinRoomRequest"
  "JoinRoomResponse_at R m a = Some t \<Longrightarrow> MessagePayloadTraits t = MessagePayload_JoinRoomResponse"
  "ChatSendRequest_at R m a = Some t \<Longrightarrow> MessagePayloadTraits t = MessagePayload_ChatSendRequest"
  "ChatBroadcast_at R m a = Some t \<Longrightarrow> MessagePayloadTraits t = MessagePayload_ChatBroadcast"
  "LeaveRoomRequest_at R m a = Some t \<Longrightarrow> MessagePayloadTraits t = MessagePayload_LeaveRoomRequest"
  "LeaveRoomResponse_at R m a = Some t \<Longrightarrow> MessagePayloadTraits t = MessagePayload_LeaveRoomResponse"
  "DisconnectRequest_at R m a = Some t \<Longrightarrow> MessagePayloadTraits t = MessagePayload_DisconnectRequest"
  "DisconnectResponse_at R m a = Some t \<Longrightarrow> MessagePayloadTraits t = MessagePayload_DisconnectResponse"
  "UserJoinedEvent_at R m a = Some t \<Longrightarrow> MessagePayloadTraits t = MessagePayload_UserJoinedEvent"
  "UserLeftEvent_at R m a = Some t \<Longrightarrow> MessagePayloadTraits t = MessagePayload_UserLeftEvent"
  "SystemMessageEvent_at R m a = Some t \<Longrightarrow> MessagePayloadTraits t = MessagePayload_SystemMessageEvent"
  by (auto simp: table_at_defs bind_eq_Some_conv)

lemma payload_at_tag:
  assumes "payload_at R m p = Some (Some t)"
  shows "Message_payload_type R m p = Some (MessagePayloadTraits t)"
  using assms
  by (auto simp: payload_at_def payload_as_B_defs bind_eq_Some_conv follow_Some split: if_splits dest!: table_tags)

lemma VerifiedMessage_B_safe:
  assumes "verifier_ok R V"
  shows "\<exists>r. VerifiedMessage_B R data = Some r \<and> (\<forall>p. r = Some p \<longrightarrow> Message_at R data p \<noteq> None)"
proof -
  have "buffer_of V (Verifier R data) = data" using assms by (simp add: verifier_ok_def)
  then obtain ok v where "VerifyMessageBuffer R data (Verifier R data) = Some (ok, v)"
    and "ok \<longrightarrow> (\<exists>p. GetRoot R data = Some p \<and> Message_at R data p \<noteq> None)"
    using checks_buffer [OF assms, of data "Message_Verify R data" "\<lambda>p. Message_at R data p \<noteq> None",
      OF Message_checked [OF assms]]
    unfolding checks_def VerifyMessageBuffer_def by blast
  then show ?thesis by (auto simp: VerifiedMessage_B_def)
qed

end
