(* ===== verification/Fb_Building.thy ===== *)
theory Fb_Building
  imports Fb_Reading
begin

text \<open>
  The other direction: what the \<^verbatim>\<open>Create\<close> functions leave in the builder is the table they were asked
  for.  \<open>T_in H q x\<close>
  says that the object at offset \<open>q\<close> of the objects \<open>H\<close> is the table \<open>x\<close>; it is monotone in \<open>H\<close>, as a builder
  never changes what it has finished.
\<close>

section \<open>Tables among the objects of a builder\<close>

definition text_in :: "objects \<Rightarrow> uoffset \<Rightarrow> string \<Rightarrow> bool" where
  "text_in H q s \<longleftrightarrow> H q = Some (Text s)"

text \<open>Every default of the schema is zero.\<close>

definition scalar_in :: "('a::zero \<Rightarrow> fb_field) \<Rightarrow> fields \<Rightarrow> voffset \<Rightarrow> 'a \<Rightarrow> bool" where
  "scalar_in C fs f x \<longleftrightarrow> fs f = (if x = 0 then None else Some (C x))"

definition offset_in :: "(uoffset \<Rightarrow> 'a \<Rightarrow> bool) \<Rightarrow> uoffset \<Rightarrow> 'a option \<Rightarrow> bool" where
  "offset_in P q v \<longleftrightarrow> (if q = 0 then v = None else (\<exists>x. v = Some x \<and> P q x))"

definition ref_in :: "(uoffset \<Rightarrow> 'a \<Rightarrow> bool) \<Rightarrow> fields \<Rightarrow> voffset \<Rightarrow> 'a option \<Rightarrow> bool" where
  "ref_in P fs f v \<longleftrightarrow>
     (case fs f of
        None \<Rightarrow> v = None
      | Some (Reference q) \<Rightarrow> (\<exists>x. v = Some x \<and> P q x)
      | _ \<Rightarrow> False)"

fun UserInfo_in :: "objects \<Rightarrow> uoffset \<Rightarrow> UserInfo \<Rightarrow> bool" where
  "UserInfo_in H q (UserInfo i n) \<longleftrightarrow>
     (\<exists>fs. H q = Some (Fields fs) \<and> scalar_in Scalar32 fs 4 i \<and> ref_in (text_in H) fs 6 n)"

fun RoomInfo_in :: "objects \<Rightarrow> uoffset \<Rightarrow> RoomInfo \<Rightarrow> bool" where
  "RoomInfo_in H q (RoomInfo i n c) \<longleftrightarrow>
     (\<exists>fs. H q = Some (Fields fs) \<and> scalar_in Scalar32 fs 4 i \<and> ref_in (text_in H) fs 6 n \<and> scalar_in Scalar32 fs 8 c)"

definition RoomInfos_in :: "objects \<Rightarrow> uoffset \<Rightarrow> RoomInfo option list \<Rightarrow> bool" where
  "RoomInfos_in H q xs \<longleftrightarrow>
     (\<exists>qs. H q = Some (Elements qs) \<and> list_all2 (\<lambda>q x. \<exists>r. x = Some r \<and> RoomInfo_in H q r) qs xs)"

fun payload_in :: "objects \<Rightarrow> uoffset \<Rightarrow> payload_table \<Rightarrow> bool" where
  "payload_in H q (LoginRequest n) \<longleftrightarrow>
     (\<exists>fs. H q = Some (Fields fs) \<and> ref_in (text_in H) fs 4 n)"
| "payload_in H q (LoginResponse s e u) \<longleftrightarrow>
     (\<exists>fs. H q = Some (Fields fs) \<and> scalar_in Scalar8 fs 4 (of_bool s) \<and> scalar_in Scalar16 fs 6 e
       \<and> ref_in (UserInfo_in H) fs 8 u)"
| "payload_in H q RoomListRequest \<longleftrightarrow>
     (\<exists>fs. H q = Some (Fields fs))"
| "payload_in H q (RoomListResponse rs) \<longleftrightarrow>
     (\<exists>fs. H q = Some (Fields fs) \<and> ref_in (RoomInfos_in H) fs 4 rs)"
| "payload_in H q (JoinRoomRequest i) \<longleftrightarrow>
     (\<exists>fs. H q = Some (Fields fs) \<and> scalar_in Scalar32 fs 4 i)"
| "payload_in H q (JoinRoomResponse s e r) \<longleftrightarrow>
     (\<exists>fs. H q = Some (Fields fs) \<and> scalar_in Scalar8 fs 4 (of_bool s) \<and> scalar_in Scalar16 fs 6 e
       \<and> ref_in (RoomInfo_in H) fs 8 r)"
| "payload_in H q (ChatSendRequest c) \<longleftrightarrow>
     (\<exists>fs. H q = Some (Fields fs) \<and> ref_in (text_in H) fs 4 c)"
| "payload_in H q (ChatBroadcast i k n c t) \<longleftrightarrow>
     (\<exists>fs. H q = Some (Fields fs) \<and> scalar_in Scalar32 fs 4 i \<and> scalar_in Scalar32 fs 6 k
       \<and> ref_in (text_in H) fs 8 n \<and> ref_in (text_in H) fs 10 c \<and> scalar_in Scalar64 fs 12 t)"
| "payload_in H q LeaveRoomRequest \<longleftrightarrow>
     (\<exists>fs. H q = Some (Fields fs))"
| "payload_in H q (LeaveRoomResponse s e) \<longleftrightarrow>
     (\<exists>fs. H q = Some (Fields fs) \<and> scalar_in Scalar8 fs 4 (of_bool s) \<and> scalar_in Scalar16 fs 6 e)"
| "payload_in H q DisconnectRequest \<longleftrightarrow>
     (\<exists>fs. H q = Some (Fields fs))"
| "payload_in H q (DisconnectResponse s e) \<longleftrightarrow>
     (\<exists>fs. H q = Some (Fields fs) \<and> scalar_in Scalar8 fs 4 (of_bool s) \<and> scalar_in Scalar16 fs 6 e)"
| "payload_in H q (UserJoinedEvent i u) \<longleftrightarrow>
     (\<exists>fs. H q = Some (Fields fs) \<and> scalar_in Scalar32 fs 4 i
       \<and> ref_in (UserInfo_in H) fs 6 u)"
| "payload_in H q (UserLeftEvent i u) \<longleftrightarrow>
     (\<exists>fs. H q = Some (Fields fs) \<and> scalar_in Scalar32 fs 4 i
       \<and> ref_in (UserInfo_in H) fs 6 u)"
| "payload_in H q (SystemMessageEvent i c) \<longleftrightarrow>
     (\<exists>fs. H q = Some (Fields fs) \<and> scalar_in Scalar32 fs 4 i
       \<and> ref_in (text_in H) fs 6 c)"

text \<open>
  \<open>offers V b r P v\<close>: the call \<open>r\<close> on the builder \<open>b\<close> keeps what was finished and returns an offset of the
  value \<open>v\<close>, null if there is none.
\<close>

definition offers ::
    "('b, 'v) fb_view \<Rightarrow> 'b \<Rightarrow> uoffset \<times> 'b \<Rightarrow> (objects \<Rightarrow> uoffset \<Rightarrow> 'a \<Rightarrow> bool) \<Rightarrow> 'a option \<Rightarrow> bool" where
  "offers V b r P v \<longleftrightarrow>
     under_way V (snd r) = None \<and> finished V b \<subseteq>\<^sub>m finished V (snd r)
     \<and> offset_in (P (finished V (snd r))) (fst r) v"

section \<open>Fields\<close>

lemma put_other [simp]:
  "f \<noteq> g \<Longrightarrow> put_scalar C g x d fs f = fs f"
  "f \<noteq> g \<Longrightarrow> put_reference g q fs f = fs f"
  by (simp_all add: put_scalar_def put_reference_def)

lemma scalar_in_put [simp]:
  "fs f = None \<Longrightarrow> scalar_in C (put_scalar C f x 0 fs) f x"
  "f \<noteq> g \<Longrightarrow> scalar_in C (put_scalar D g y d fs) f x \<longleftrightarrow> scalar_in C fs f x"
  "f \<noteq> g \<Longrightarrow> scalar_in C (put_reference g q fs) f x \<longleftrightarrow> scalar_in C fs f x"
  by (simp_all add: scalar_in_def put_scalar_def put_reference_def)

lemma ref_in_put [simp]:
  "fs f = None \<Longrightarrow> ref_in P (put_reference f q fs) f v \<longleftrightarrow> offset_in P q v"
  "f \<noteq> g \<Longrightarrow> ref_in P (put_scalar D g y d fs) f v \<longleftrightarrow> ref_in P fs f v"
  "f \<noteq> g \<Longrightarrow> ref_in P (put_reference g q fs) f v \<longleftrightarrow> ref_in P fs f v"
  by (simp_all add: ref_in_def offset_in_def put_scalar_def put_reference_def)

section \<open>What is finished stays\<close>

lemma map_le_Some: "H \<subseteq>\<^sub>m H' \<Longrightarrow> H q = Some x \<Longrightarrow> H' q = Some x"
  by (metis domI map_le_def)

lemma ref_in_mono: "ref_in P fs f v \<Longrightarrow> (\<And>q x. P q x \<Longrightarrow> Q q x) \<Longrightarrow> ref_in Q fs f v"
  by (auto simp: ref_in_def split: option.splits fb_field.splits)

lemma offset_in_mono: "offset_in P q v \<Longrightarrow> (\<And>x. P q x \<Longrightarrow> Q q x) \<Longrightarrow> offset_in Q q v"
  by (auto simp: offset_in_def)

lemma text_in_mono: "text_in H q s \<Longrightarrow> H \<subseteq>\<^sub>m H' \<Longrightarrow> text_in H' q s"
  by (simp add: text_in_def map_le_Some)

lemma UserInfo_in_mono: "UserInfo_in H q u \<Longrightarrow> H \<subseteq>\<^sub>m H' \<Longrightarrow> UserInfo_in H' q u"
  by (cases u) (auto intro: map_le_Some ref_in_mono text_in_mono)

lemma RoomInfo_in_mono: "RoomInfo_in H q r \<Longrightarrow> H \<subseteq>\<^sub>m H' \<Longrightarrow> RoomInfo_in H' q r"
  by (cases r) (auto intro: map_le_Some ref_in_mono text_in_mono)

lemma RoomInfos_in_mono: "RoomInfos_in H q rs \<Longrightarrow> H \<subseteq>\<^sub>m H' \<Longrightarrow> RoomInfos_in H' q rs"
  unfolding RoomInfos_in_def by (blast intro: map_le_Some list_all2_mono RoomInfo_in_mono)

lemma ref_mono:
  assumes "H \<subseteq>\<^sub>m H'"
  shows "ref_in (text_in H) fs f n \<Longrightarrow> ref_in (text_in H') fs f n"
    and "ref_in (UserInfo_in H) fs f u \<Longrightarrow> ref_in (UserInfo_in H') fs f u"
    and "ref_in (RoomInfo_in H) fs f r \<Longrightarrow> ref_in (RoomInfo_in H') fs f r"
    and "ref_in (RoomInfos_in H) fs f rs \<Longrightarrow> ref_in (RoomInfos_in H') fs f rs"
  using assms
  by (auto elim!: ref_in_mono intro: text_in_mono UserInfo_in_mono RoomInfo_in_mono RoomInfos_in_mono)

lemma payload_in_mono: "payload_in H q p \<Longrightarrow> H \<subseteq>\<^sub>m H' \<Longrightarrow> payload_in H' q p"
  by (cases p) (auto simp: map_le_Some dest: ref_mono)

lemma offset_mono:
  "offset_in (text_in H) q n \<Longrightarrow> H \<subseteq>\<^sub>m H' \<Longrightarrow> offset_in (text_in H') q n"
  "offset_in (UserInfo_in H) q u \<Longrightarrow> H \<subseteq>\<^sub>m H' \<Longrightarrow> offset_in (UserInfo_in H') q u"
  "offset_in (RoomInfo_in H) q r \<Longrightarrow> H \<subseteq>\<^sub>m H' \<Longrightarrow> offset_in (RoomInfo_in H') q r"
  "offset_in (RoomInfos_in H) q rs \<Longrightarrow> H \<subseteq>\<^sub>m H' \<Longrightarrow> offset_in (RoomInfos_in H') q rs"
  "offset_in (payload_in H) q p \<Longrightarrow> H \<subseteq>\<^sub>m H' \<Longrightarrow> offset_in (payload_in H') q p"
  by (auto elim!: offset_in_mono intro: text_in_mono UserInfo_in_mono RoomInfo_in_mono RoomInfos_in_mono
      payload_in_mono)

lemma payload_in_dom: "payload_in H q p \<Longrightarrow> q \<in> dom H"
  by (cases p) auto

lemma offset_dom:
  "offset_in (text_in H) q n \<Longrightarrow> q = 0 \<or> q \<in> dom H"
  "offset_in (UserInfo_in H) q u \<Longrightarrow> q = 0 \<or> q \<in> dom H"
  "offset_in (RoomInfo_in H) q r \<Longrightarrow> q = 0 \<or> q \<in> dom H"
  "offset_in (RoomInfos_in H) q rs \<Longrightarrow> q = 0 \<or> q \<in> dom H"
  "offset_in (payload_in H) q p \<Longrightarrow> q = 0 \<or> q \<in> dom H"
  by (auto simp: offset_in_def text_in_def RoomInfos_in_def elim!: UserInfo_in.elims RoomInfo_in.elims
      dest: payload_in_dom)

section \<open>The Create functions\<close>

lemma builder_okD:
  assumes "builder_ok R V"
  shows "finished V (new_builder R) = Map.empty" and "under_way V (new_builder R) = None"
    and "under_way V b = None \<Longrightarrow> StartTable R b = (s, b') \<Longrightarrow> opened V (finished V b) b' s Map.empty"
    and "opened V H b s fs \<Longrightarrow> makes V H (EndTable_B R s b) (Fields fs)"
    and "under_way V b = None \<Longrightarrow> makes V (finished V b) (CreateString_B R t b) (Text t)"
    and "under_way V b = None \<Longrightarrow> set qs \<subseteq> dom (finished V b) \<Longrightarrow>
      makes V (finished V b) (CreateVector_B R qs b) (Elements qs)"
  using assms by (simp_all add: builder_ok_def)

lemma add_rules:
  assumes "builder_ok R V"
  shows "opened V H b s fs \<Longrightarrow> opened V H (AddElement8 R f x1 d1 b) s (put_scalar Scalar8 f x1 d1 fs)"
    and "opened V H b s fs \<Longrightarrow> opened V H (AddElement16 R f x2 d2 b) s (put_scalar Scalar16 f x2 d2 fs)"
    and "opened V H b s fs \<Longrightarrow> opened V H (AddElement32 R f x3 d3 b) s (put_scalar Scalar32 f x3 d3 fs)"
    and "opened V H b s fs \<Longrightarrow> opened V H (AddElement64 R f x4 d4 b) s (put_scalar Scalar64 f x4 d4 fs)"
    and "opened V H b s fs \<Longrightarrow> q = 0 \<or> q \<in> dom H \<Longrightarrow> opened V H (AddOffset R f q b) s (put_reference f q fs)"
  using assms by (simp_all add: builder_ok_def)

lemma offers_made:
  assumes "makes V (finished V b) r obj"
    and "\<And>H q. finished V b \<subseteq>\<^sub>m H \<Longrightarrow> H q = Some obj \<Longrightarrow> P H q x"
  shows "offers V b r P (Some x)"
proof -
  have "finished V b \<subseteq>\<^sub>m finished V (snd r)" and "finished V (snd r) (fst r) = Some obj"
    using assms(1) by (auto simp: makes_def map_le_def)
  then show ?thesis using assms by (simp add: offers_def offset_in_def makes_def)
qed

lemma offers_table:
  assumes "builder_ok R V" and "under_way V b = None"
    and "\<And>s b'. opened V (finished V b) b' s Map.empty \<Longrightarrow> opened V (finished V b) (adds b') s fs"
    and "\<And>H q. finished V b \<subseteq>\<^sub>m H \<Longrightarrow> H q = Some (Fields fs) \<Longrightarrow> P H q x"
  shows "offers V b (case StartTable R b of (s, b') \<Rightarrow> EndTable_B R s (adds b')) P (Some x)"
proof -
  obtain s b' where s: "StartTable R b = (s, b')" by (cases "StartTable R b")
  have "makes V (finished V b) (EndTable_B R s (adds b')) (Fields fs)"
    by (rule builder_okD(4) [OF assms(1) assms(3) [OF builder_okD(3) [OF assms(1,2) s]]])
  then show ?thesis using assms(4) by (simp add: s offers_made)
qed

lemma CreateUserInfo_offers:
  assumes "builder_ok R V" and "under_way V b = None"
    and "offset_in (text_in (finished V b)) qn n"
  shows "offers V b (CreateUserInfo_B R i qn b) UserInfo_in (Some (UserInfo i n))"
  unfolding CreateUserInfo_B_def Let_def builder_defs
  by (rule offers_table [OF assms(1,2)], ((rule add_rules [OF assms(1)])+)?, assumption)
     (use assms in \<open>auto dest: offset_dom intro: offset_mono\<close>)

lemma CreateRoomInfo_offers:
  assumes "builder_ok R V" and "under_way V b = None"
    and "offset_in (text_in (finished V b)) qn n"
  shows "offers V b (CreateRoomInfo_B R i qn c b) RoomInfo_in (Some (RoomInfo i n c))"
  unfolding CreateRoomInfo_B_def Let_def builder_defs
  by (rule offers_table [OF assms(1,2)], ((rule add_rules [OF assms(1)])+)?, assumption)
     (use assms in \<open>auto dest: offset_dom intro: offset_mono\<close>)

lemma CreateLoginRequest_offers:
  assumes "builder_ok R V" and "under_way V b = None"
    and "offset_in (text_in (finished V b)) qn n"
  shows "offers V b (CreateLoginRequest_B R qn b) payload_in (Some (LoginRequest n))"
  unfolding CreateLoginRequest_B_def Let_def builder_defs
  by (rule offers_table [OF assms(1,2)], ((rule add_rules [OF assms(1)])+)?, assumption)
     (use assms in \<open>auto dest: offset_dom intro: offset_mono\<close>)

lemma CreateLoginResponse_offers:
  assumes "builder_ok R V" and "under_way V b = None"
    and "offset_in (UserInfo_in (finished V b)) qu u"
  shows "offers V b (CreateLoginResponse_B R s e qu b) payload_in (Some (LoginResponse s e u))"
  unfolding CreateLoginResponse_B_def Let_def builder_defs
  by (rule offers_table [OF assms(1,2)], ((rule add_rules [OF assms(1)])+)?, assumption)
     (use assms in \<open>auto dest: offset_dom intro: offset_mono\<close>)

lemma CreateRoomListRequest_offers:
  assumes "builder_ok R V" and "under_way V b = None"
  shows "offers V b (CreateRoomListRequest_B R b) payload_in (Some RoomListRequest)"
  unfolding CreateRoomListRequest_B_def Let_def builder_defs
  by (rule offers_table [OF assms(1,2)], ((rule add_rules [OF assms(1)])+)?, assumption)
     (use assms in \<open>auto dest: offset_dom intro: offset_mono\<close>)

lemma CreateRoomListResponse_offers:
  assumes "builder_ok R V" and "under_way V b = None"
    and "offset_in (RoomInfos_in (finished V b)) qrs rs"
  shows "offers V b (CreateRoomListResponse_B R qrs b) payload_in (Some (RoomListResponse rs))"
  unfolding CreateRoomListResponse_B_def Let_def builder_defs
  by (rule offers_table [OF assms(1,2)], ((rule add_rules [OF assms(1)])+)?, assumption)
     (use assms in \<open>auto dest: offset_dom intro: offset_mono\<close>)

lemma CreateJoinRoomRequest_offers:
  assumes "builder_ok R V" and "under_way V b = None"
  shows "offers V b (CreateJoinRoomRequest_B R i b) payload_in (Some (JoinRoomRequest i))"
  unfolding CreateJoinRoomRequest_B_def Let_def builder_defs
  by (rule offers_table [OF assms(1,2)], ((rule add_rules [OF assms(1)])+)?, assumption)
     (use assms in \<open>auto dest: offset_dom intro: offset_mono\<close>)

lemma CreateJoinRoomResponse_offers:
  assumes "builder_ok R V" and "under_way V b = None"
    and "offset_in (RoomInfo_in (finished V b)) qr r"
  shows "offers V b (CreateJoinRoomResponse_B R s e qr b) payload_in (Some (JoinRoomResponse s e r))"
  unfolding CreateJoinRoomResponse_B_def Let_def builder_defs
  by (rule offers_table [OF assms(1,2)], ((rule add_rules [OF assms(1)])+)?, assumption)
     (use assms in \<open>auto dest: offset_dom intro: offset_mono\<close>)

lemma CreateChatSendRequest_offers:
  assumes "builder_ok R V" and "under_way V b = None"
    and "offset_in (text_in (finished V b)) qc c"
  shows "offers V b (CreateChatSendRequest_B R qc b) payload_in (Some (ChatSendRequest c))"
  unfolding CreateChatSendRequest_B_def Let_def builder_defs
  by (rule offers_table [OF assms(1,2)], ((rule add_rules [OF assms(1)])+)?, assumption)
     (use assms in \<open>auto dest: offset_dom intro: offset_mono\<close>)

lemma CreateChatBroadcast_offers:
  assumes "builder_ok R V" and "under_way V b = None"
    and "offset_in (text_in (finished V b)) qn n"
    and "offset_in (text_in (finished V b)) qc c"
  shows "offers V b (CreateChatBroadcast_B R i k qn qc t b) payload_in (Some (ChatBroadcast i k n c t))"
  unfolding CreateChatBroadcast_B_def Let_def builder_defs
  by (rule offers_table [OF assms(1,2)], ((rule add_rules [OF assms(1)])+)?, assumption)
     (use assms in \<open>auto dest: offset_dom intro: offset_mono\<close>)

lemma CreateLeaveRoomRequest_offers:
  assumes "builder_ok R V" and "under_way V b = None"
  shows "offers V b (CreateLeaveRoomRequest_B R b) payload_in (Some LeaveRoomRequest)"
  unfolding CreateLeaveRoomRequest_B_def Let_def builder_defs
  by (rule offers_table [OF assms(1,2)], ((rule add_rules [OF assms(1)])+)?, assumption)
     (use assms in \<open>auto dest: offset_dom intro: offset_mono\<close>)

lemma CreateLeaveRoomResponse_offers:
  assumes "builder_ok R V" and "under_way V b = None"
  shows "offers V b (CreateLeaveRoomResponse_B R s e b) payload_in (Some (LeaveRoomResponse s e))"
  unfolding CreateLeaveRoomResponse_B_def Let_def builder_defs
  by (rule offers_table [OF assms(1,2)], ((rule add_rules [OF assms(1)])+)?, assumption)
     (use assms in \<open>auto dest: offset_dom intro: offset_mono\<close>)

lemma CreateDisconnectRequest_offers:
  assumes "builder_ok R V" and "under_way V b = None"
  shows "offers V b (CreateDisconnectRequest_B R b) payload_in (Some DisconnectRequest)"
  unfolding CreateDisconnectRequest_B_def Let_def builder_defs
  by (rule offers_table [OF assms(1,2)], ((rule add_rules [OF assms(1)])+)?, assumption)
     (use assms in \<open>auto dest: offset_dom intro: offset_mono\<close>)

lemma CreateDisconnectResponse_offers:
  assumes "builder_ok R V" and "under_way V b = None"
  shows "offers V b (CreateDisconnectResponse_B R s e b) payload_in (Some (DisconnectResponse s e))"
  unfolding CreateDisconnectResponse_B_def Let_def builder_defs
  by (rule offers_table [OF assms(1,2)], ((rule add_rules [OF assms(1)])+)?, assumption)
     (use assms in \<open>auto dest: offset_dom intro: offset_mono\<close>)

lemma CreateUserJoinedEvent_offers:
  assumes "builder_ok R V" and "under_way V b = None"
    and "offset_in (UserInfo_in (finished V b)) qu u"
  shows "offers V b (CreateUserJoinedEvent_B R i qu b) payload_in (Some (UserJoinedEvent i u))"
  unfolding CreateUserJoinedEvent_B_def Let_def builder_defs
  by (rule offers_table [OF assms(1,2)], ((rule add_rules [OF assms(1)])+)?, assumption)
     (use assms in \<open>auto dest: offset_dom intro: offset_mono\<close>)

lemma CreateUserLeftEvent_offers:
  assumes "builder_ok R V" and "under_way V b = None"
    and "offset_in (UserInfo_in (finished V b)) qu u"
  shows "offers V b (CreateUserLeftEvent_B R i qu b) payload_in (Some (UserLeftEvent i u))"
  unfolding CreateUserLeftEvent_B_def Let_def builder_defs
  by (rule offers_table [OF assms(1,2)], ((rule add_rules [OF assms(1)])+)?, assumption)
     (use assms in \<open>auto dest: offset_dom intro: offset_mono\<close>)

lemma CreateSystemMessageEvent_offers:
  assumes "builder_ok R V" and "under_way V b = None"
    and "offset_in (text_in (finished V b)) qc c"
  shows "offers V b (CreateSystemMessageEvent_B R i qc b) payload_in (Some (SystemMessageEvent i c))"
  unfolding CreateSystemMessageEvent_B_def Let_def builder_defs
  by (rule offers_table [OF assms(1,2)], ((rule add_rules [OF assms(1)])+)?, assumption)
     (use assms in \<open>auto dest: offset_dom intro: offset_mono\<close>)

section \<open>Building a payload\<close>

text \<open>
  What the callers of \<^verbatim>\<open>BuildMessage\<close> do to make a payload: texts, users and rooms first, then the table.
\<close>

definition build_user :: "('b, 'v) runtime \<Rightarrow> UserInfo option \<Rightarrow> 'b creation" where
  "build_user R u b =
     (case u of None \<Rightarrow> (0, b) | Some (UserInfo i n) \<Rightarrow> CreateUserInfoDirect_B R i n b)"

definition build_room :: "('b, 'v) runtime \<Rightarrow> RoomInfo option \<Rightarrow> 'b creation" where
  "build_room R r b =
     (case r of None \<Rightarrow> (0, b) | Some (RoomInfo i n c) \<Rightarrow> CreateRoomInfoDirect_B R i n c b)"

fun build_rooms :: "('b, 'v) runtime \<Rightarrow> RoomInfo option list \<Rightarrow> 'b \<Rightarrow> uoffset list \<times> 'b" where
  "build_rooms R [] b = ([], b)"
| "build_rooms R (r # rs) b =
     (let (q, b) = build_room R r b; (qs, b) = build_rooms R rs b in (q # qs, b))"

fun build_payload :: "('b, 'v) runtime \<Rightarrow> payload_table \<Rightarrow> 'b creation" where
  "build_payload R (LoginRequest n) b = (let (q, b) = string_or_null R n b in CreateLoginRequest_B R q b)"
| "build_payload R (LoginResponse s e u) b = (let (q, b) = build_user R u b in CreateLoginResponse_B R s e q b)"
| "build_payload R RoomListRequest b = CreateRoomListRequest_B R b"
| "build_payload R (RoomListResponse None) b = CreateRoomListResponseDirect_B R None b"
| "build_payload R (RoomListResponse (Some rs)) b =
     (let (qs, b) = build_rooms R rs b in CreateRoomListResponseDirect_B R (Some qs) b)"
| "build_payload R (JoinRoomRequest i) b = CreateJoinRoomRequest_B R i b"
| "build_payload R (JoinRoomResponse s e r) b = (let (q, b) = build_room R r b in CreateJoinRoomResponse_B R s e q b)"
| "build_payload R (ChatSendRequest c) b = (let (q, b) = string_or_null R c b in CreateChatSendRequest_B R q b)"
| "build_payload R (ChatBroadcast i k n c t) b = CreateChatBroadcastDirect_B R i k n c t b"
| "build_payload R LeaveRoomRequest b = CreateLeaveRoomRequest_B R b"
| "build_payload R (LeaveRoomResponse s e) b = CreateLeaveRoomResponse_B R s e b"
| "build_payload R DisconnectRequest b = CreateDisconnectRequest_B R b"
| "build_payload R (DisconnectResponse s e) b = CreateDisconnectResponse_B R s e b"
| "build_payload R (UserJoinedEvent i u) b = (let (q, b) = build_user R u b in CreateUserJoinedEvent_B R i q b)"
| "build_payload R (UserLeftEvent i u) b = (let (q, b) = build_user R u b in CreateUserLeftEvent_B R i q b)"
| "build_payload R (SystemMessageEvent i c) b = CreateSystemMessageEventDirect_B R i c b"

lemma offers_null: "under_way V b = None \<Longrightarrow> offers V b (0, b) P None"
  by (simp add: offers_def offset_in_def)

lemma offers_trans:
  "finished V b \<subseteq>\<^sub>m finished V b' \<Longrightarrow> offers V b' r P v \<Longrightarrow> offers V b r P v"
  by (auto simp: offers_def intro: map_le_trans)

lemma offers_bind:
  assumes "offers V b r P v"
    and "\<And>q b'. under_way V b' = None \<Longrightarrow> finished V b \<subseteq>\<^sub>m finished V b' \<Longrightarrow> offset_in (P (finished V b')) q v \<Longrightarrow>
      offers V b' (k q b') Q w"
  shows "offers V b (case r of (q, b') \<Rightarrow> k q b') Q w"
proof (cases r)
  case (Pair q b')
  then have "offers V b' (k q b') Q w" and "finished V b \<subseteq>\<^sub>m finished V b'"
    using assms by (simp_all add: offers_def)
  then show ?thesis using Pair by (simp add: offers_trans)
qed

lemma string_offers:
  assumes "builder_ok R V" and "under_way V b = None"
  shows "offers V b (string_or_null R s b) text_in s"
  using assms
  by (cases s) (auto simp: string_or_null_def text_in_def offers_null intro!: offers_made builder_okD)

lemma CreateUserInfoDirect_offers:
  assumes "builder_ok R V" and "under_way V b = None"
  shows "offers V b (CreateUserInfoDirect_B R i n b) UserInfo_in (Some (UserInfo i n))"
  unfolding CreateUserInfoDirect_B_def Let_def
  by (rule offers_bind [OF string_offers [OF assms]]) (rule CreateUserInfo_offers [OF assms(1)])

lemma CreateRoomInfoDirect_offers:
  assumes "builder_ok R V" and "under_way V b = None"
  shows "offers V b (CreateRoomInfoDirect_B R i n c b) RoomInfo_in (Some (RoomInfo i n c))"
  unfolding CreateRoomInfoDirect_B_def Let_def
  by (rule offers_bind [OF string_offers [OF assms]]) (rule CreateRoomInfo_offers [OF assms(1)])

lemma user_offers:
  "builder_ok R V \<Longrightarrow> under_way V b = None \<Longrightarrow> offers V b (build_user R u b) UserInfo_in u"
  by (auto simp: build_user_def offers_null CreateUserInfoDirect_offers split: option.split UserInfo.split)

lemma room_offers:
  "builder_ok R V \<Longrightarrow> under_way V b = None \<Longrightarrow> offers V b (build_room R r b) RoomInfo_in r"
  by (auto simp: build_room_def offers_null CreateRoomInfoDirect_offers split: option.split RoomInfo.split)

lemma rooms_built:
  assumes "builder_ok R V" and "under_way V b = None" and "None \<notin> set rs" and "build_rooms R rs b = (qs, b')"
  shows "under_way V b' = None \<and> finished V b \<subseteq>\<^sub>m finished V b' \<and> set qs \<subseteq> dom (finished V b')
    \<and> list_all2 (\<lambda>q x. \<exists>r. x = Some r \<and> RoomInfo_in (finished V b') q r) qs rs"
  using assms(2-)
proof (induction rs arbitrary: b qs)
  case (Cons r rs)
  obtain q b1 qs' where b1: "build_room R r b = (q, b1)" and qs: "build_rooms R rs b1 = (qs', b')" "qs = q # qs'"
    using Cons.prems(3) by (auto split: prod.splits)
  have q: "under_way V b1 = None" "finished V b \<subseteq>\<^sub>m finished V b1" "offset_in (RoomInfo_in (finished V b1)) q r"
    using room_offers [OF assms(1) Cons.prems(1), of r] by (simp_all add: b1 offers_def)
  have rest: "under_way V b' = None" "finished V b1 \<subseteq>\<^sub>m finished V b'" "set qs' \<subseteq> dom (finished V b')"
      "list_all2 (\<lambda>q x. \<exists>r. x = Some r \<and> RoomInfo_in (finished V b') q r) qs' rs"
    using Cons.IH [OF q(1) _ qs(1)] Cons.prems(2) by auto
  have "offset_in (RoomInfo_in (finished V b')) q r" by (rule offset_mono(3) [OF q(3) rest(2)])
  moreover have "q \<noteq> 0" using q(3) Cons.prems(2) by (auto simp: offset_in_def split: if_splits)
  ultimately show ?case
    using rest q(2) offset_dom(3) [of "finished V b'" q r]
    by (auto simp: qs(2) offset_in_def intro: map_le_trans)
qed simp

lemma rooms_offers:
  assumes "builder_ok R V" and "under_way V b = None" and "buildable (RoomListResponse rs)"
  shows "offers V b (build_payload R (RoomListResponse rs) b) payload_in (Some (RoomListResponse rs))"
proof (cases rs)
  case None
  then show ?thesis
    using CreateRoomListResponse_offers [OF assms(1,2), of 0 None]
    by (simp add: CreateRoomListResponseDirect_B_def offset_in_def)
next
  case (Some xs)
  obtain qs b1 where b1: "build_rooms R xs b = (qs, b1)" by (cases "build_rooms R xs b")
  note built = rooms_built [OF assms(1,2) _ b1]
  have qs: "under_way V b1 = None" "finished V b \<subseteq>\<^sub>m finished V b1" "set qs \<subseteq> dom (finished V b1)"
      "list_all2 (\<lambda>q x. \<exists>r. x = Some r \<and> RoomInfo_in (finished V b1) q r) qs xs"
    using built assms(3) Some by auto
  have "offers V b1 (CreateVector_B R qs b1) RoomInfos_in (Some xs)"
  proof (rule offers_made [OF builder_okD(6) [OF assms(1) qs(1,3)]])
    show "RoomInfos_in H q xs" if "finished V b1 \<subseteq>\<^sub>m H" and "H q = Some (Elements qs)" for H q
      using that qs(4) unfolding RoomInfos_in_def by (auto elim!: list_all2_mono intro: RoomInfo_in_mono)
  qed
  then have "offers V b1 (CreateRoomListResponseDirect_B R (Some qs) b1) payload_in (Some (RoomListResponse (Some xs)))"
    unfolding CreateRoomListResponseDirect_B_def Let_def option.case
    by (rule offers_bind) (rule CreateRoomListResponse_offers [OF assms(1)])
  then show ?thesis using offers_trans [OF qs(2)] by (simp add: Some b1)
qed

lemma CreateChatBroadcastDirect_offers:
  assumes "builder_ok R V" and "under_way V b = None"
  shows "offers V b (CreateChatBroadcastDirect_B R i k n c t b) payload_in (Some (ChatBroadcast i k n c t))"
  unfolding CreateChatBroadcastDirect_B_def Let_def
  by (rule offers_bind [OF string_offers [OF assms]], rule offers_bind [OF string_offers [OF assms(1)]], assumption)
     (rule CreateChatBroadcast_offers [OF assms(1)], auto intro: offset_mono)

lemma payload_offers:
  assumes "builder_ok R V" and "under_way V b = None" and "buildable p"
  shows "offers V b (build_payload R p b) payload_in (Some p)"
proof (cases p)
  case (RoomListResponse rs)
  then show ?thesis using rooms_offers [OF assms(1,2), of rs] assms(3) by simp
qed (use assms in \<open>auto simp: Let_def CreateSystemMessageEventDirect_B_def CreateChatBroadcastDirect_offers
    CreateRoomListRequest_offers CreateJoinRoomRequest_offers CreateLeaveRoomRequest_offers
    CreateLeaveRoomResponse_offers CreateDisconnectRequest_offers CreateDisconnectResponse_offers
    intro!: offers_bind [OF string_offers] offers_bind [OF user_offers] offers_bind [OF room_offers]
    CreateLoginRequest_offers CreateLoginResponse_offers CreateJoinRoomResponse_offers CreateChatSendRequest_offers
    CreateUserJoinedEvent_offers CreateUserLeftEvent_offers CreateSystemMessageEvent_offers\<close>)

end
