(* ===== verification/Fb_Roundtrip.thy ===== *)
theory Fb_Roundtrip
  imports Fb_Building
begin

text \<open>
  A finished buffer passes the verifier and reads back as the message it was made from.  The counters
  of the verifier are followed through the checks: the nesting stays below the limit, and so does the
  number of tables of a buildable message.  At the end the message level: generated code and runtime
  together are an instance of the parameter \<open>flatbuffers\<close> of the other theories.
\<close>

section \<open>Reading a finished buffer\<close>

lemma table_stored: "stored R V m loc H \<Longrightarrow> H q = Some (Fields fs) \<Longrightarrow> table_at R V m loc (loc q) fs"
  unfolding stored_def by fastforce

lemma table_gets:
  assumes "table_at R V m loc p fs"
  shows "scalar_in Scalar8 fs f x1 \<Longrightarrow> GetField8 R m p f 0 = Some x1"
    and "scalar_in Scalar16 fs f x2 \<Longrightarrow> GetField16 R m p f 0 = Some x2"
    and "scalar_in Scalar32 fs f x3 \<Longrightarrow> GetField32 R m p f 0 = Some x3"
    and "scalar_in Scalar64 fs f x4 \<Longrightarrow> GetField64 R m p f 0 = Some x4"
  using assms by (auto simp: table_at_def scalar_at_def scalar_in_def split: if_splits)

lemma table_keeps:
  assumes "table_at R V m loc p fs"
  shows "scalar_in Scalar8 fs f x1 \<Longrightarrow> keeps V m (VerifyField8 R p f 1)"
    and "scalar_in Scalar16 fs f x2 \<Longrightarrow> keeps V m (VerifyField16 R p f 2)"
    and "scalar_in Scalar32 fs f x3 \<Longrightarrow> keeps V m (VerifyField32 R p f 4)"
    and "scalar_in Scalar64 fs f x4 \<Longrightarrow> keeps V m (VerifyField64 R p f 8)"
    and "ref_in P fs f v \<Longrightarrow> keeps V m (VerifyOffset R p f)"
  using assms
  by (auto simp: table_at_def scalar_at_def scalar_in_def ref_in_def split: if_splits option.splits fb_field.splits)

lemma table_pointer:
  assumes "table_at R V m loc p fs" and "ref_in P fs f v"
  shows "(v = None \<and> GetPointer R m p f = Some None)
    \<or> (\<exists>q x. v = Some x \<and> P q x \<and> GetPointer R m p f = Some (Some (loc q)))"
  using assms by (auto simp: table_at_def ref_in_def split: option.splits fb_field.splits)

lemma follow_pointer:
  assumes "table_at R V m loc p fs" and "ref_in P fs f v" and "\<And>q x. P q x \<Longrightarrow> g (loc q) = Some x"
  shows "follow (GetPointer R m p f) g = Some v"
  using table_pointer [OF assms(1,2)] assms(3) by (auto simp: follow_def)

lemma String_stored: "stored R V m loc H \<Longrightarrow> text_in H q s \<Longrightarrow> String_data R m (loc q) = Some s"
  unfolding stored_def text_in_def by fastforce

lemma follow_text:
  assumes "stored R V m loc H" and "table_at R V m loc p fs" and "ref_in (text_in H) fs f v"
  shows "follow (GetPointer R m p f) (String_data R m) = Some v"
  using follow_pointer [OF assms(2,3), where g = "String_data R m"] String_stored [OF assms(1)] by blast

lemma UserInfo_read:
  assumes "stored R V m loc H" and "UserInfo_in H q u"
  shows "UserInfo_at R m (loc q) = Some u"
proof (cases u)
  case (UserInfo i n)
  then obtain fs where "H q = Some (Fields fs)" and fs: "scalar_in Scalar32 fs 4 i" "ref_in (text_in H) fs 6 n"
    using assms(2) by auto
  then have T: "table_at R V m loc (loc q) fs" using table_stored [OF assms(1)] by simp
  show ?thesis
    using follow_text [OF assms(1) T fs(2)] table_gets(3) [OF T fs(1)]
    by (simp add: UserInfo UserInfo_at_def accessor_defs)
qed

lemma RoomInfo_read:
  assumes "stored R V m loc H" and "RoomInfo_in H q r"
  shows "RoomInfo_at R m (loc q) = Some r"
proof (cases r)
  case (RoomInfo i n c)
  then obtain fs where "H q = Some (Fields fs)" and fs: "scalar_in Scalar32 fs 4 i" "ref_in (text_in H) fs 6 n"
      "scalar_in Scalar32 fs 8 c"
    using assms(2) by auto
  then have T: "table_at R V m loc (loc q) fs" using table_stored [OF assms(1)] by simp
  show ?thesis
    using follow_text [OF assms(1) T fs(2)] table_gets(3) [OF T fs(1)] table_gets(3) [OF T fs(3)]
    by (simp add: RoomInfo RoomInfo_at_def accessor_defs)
qed

lemma follow_user:
  assumes "stored R V m loc H" and "table_at R V m loc p fs" and "ref_in (UserInfo_in H) fs f v"
  shows "follow (GetPointer R m p f) (UserInfo_at R m) = Some v"
  using follow_pointer [OF assms(2,3), where g = "UserInfo_at R m"] UserInfo_read [OF assms(1)] by blast

lemma follow_room:
  assumes "stored R V m loc H" and "table_at R V m loc p fs" and "ref_in (RoomInfo_in H) fs f v"
  shows "follow (GetPointer R m p f) (RoomInfo_at R m) = Some v"
  using follow_pointer [OF assms(2,3), where g = "RoomInfo_at R m"] RoomInfo_read [OF assms(1)] by blast

lemma those_Some: "list_all2 (\<lambda>a x. f a = Some x) as xs \<Longrightarrow> those (map f as) = Some xs"
  by (induction rule: list_all2_induct) simp_all

lemma RoomInfos_read:
  assumes "stored R V m loc H" and "RoomInfos_in H q xs"
  shows "map_option (map Some) (RoomInfos_at R m (loc q)) = Some xs"
proof -
  obtain qs where "H q = Some (Elements qs)"
    and all: "list_all2 (\<lambda>q x. \<exists>r. x = Some r \<and> RoomInfo_in H q r) qs xs"
    using assms(2) unfolding RoomInfos_in_def by blast
  then have "Vector_elements R m (loc q) = Some (map loc qs)"
    using assms(1) unfolding stored_def by fastforce
  moreover have "list_all2 (\<lambda>a x. RoomInfo_at R m a = Some x) (map loc qs) (map the xs)"
    unfolding list_all2_map1 list_all2_map2
    using all by (rule list_all2_mono) (auto intro: RoomInfo_read [OF assms(1)])
  moreover have "map Some (map the xs) = xs"
    using all by (induction rule: list_all2_induct) auto
  ultimately show ?thesis by (simp add: RoomInfos_at_def those_Some del: map_map)
qed

text \<open>The table of a payload, read at its address.\<close>

fun table_read :: "('b, 'v) runtime \<Rightarrow> bytes \<Rightarrow> addr \<Rightarrow> payload_table \<Rightarrow> payload_table option" where
  "table_read R m a (LoginRequest _) = LoginRequest_at R m a"
| "table_read R m a (LoginResponse _ _ _) = LoginResponse_at R m a"
| "table_read R m a RoomListRequest = RoomListRequest_at R m a"
| "table_read R m a (RoomListResponse _) = RoomListResponse_at R m a"
| "table_read R m a (JoinRoomRequest _) = JoinRoomRequest_at R m a"
| "table_read R m a (JoinRoomResponse _ _ _) = JoinRoomResponse_at R m a"
| "table_read R m a (ChatSendRequest _) = ChatSendRequest_at R m a"
| "table_read R m a (ChatBroadcast _ _ _ _ _) = ChatBroadcast_at R m a"
| "table_read R m a LeaveRoomRequest = LeaveRoomRequest_at R m a"
| "table_read R m a (LeaveRoomResponse _ _) = LeaveRoomResponse_at R m a"
| "table_read R m a DisconnectRequest = DisconnectRequest_at R m a"
| "table_read R m a (DisconnectResponse _ _) = DisconnectResponse_at R m a"
| "table_read R m a (UserJoinedEvent _ _) = UserJoinedEvent_at R m a"
| "table_read R m a (UserLeftEvent _ _) = UserLeftEvent_at R m a"
| "table_read R m a (SystemMessageEvent _ _) = SystemMessageEvent_at R m a"

lemma payload_in_fields: "payload_in H q p \<Longrightarrow> \<exists>fs. H q = Some (Fields fs)"
  by (cases p) auto

lemma rooms_follow:
  assumes "stored R V m loc H" and "table_at R V m loc p fs" and "ref_in (RoomInfos_in H) fs f rs"
  shows "map_option (map_option (map Some)) (follow (GetPointer R m p f) (RoomInfos_at R m)) = Some rs"
  using table_pointer [OF assms(2,3)] RoomInfos_read [OF assms(1)]
  by (fastforce simp: follow_def option.map_comp comp_def)

lemma payload_read:
  assumes S: "stored R V m loc H" and "payload_in H q p"
  shows "table_read R m (loc q) p = Some p"
proof -
  obtain fs where fs: "H q = Some (Fields fs)" using payload_in_fields [OF assms(2)] by blast
  note T = table_stored [OF S fs]
  note gets = table_gets [OF T] follow_text [OF S T] follow_user [OF S T] follow_room [OF S T]
  show ?thesis
  proof (cases p)
    case (RoomListResponse rs)
    then show ?thesis
      using assms(2) rooms_follow [OF S T, of 4 rs] fs
      by (auto simp: RoomListResponse_at_def accessor_defs map_option_case split: option.splits)
  qed (use assms(2) fs in \<open>auto simp: accessor_defs table_at_defs dest!: gets\<close>)
qed

section \<open>A finished buffer passes the verifier\<close>

lemma passes_start [pass_rules]:
  assumes "table_at R V m loc p fs" and "d < max_depth" and "n < max_tables"
    and "passes V m (all_checks cs) (Suc d) (Suc n) d n'"
  shows "passes V m (all_checks (VerifyTableStart R p # cs)) d n d n'"
  using assms by (auto intro: passes_Cons simp: table_at_def)

lemma passes_last: "verifier_ok R V \<Longrightarrow> n \<le> n' \<Longrightarrow> passes V m (all_checks [EndTable_V R]) (Suc d) n d n'"
  by (rule passes_Cons [OF passes_end passes_weaken [OF passes_Nil]])

lemma passes_kept: "keeps V m c \<Longrightarrow> passes V m (all_checks cs) d n d' n' \<Longrightarrow> passes V m (all_checks (c # cs)) d n d' n'"
  by (rule passes_Cons [OF passes_keeps])

lemma passes_steps:
  assumes "passes V m (all_checks cs) d n d' n'"
  shows "keeps V m (VerifyField8 R p f k) \<Longrightarrow> passes V m (all_checks (VerifyField8 R p f k # cs)) d n d' n'"
    and "keeps V m (VerifyField16 R p f k) \<Longrightarrow> passes V m (all_checks (VerifyField16 R p f k # cs)) d n d' n'"
    and "keeps V m (VerifyField32 R p f k) \<Longrightarrow> passes V m (all_checks (VerifyField32 R p f k # cs)) d n d' n'"
    and "keeps V m (VerifyField64 R p f k) \<Longrightarrow> passes V m (all_checks (VerifyField64 R p f k # cs)) d n d' n'"
    and "keeps V m (VerifyOffset R p f) \<Longrightarrow> passes V m (all_checks (VerifyOffset R p f # cs)) d n d' n'"
    and "keeps V m (with_value q (VerifyString R)) \<Longrightarrow>
      passes V m (all_checks (with_value q (VerifyString R) # cs)) d n d' n'"
  using assms by (auto intro: passes_kept)

lemma text_keeps:
  assumes "verifier_ok R V" and "stored R V m loc H" and "table_at R V m loc p fs" and "ref_in (text_in H) fs f v"
  shows "keeps V m (with_value (GetPointer R m p f) (VerifyString R))"
proof -
  have "keeps V m (VerifyString R (Some (loc q)))" if "text_in H q x" for q x
    using assms(2) that unfolding stored_def text_in_def by fastforce
  then show ?thesis
    using table_pointer [OF assms(3,4)] assms(1) by (auto simp: keeps_def intro!: passes_with_value)
       (simp add: verifier_ok_def passes_def)
qed

lemma passes_nested:
  assumes "verifier_ok R V" and "table_at R V m loc p fs" and "ref_in P fs f v"
    and "\<And>q x. P q x \<Longrightarrow> passes V m (c (loc q)) d n d (Suc n)"
    and "passes V m (all_checks cs) d (Suc n) d' n'"
  shows "passes V m (all_checks (with_value (GetPointer R m p f) (VerifyTable R c) # cs)) d n d' n'"
proof -
  have "passes V m (VerifyTable R c None) d n d (Suc n)"
    using assms(1) by (intro passes_weaken [OF passes_keeps]) simp_all
  then have "passes V m (with_value (GetPointer R m p f) (VerifyTable R c)) d n d (Suc n)"
    using table_pointer [OF assms(2,3)] assms(1,4) by (auto intro!: passes_with_value simp: passes_VerifyTable)
  then show ?thesis using assms(5) by (rule passes_Cons)
qed

lemma UserInfo_passes:
  assumes V: "verifier_ok R V" and S: "stored R V m loc H" and "UserInfo_in H q u"
    and "d < max_depth" and "n < max_tables"
  shows "passes V m (UserInfo_Verify R m (loc q)) d n d (Suc n)"
proof (cases u)
  case (UserInfo i t)
  then obtain fs where "H q = Some (Fields fs)" and fs: "scalar_in Scalar32 fs 4 i" "ref_in (text_in H) fs 6 t"
    using assms(3) by auto
  then have T: "table_at R V m loc (loc q) fs" using table_stored [OF S] by simp
  show ?thesis
    unfolding UserInfo_Verify_def accessor_defs
    by (rule passes_start [OF T assms(4,5)], intro passes_kept passes_last [OF V])
       (use fs in \<open>auto intro: table_keeps [OF T] text_keeps [OF V S T]\<close>)
qed

lemma RoomInfo_passes:
  assumes V: "verifier_ok R V" and S: "stored R V m loc H" and "RoomInfo_in H q r"
    and "d < max_depth" and "n < max_tables"
  shows "passes V m (RoomInfo_Verify R m (loc q)) d n d (Suc n)"
proof (cases r)
  case (RoomInfo i t k)
  then obtain fs where "H q = Some (Fields fs)" and fs: "scalar_in Scalar32 fs 4 i" "ref_in (text_in H) fs 6 t"
      "scalar_in Scalar32 fs 8 k"
    using assms(3) by auto
  then have T: "table_at R V m loc (loc q) fs" using table_stored [OF S] by simp
  show ?thesis
    unfolding RoomInfo_Verify_def accessor_defs
    by (rule passes_start [OF T assms(4,5)], intro passes_kept passes_last [OF V])
       (use fs in \<open>auto intro: table_keeps [OF T] text_keeps [OF V S T]\<close>)
qed

lemma vector_keeps:
  assumes "verifier_ok R V" and "stored R V m loc H" and "table_at R V m loc p fs"
    and "ref_in (RoomInfos_in H) fs f v"
  shows "keeps V m (with_value (GetPointer R m p f) (VerifyVector R))"
proof -
  have "keeps V m (VerifyVector R (Some (loc q)))" if "RoomInfos_in H q x" for q x
    using assms(2) that unfolding stored_def RoomInfos_in_def by fastforce
  then show ?thesis
    using table_pointer [OF assms(3,4)] assms(1) by (auto simp: keeps_def intro!: passes_with_value)
       (simp add: verifier_ok_def passes_def)
qed

lemma rooms_pass:
  assumes V: "verifier_ok R V" and S: "stored R V m loc H" and "table_at R V m loc p fs"
    and "ref_in (RoomInfos_in H) fs f rs" and "d < max_depth" and "n + room_tables rs \<le> max_tables"
  shows "passes V m (with_value (GetPointer R m p f) (VerifyVectorOfTables R (RoomInfo_Verify R m))) d n d
    (n + room_tables rs)"
  using table_pointer [OF assms(3,4)]
proof (elim disjE exE conjE)
  assume "rs = None" and "GetPointer R m p f = Some None"
  then show ?thesis
    using V by (simp add: room_tables_def passes_with_value passes_keeps)
next
  fix q xs
  assume rs: "rs = Some xs" and "RoomInfos_in H q xs" and p: "GetPointer R m p f = Some (Some (loc q))"
  then obtain qs where qs: "H q = Some (Elements qs)"
    and all: "list_all2 (\<lambda>q x. \<exists>r. x = Some r \<and> RoomInfo_in H q r) qs xs"
    unfolding RoomInfos_in_def by blast
  have "Vector_elements R m (loc q) = Some (map loc qs)"
    using S qs unfolding stored_def by fastforce
  moreover have "passes V m (all_checks (map (RoomInfo_Verify R m) (map loc qs))) d n d (n + length (map loc qs))"
  proof (rule passes_list [where k = max_tables])
    show "passes V m (RoomInfo_Verify R m a) d k d (Suc k)" if a: "a \<in> set (map loc qs)" and k: "k < max_tables" for a k
    proof -
      have "\<forall>q' \<in> set qs. \<exists>r. RoomInfo_in H q' r"
        using all by (induction rule: list_all2_induct) auto
      then obtain q' r where "a = loc q'" "RoomInfo_in H q' r" using a by auto
      then show ?thesis using RoomInfo_passes [OF V S _ assms(5)] k by blast
    qed
    show "n + length (map loc qs) \<le> max_tables"
      using assms(6) list_all2_lengthD [OF all] by (simp add: rs room_tables_def)
  qed
  ultimately have "passes V m (VerifyVectorOfTables R (RoomInfo_Verify R m) (Some (loc q))) d n d (n + length qs)"
    by (simp add: passes_VerifyVectorOfTables [OF V])
  then show ?thesis
    using p rs list_all2_lengthD [OF all] by (simp add: room_tables_def passes_with_value)
qed

text \<open>The verifying function of a payload.\<close>

fun table_Verify :: "('b, 'v) runtime \<Rightarrow> bytes \<Rightarrow> payload_table \<Rightarrow> addr \<Rightarrow> 'v check" where
  "table_Verify R m (LoginRequest _) = LoginRequest_Verify R m"
| "table_Verify R m (LoginResponse _ _ _) = LoginResponse_Verify R m"
| "table_Verify R m RoomListRequest = RoomListRequest_Verify R m"
| "table_Verify R m (RoomListResponse _) = RoomListResponse_Verify R m"
| "table_Verify R m (JoinRoomRequest _) = JoinRoomRequest_Verify R m"
| "table_Verify R m (JoinRoomResponse _ _ _) = JoinRoomResponse_Verify R m"
| "table_Verify R m (ChatSendRequest _) = ChatSendRequest_Verify R m"
| "table_Verify R m (ChatBroadcast _ _ _ _ _) = ChatBroadcast_Verify R m"
| "table_Verify R m LeaveRoomRequest = LeaveRoomRequest_Verify R m"
| "table_Verify R m (LeaveRoomResponse _ _) = LeaveRoomResponse_Verify R m"
| "table_Verify R m DisconnectRequest = DisconnectRequest_Verify R m"
| "table_Verify R m (DisconnectResponse _ _) = DisconnectResponse_Verify R m"
| "table_Verify R m (UserJoinedEvent _ _) = UserJoinedEvent_Verify R m"
| "table_Verify R m (UserLeftEvent _ _) = UserLeftEvent_Verify R m"
| "table_Verify R m (SystemMessageEvent _ _) = SystemMessageEvent_Verify R m"

lemma VerifyMessagePayload_table:
  assumes "verifier_ok R V"
  shows "VerifyMessagePayload R m (Some a) (MessagePayloadTraits p) = table_Verify R m p a"
proof -
  have "VerifyTable R c (Some a) v = c a v" for c v using assms by (simp add: verifier_ok_def)
  then show ?thesis by (cases p) (simp_all add: fun_eq_iff VerifyMessagePayload_def payload_tags)
qed

lemmas table_Verify_defs =
  LoginRequest_Verify_def LoginResponse_Verify_def RoomListRequest_Verify_def RoomListResponse_Verify_def
  JoinRoomRequest_Verify_def JoinRoomResponse_Verify_def ChatSendRequest_Verify_def ChatBroadcast_Verify_def
  LeaveRoomRequest_Verify_def LeaveRoomResponse_Verify_def DisconnectRequest_Verify_def DisconnectResponse_Verify_def
  UserJoinedEvent_Verify_def UserLeftEvent_Verify_def SystemMessageEvent_Verify_def

lemma RoomListResponse_passes:
  assumes V: "verifier_ok R V" and S: "stored R V m loc H" and T: "table_at R V m loc p fs"
    and "ref_in (RoomInfos_in H) fs 4 rs" and "Suc d < max_depth" and "n + Suc (room_tables rs) \<le> max_tables"
  shows "passes V m (RoomListResponse_Verify R m p) d n d (n + Suc (room_tables rs))"
  unfolding RoomListResponse_Verify_def accessor_defs
proof (rule passes_start [OF T], goal_cases)
  case 3
  have "passes V m (with_value (GetPointer R m p 4) (VerifyVectorOfTables R (RoomInfo_Verify R m))) (Suc d) (Suc n)
      (Suc d) (Suc n + room_tables rs)"
    using assms by (intro rooms_pass [OF V S T]) simp_all
  then have "passes V m (all_checks [with_value (GetPointer R m p 4) (VerifyVectorOfTables R (RoomInfo_Verify R m)), EndTable_V R])
      (Suc d) (Suc n) d (n + Suc (room_tables rs))"
    by (rule passes_Cons) (simp add: passes_last [OF V])
  then show ?case
    using assms(4) by (auto intro!: passes_kept intro: table_keeps [OF T] vector_keeps [OF V S T])
qed (use assms in simp_all)

lemma payload_passes:
  assumes V: "verifier_ok R V" and S: "stored R V m loc H" and "payload_in H q p"
    and d: "Suc d < max_depth" and n: "n + payload_tables p \<le> max_tables"
  shows "passes V m (VerifyMessagePayload R m (Some (loc q)) (MessagePayloadTraits p)) d n d (n + payload_tables p)"
proof -
  obtain fs where fs: "H q = Some (Fields fs)" using payload_in_fields [OF assms(3)] by blast
  note T = table_stored [OF S fs]
  have start: "d < max_depth" "n < max_tables" using d n by (cases p; simp)+
  note user = passes_nested [OF V T, where P = "UserInfo_in H" and c = "UserInfo_Verify R m",
      OF _ UserInfo_passes [OF V S _ d]]
  note room = passes_nested [OF V T, where P = "RoomInfo_in H" and c = "RoomInfo_Verify R m",
      OF _ RoomInfo_passes [OF V S _ d]]
  show ?thesis
    unfolding VerifyMessagePayload_table [OF V]
  proof (cases p)
    case (RoomListResponse rs)
    then show "passes V m (table_Verify R m p (loc q)) d n d (n + payload_tables p)"
      using RoomListResponse_passes [OF V S T _ d] assms(3) n fs by simp
  qed (use assms(3) fs n in \<open>auto simp: table_Verify_defs accessor_defs
      intro!: passes_start [OF T start] user room passes_steps passes_last [OF V]
      intro: table_keeps [OF T] table_keeps(1) [OF T, unfolded One_nat_def] text_keeps [OF V S T]\<close>)
qed

section \<open>Messages\<close>

definition Message_in :: "objects \<Rightarrow> uoffset \<Rightarrow> Message \<Rightarrow> bool" where
  "Message_in H q msg \<longleftrightarrow>
     (\<exists>fs. H q = Some (Fields fs) \<and> scalar_in Scalar32 fs 4 (request_id msg)
       \<and> scalar_in Scalar8 fs 6 (payload_type msg) \<and> ref_in (payload_in H) fs 8 (payload msg))"

lemma CreateMessage_offers:
  assumes "builder_ok R V" and "under_way V b = None" and "offset_in (payload_in (finished V b)) r p"
  shows "offers V b (CreateMessage_B R i ty r b) Message_in (Some \<lparr>request_id = i, payload_type = ty, payload = p\<rparr>)"
  unfolding CreateMessage_B_def Let_def builder_defs
  by (rule offers_table [OF assms(1,2)], (rule add_rules [OF assms(1)])+, assumption)
     (use assms in \<open>auto simp: Message_in_def dest: offset_dom intro: offset_mono\<close>)

lemma payload_at_table:
  assumes "Message_payload_type R m a = Some (MessagePayloadTraits p)" and "Message_payload R m a = Some (Some x)"
  shows "payload_at R m a = map_option Some (table_read R m x p)"
  using assms by (cases p) (simp_all add: payload_at_def payload_as_B_defs payload_tags follow_def)

lemma Message_read:
  assumes S: "stored R V m loc H" and "Message_in H q msg" and wf: "wf_Message msg"
  shows "Message_at R m (loc q) = Some msg"
proof -
  obtain fs where "H q = Some (Fields fs)" and fs: "scalar_in Scalar32 fs 4 (request_id msg)"
      "scalar_in Scalar8 fs 6 (payload_type msg)" "ref_in (payload_in H) fs 8 (payload msg)"
    using assms(2) unfolding Message_in_def by blast
  then have T: "table_at R V m loc (loc q) fs" using table_stored [OF S] by simp
  have ty: "Message_payload_type R m (loc q) = Some (payload_type msg)"
    using table_gets(1) [OF T fs(2)] by (simp add: accessor_defs)
  have "payload_at R m (loc q) = Some (payload msg)"
    using table_pointer [OF T fs(3)]
  proof (elim disjE exE conjE)
    assume "payload msg = None" and "GetPointer R m (loc q) 8 = Some None"
    then show ?thesis
      by (simp add: payload_at_def payload_as_B_defs ty accessor_defs(33) follow_def)
  next
    fix r p
    assume p: "payload msg = Some p" "payload_in H r p" "GetPointer R m (loc q) 8 = Some (Some (loc r))"
    have "payload_type msg = MessagePayloadTraits p" using wf p(1) by (simp add: wf_Message_def)
    then show ?thesis
      using payload_at_table [of R m "loc q" p "loc r"] payload_read [OF S p(2)] ty p(1,3)
      by (simp add: accessor_defs(33))
  qed
  then show ?thesis
    using ty table_gets(3) [OF T fs(1)] by (simp add: Message_at_def Message_request_id_def)
qed

lemma null_payload_keeps: "verifier_ok R V \<Longrightarrow> keeps V m (VerifyMessagePayload R m None ty)"
  by (simp add: keeps_def passes_def VerifyMessagePayload_def verifier_ok_def)

lemma message_tables: "wf_Message msg \<Longrightarrow> payload msg = Some p \<Longrightarrow> 1 + payload_tables p \<le> max_tables"
  by (simp add: wf_Message_def buildable_def)

lemma Message_passes:
  assumes V: "verifier_ok R V" and S: "stored R V m loc H" and "Message_in H q msg" and wf: "wf_Message msg"
  shows "passes V m (Message_Verify R m (loc q)) 0 0 0 max_tables"
proof -
  obtain fs where "H q = Some (Fields fs)" and fs: "scalar_in Scalar32 fs 4 (request_id msg)"
      "scalar_in Scalar8 fs 6 (payload_type msg)" "ref_in (payload_in H) fs 8 (payload msg)"
    using assms(3) unfolding Message_in_def by blast
  then have T: "table_at R V m loc (loc q) fs" using table_stored [OF S] by simp
  let ?c = "with_value (GetPointer R m (loc q) 8) (\<lambda>obj. with_value (GetField8 R m (loc q) 6 0) (VerifyMessagePayload R m obj))"
  have "passes V m ?c 1 1 1 max_tables"
    using table_pointer [OF T fs(3)]
  proof (elim disjE exE conjE)
    assume "payload msg = None" and "GetPointer R m (loc q) 8 = Some None"
    then show ?thesis
      using table_gets(1) [OF T fs(2)] null_payload_keeps [OF V]
      by (auto intro!: passes_with_value passes_weaken [OF passes_keeps] simp: max_tables_def)
  next
    fix r p
    assume p: "payload msg = Some p" "payload_in H r p" "GetPointer R m (loc q) 8 = Some (Some (loc r))"
    have "payload_type msg = MessagePayloadTraits p" using wf p(1) by (simp add: wf_Message_def)
    moreover note tables = message_tables [OF wf p(1)]
    moreover have "passes V m (VerifyMessagePayload R m (Some (loc r)) (MessagePayloadTraits p)) 1 1 1 (1 + payload_tables p)"
      using tables by (intro payload_passes [OF V S p(2)]) (simp_all add: max_depth_def)
    ultimately show ?thesis
      using table_gets(1) [OF T fs(2)] p(3) by (auto intro!: passes_with_value intro: passes_weaken)
  qed
  then have "passes V m (all_checks [?c, EndTable_V R]) (Suc 0) (Suc 0) 0 max_tables"
    by (auto intro: passes_Cons passes_last [OF V])
  then show ?thesis
    unfolding Message_Verify_def accessor_defs
    using fs by (auto intro!: passes_start [OF T] passes_steps simp: max_depth_def max_tables_def
        intro: table_keeps [OF T] table_keeps(1) [OF T, unfolded One_nat_def])
qed

section \<open>The message level\<close>

text \<open>The parameter \<open>flatbuffers\<close> of the other theories, made of the generated code and the runtime.\<close>

definition flatbuffers_of :: "('b, 'v) runtime \<Rightarrow> flatbuffers" where
  "flatbuffers_of R =
     \<lparr>fb_build = (\<lambda>msg. BuildMessage_B R (request_id msg) (payload_type msg)
        (case payload msg of None \<Rightarrow> (\<lambda>b. (0, b)) | Some p \<Rightarrow> build_payload R p)),
      fb_verify = (\<lambda>d. case VerifyMessageBuffer R d (Verifier R d) of None \<Rightarrow> False | Some (ok, _) \<Rightarrow> ok),
      fb_root = (\<lambda>d. do { p \<leftarrow> GetRoot R d; Message_at R d p })\<rparr>"

lemma finished_message:
  assumes "runtime_ok R V" and "wf_Message msg"
  shows "\<exists>a. fb_build (flatbuffers_of R) msg \<noteq> []
    \<and> VerifiedMessage_B R (fb_build (flatbuffers_of R) msg) = Some (Some a)
    \<and> GetRoot R (fb_build (flatbuffers_of R) msg) = Some a
    \<and> Message_at R (fb_build (flatbuffers_of R) msg) a = Some msg"
proof -
  have B: "builder_ok R V" and V: "verifier_ok R V" and F: "finished_ok R V"
    using assms(1) by (simp_all add: runtime_ok_def)
  let ?b = "new_builder R"
  obtain r1 b1 where p: "(case payload msg of None \<Rightarrow> (\<lambda>b. (0, b)) | Some p \<Rightarrow> build_payload R p) ?b = (r1, b1)"
    by fastforce
  have "offers V ?b (r1, b1) payload_in (payload msg)"
    unfolding p [symmetric] using payload_offers [OF B builder_okD(2) [OF B]] assms(2)
    by (auto simp: wf_Message_def offers_null builder_okD(2) [OF B] split: option.split)
  then have b1: "under_way V b1 = None" "offset_in (payload_in (finished V b1)) r1 (payload msg)"
    by (simp_all add: offers_def)
  obtain r b where c: "CreateMessage_B R (request_id msg) (payload_type msg) r1 b1 = (r, b)"
    by (cases "CreateMessage_B R (request_id msg) (payload_type msg) r1 b1")
  have eta: "\<lparr>request_id = request_id msg, payload_type = payload_type msg, payload = payload msg\<rparr> = msg" by simp
  have b: "under_way V b = None" "Message_in (finished V b) r msg"
    using CreateMessage_offers [OF B b1, of "request_id msg" "payload_type msg", unfolded eta]
    by (auto simp: c offers_def offset_in_def split: if_splits)
  define m where "m = GetBuffer R (Finish_B R r b)"
  have m: "fb_build (flatbuffers_of R) msg = m"
    by (simp add: flatbuffers_of_def BuildMessage_B_def p c FinishMessageBuffer_def m_def)
  obtain fs where "finished V b r = Some (Fields fs)" using b(2) by (auto simp: Message_in_def)
  then obtain loc where loc: "m \<noteq> []" "GetRoot R m = Some (loc r)" "stored R V m loc (finished V b)"
    and buf: "\<And>c d n d' n'. passes V m (c (loc r)) d n d' n' \<Longrightarrow> passes V m (VerifyBuffer R None c) d n d' n'"
    using F b(1) unfolding finished_ok_def m_def Let_def by blast
  have "passes V m (VerifyMessageBuffer R m) 0 0 0 max_tables"
    unfolding VerifyMessageBuffer_def using Message_passes [OF V loc(3) b(2) assms(2)] by (rule buf)
  then have "\<exists>v. VerifyMessageBuffer R m (Verifier R m) = Some (True, v)"
    using V by (auto simp: passes_def verifier_ok_def)
  then show ?thesis
    using loc(1,2) Message_read [OF loc(3) b(2) assms(2)] by (auto simp: m VerifiedMessage_B_def)
qed

lemma flatbuffers_of_ok:
  assumes "runtime_ok R V"
  shows "fb_ok (flatbuffers_of R)"
proof -
  have "fb_ok_for (flatbuffers_of R) msg" if "wf_Message msg" for msg
    using finished_message [OF assms that]
    by (auto simp: fb_ok_for_def flatbuffers_of_def VerifiedMessage_B_def bind_eq_Some_conv split: if_splits)
  then show ?thesis by (simp add: fb_ok_def)
qed

end
