(* ===== verification/Example_Codec.thy ===== *)
theory Example_Codec
  imports Night_Protocol "HOL-Library.Monad_Syntax"
begin

text \<open>
  A concrete runtime for the parameter \<open>flatbuffers\<close>: a small tag-and-length serialisation of
  messages, executable, with the proof that it satisfies \<open>fb_ok\<close>.  It shows that the
  hypotheses on the FlatBuffers runtime can be met and gives the witnesses something to
  compute with; it does not describe the FlatBuffers wire format.
\<close>

type_synonym 'a parser = "bytes \<Rightarrow> ('a \<times> bytes) option"

section \<open>Fields\<close>

fun put_nat :: "nat \<Rightarrow> nat \<Rightarrow> bytes" where
  "put_nat 0 n = []"
| "put_nat (Suc k) n = of_nat (n mod 256) # put_nat k (n div 256)"

fun get_nat :: "nat \<Rightarrow> nat parser" where
  "get_nat 0 bs = Some (0, bs)"
| "get_nat (Suc k) [] = None"
| "get_nat (Suc k) (b # bs) =
     (case get_nat k bs of None \<Rightarrow> None | Some (n, r) \<Rightarrow> Some (unat b + 256 * n, r))"

definition put_word :: "nat \<Rightarrow> 'a::len word \<Rightarrow> bytes" where
  "put_word k w = put_nat k (unat w)"

definition get_word :: "nat \<Rightarrow> 'a::len word parser" where
  "get_word k bs = map_option (\<lambda>(n, r). (of_nat n, r)) (get_nat k bs)"

definition put_bool :: "bool \<Rightarrow> bytes" where
  "put_bool b = [if b then 1 else 0]"

fun get_bool :: "bool parser" where
  "get_bool [] = None"
| "get_bool (b # bs) = Some (b \<noteq> 0, bs)"

fun put_list :: "('a \<Rightarrow> bytes) \<Rightarrow> 'a list \<Rightarrow> bytes" where
  "put_list p [] = [0]"
| "put_list p (x # xs) = 1 # p x @ put_list p xs"

text \<open>The first argument bounds the number of elements by the length of the input.\<close>

fun get_list :: "nat \<Rightarrow> 'a parser \<Rightarrow> 'a list parser" where
  "get_list n g [] = None"
| "get_list 0 g (b # bs) = (if b = 0 then Some ([], bs) else None)"
| "get_list (Suc n) g (b # bs) =
     (if b = 0 then Some ([], bs)
      else do { (x, r) \<leftarrow> g bs; (xs, r') \<leftarrow> get_list n g r; Some (x # xs, r') })"

definition put_char :: "char \<Rightarrow> bytes" where
  "put_char c = [of_nat (of_char c)]"

fun get_char :: "char parser" where
  "get_char [] = None"
| "get_char (b # bs) = Some (char_of (unat b), bs)"

definition put_str :: "string \<Rightarrow> bytes" where
  "put_str s = put_list put_char s"

definition get_str :: "string parser" where
  "get_str bs = get_list (length bs) get_char bs"

fun put_opt :: "('a \<Rightarrow> bytes) \<Rightarrow> 'a option \<Rightarrow> bytes" where
  "put_opt p None = [0]"
| "put_opt p (Some x) = 1 # p x"

fun get_opt :: "'a parser \<Rightarrow> 'a option parser" where
  "get_opt g [] = None"
| "get_opt g (b # bs) =
     (if b = 0 then Some (None, bs) else do { (x, r) \<leftarrow> g bs; Some (Some x, r) })"

fun put_user :: "UserInfo \<Rightarrow> bytes" where
  "put_user (UserInfo i n) = put_word 4 i @ put_opt put_str n"

definition get_user :: "UserInfo parser" where
  "get_user bs = do { (i, r) \<leftarrow> get_word 4 bs; (n, r) \<leftarrow> get_opt get_str r; Some (UserInfo i n, r) }"

fun put_room :: "RoomInfo \<Rightarrow> bytes" where
  "put_room (RoomInfo i n c) = put_word 4 i @ put_opt put_str n @ put_word 4 c"

definition get_room :: "RoomInfo parser" where
  "get_room bs = do { (i, r) \<leftarrow> get_word 4 bs; (n, r) \<leftarrow> get_opt get_str r;
                      (c, r) \<leftarrow> get_word 4 r; Some (RoomInfo i n c, r) }"

section \<open>Messages\<close>

fun put_table :: "payload_table \<Rightarrow> bytes" where
  "put_table (LoginRequest d) = put_opt put_str d"
| "put_table (LoginResponse s e u) = put_bool s @ put_word 2 e @ put_opt put_user u"
| "put_table RoomListRequest = []"
| "put_table (RoomListResponse rs) = put_opt (put_list (put_opt put_room)) rs"
| "put_table (JoinRoomRequest i) = put_word 4 i"
| "put_table (JoinRoomResponse s e r) = put_bool s @ put_word 2 e @ put_opt put_room r"
| "put_table (ChatSendRequest c) = put_opt put_str c"
| "put_table (ChatBroadcast r i n c t) =
     put_word 4 r @ put_word 4 i @ put_opt put_str n @ put_opt put_str c @ put_word 8 t"
| "put_table LeaveRoomRequest = []"
| "put_table (LeaveRoomResponse s e) = put_bool s @ put_word 2 e"
| "put_table DisconnectRequest = []"
| "put_table (DisconnectResponse s e) = put_bool s @ put_word 2 e"
| "put_table (UserJoinedEvent r u) = put_word 4 r @ put_opt put_user u"
| "put_table (UserLeftEvent r u) = put_word 4 r @ put_opt put_user u"
| "put_table (SystemMessageEvent r c) = put_word 4 r @ put_opt put_str c"

definition get_table :: "MessagePayload \<Rightarrow> payload_table parser" where
  "get_table ty bs =
     (if ty = 1 then do { (d, r) \<leftarrow> get_opt get_str bs; Some (LoginRequest d, r) }
      else if ty = 2 then do { (s, r) \<leftarrow> get_bool bs; (e, r) \<leftarrow> get_word 2 r;
                               (u, r) \<leftarrow> get_opt get_user r; Some (LoginResponse s e u, r) }
      else if ty = 3 then Some (RoomListRequest, bs)
      else if ty = 4 then do { (rs, r) \<leftarrow> get_opt (get_list (length bs) (get_opt get_room)) bs;
                               Some (RoomListResponse rs, r) }
      else if ty = 5 then do { (i, r) \<leftarrow> get_word 4 bs; Some (JoinRoomRequest i, r) }
      else if ty = 6 then do { (s, r) \<leftarrow> get_bool bs; (e, r) \<leftarrow> get_word 2 r;
                               (i, r) \<leftarrow> get_opt get_room r; Some (JoinRoomResponse s e i, r) }
      else if ty = 7 then do { (c, r) \<leftarrow> get_opt get_str bs; Some (ChatSendRequest c, r) }
      else if ty = 8 then do { (k, r) \<leftarrow> get_word 4 bs; (i, r) \<leftarrow> get_word 4 r; (n, r) \<leftarrow> get_opt get_str r;
                               (c, r) \<leftarrow> get_opt get_str r; (t, r) \<leftarrow> get_word 8 r;
                               Some (ChatBroadcast k i n c t, r) }
      else if ty = 9 then Some (LeaveRoomRequest, bs)
      else if ty = 10 then do { (s, r) \<leftarrow> get_bool bs; (e, r) \<leftarrow> get_word 2 r; Some (LeaveRoomResponse s e, r) }
      else if ty = 11 then Some (DisconnectRequest, bs)
      else if ty = 12 then do { (s, r) \<leftarrow> get_bool bs; (e, r) \<leftarrow> get_word 2 r; Some (DisconnectResponse s e, r) }
      else if ty = 13 then do { (k, r) \<leftarrow> get_word 4 bs; (u, r) \<leftarrow> get_opt get_user r; Some (UserJoinedEvent k u, r) }
      else if ty = 14 then do { (k, r) \<leftarrow> get_word 4 bs; (u, r) \<leftarrow> get_opt get_user r; Some (UserLeftEvent k u, r) }
      else if ty = 15 then do { (k, r) \<leftarrow> get_word 4 bs; (c, r) \<leftarrow> get_opt get_str r; Some (SystemMessageEvent k c, r) }
      else None)"

definition put_message :: "Message \<Rightarrow> bytes" where
  "put_message m = put_word 4 (request_id m) @ [payload_type m] @ put_opt put_table (payload m)"

definition get_message :: "bytes \<Rightarrow> Message option" where
  "get_message bs = do { (i, r) \<leftarrow> get_word 4 bs; (ty, r) \<leftarrow> get_word 1 r; (p, r) \<leftarrow> get_opt (get_table ty) r;
     Some \<lparr>request_id = i, payload_type = ty, payload = p\<rparr> }"

definition example_fb :: flatbuffers where
  "example_fb = \<lparr>fb_build = put_message, fb_verify = (\<lambda>bs. get_message bs \<noteq> None), fb_root = get_message\<rparr>"

section \<open>Reading back what was written\<close>

lemma get_put_nat: "n < 256 ^ k \<Longrightarrow> get_nat k (put_nat k n @ r) = Some (n, r)"
proof (induction k arbitrary: n)
  case 0
  then show ?case by simp
next
  case (Suc k)
  have "n div 256 < 256 ^ k"
    using Suc.prems by (simp add: less_mult_imp_div_less)
  moreover have "unat (of_nat (n mod 256) :: u8) = n mod 256"
    by (simp add: unat_of_nat)
  ultimately show ?case using Suc.IH by simp
qed

lemma get_put_word:
  assumes "2 ^ LENGTH('a::len) \<le> (256 :: nat) ^ k"
  shows "get_word k (put_word k (w :: 'a word) @ r) = Some (w, r)"
proof -
  have "unat w < 256 ^ k" using assms unsigned_less [of w] by (metis less_le_trans)
  then show ?thesis by (simp add: get_word_def put_word_def get_put_nat)
qed

lemma get_put_words [simp]:
  "get_word (Suc 0) ((b :: u8) # r) = Some (b, r)"
  "get_word 2 (put_word 2 (h :: u16) @ r) = Some (h, r)"
  "get_word 4 (put_word 4 (w :: u32) @ r) = Some (w, r)"
  "get_word 8 (put_word 8 (q :: u64) @ r) = Some (q, r)"
  by (simp_all add: get_put_word) (simp add: get_word_def numeral_eq_Suc)

lemma get_put_bool [simp]: "get_bool (put_bool b @ r) = Some (b, r)"
  by (simp add: put_bool_def)

lemma get_put_char [simp]: "get_char (put_char c @ r) = Some (c, r)"
proof -
  have "unat (of_nat (of_char c) :: u8) = of_char c"
    by (simp add: unat_of_nat)
  then show ?thesis by (simp add: put_char_def)
qed

lemma get_put_list:
  assumes "\<And>x r. x \<in> set xs \<Longrightarrow> g (p x @ r) = Some (x, r)" and "length xs \<le> n"
  shows "get_list n g (put_list p xs @ r) = Some (xs, r)"
  using assms
proof (induction xs arbitrary: n)
  case Nil
  then show ?case by (cases n) simp_all
next
  case (Cons x xs)
  then show ?case by (cases n) simp_all
qed

lemma length_put_list: "length xs \<le> length (put_list p xs)"
  by (induction xs) auto

lemma get_put_str [simp]: "get_str (put_str s @ r) = Some (s, r)"
  unfolding get_str_def put_str_def
  by (rule get_put_list) (simp_all add: length_put_list le_add1 order_trans [OF length_put_list [of s put_char]])

lemma get_put_opt:
  assumes "\<And>x r. v = Some x \<Longrightarrow> g (p x @ r) = Some (x, r)"
  shows "get_opt g (put_opt p v @ r) = Some (v, r)"
  using assms by (cases v) simp_all

lemma get_put_user [simp]: "get_user (put_user u @ r) = Some (u, r)"
  by (cases u) (simp add: get_user_def get_put_opt)

lemma get_put_room [simp]: "get_room (put_room i @ r) = Some (i, r)"
  by (cases i) (simp add: get_room_def get_put_opt)

lemma get_put_rooms:
  "get_opt (get_list (length (put_opt (put_list (put_opt put_room)) rs @ r)) (get_opt get_room))
     (put_opt (put_list (put_opt put_room)) rs @ r) = Some (rs, r)"
  by (rule get_put_opt, rule get_put_list)
     (simp_all add: get_put_opt le_SucI trans_le_add1 length_put_list)

lemma get_put_table: "get_table (MessagePayloadTraits p) (put_table p @ r) = Some (p, r)"
  using get_put_rooms by (cases p) (simp_all add: get_table_def payload_tags get_put_opt)

lemma get_put_message: "wf_Message m \<Longrightarrow> get_message (put_message m) = Some m"
proof -
  assume wf: "wf_Message m"
  have "get_opt (get_table (payload_type m)) (put_opt put_table (payload m) @ []) = Some (payload m, [])"
    using wf by (intro get_put_opt) (simp add: wf_Message_def get_put_table)
  then show ?thesis by (simp add: get_message_def put_message_def)
qed

lemma example_fb_ok: "fb_ok example_fb"
  by (simp add: fb_ok_def fb_ok_for_def example_fb_def get_put_message) (simp add: put_message_def)

end
