(* ===== verification/Example_Runtime.thy ===== *)
theory Example_Runtime
  imports Fb_Roundtrip Example_Codec
begin

text \<open>
  A concrete runtime: a builder is the list of its objects, the offset of an object is its position, and
  a finished buffer is the serialised list with the position of the root.  It shows that the
  hypotheses on the FlatBuffers runtime can be met and gives the witnesses something to compute with; it does
  not describe the FlatBuffers wire format.
\<close>

section \<open>Serialised objects\<close>

datatype ex_object = EText string | EElements "nat list" | EFields "(voffset \<times> fb_field) list"

definition put_count :: "nat \<Rightarrow> bytes" where
  "put_count n = put_list (\<lambda>_. []) (replicate n ())"

definition get_count :: "nat parser" where
  "get_count bs = map_option (\<lambda>(us, r). (length us, r)) (get_list (length bs) (\<lambda>r. Some ((), r)) bs)"

fun put_field :: "voffset \<times> fb_field \<Rightarrow> bytes" where
  "put_field (f, Scalar8 x) = 0 # put_word 2 f @ [x]"
| "put_field (f, Scalar16 x) = 1 # put_word 2 f @ put_word 2 x"
| "put_field (f, Scalar32 x) = 2 # put_word 2 f @ put_word 4 x"
| "put_field (f, Scalar64 x) = 3 # put_word 2 f @ put_word 8 x"
| "put_field (f, Reference q) = 4 # put_word 2 f @ put_count q"

fun get_field :: "(voffset \<times> fb_field) parser" where
  "get_field [] = None"
| "get_field (b # bs) =
     do { (f, r) \<leftarrow> get_word 2 bs;
          if b = 0 then do { (x, r) \<leftarrow> get_word 1 r; Some ((f, Scalar8 x), r) }
          else if b = 1 then do { (x, r) \<leftarrow> get_word 2 r; Some ((f, Scalar16 x), r) }
          else if b = 2 then do { (x, r) \<leftarrow> get_word 4 r; Some ((f, Scalar32 x), r) }
          else if b = 3 then do { (x, r) \<leftarrow> get_word 8 r; Some ((f, Scalar64 x), r) }
          else do { (q, r) \<leftarrow> get_count r; Some ((f, Reference q), r) } }"

fun put_object :: "ex_object \<Rightarrow> bytes" where
  "put_object (EText s) = 0 # put_str s"
| "put_object (EElements qs) = 1 # put_list put_count qs"
| "put_object (EFields fs) = 2 # put_list put_field fs"

fun get_object :: "ex_object parser" where
  "get_object [] = None"
| "get_object (b # bs) =
     (if b = 0 then do { (s, r) \<leftarrow> get_str bs; Some (EText s, r) }
      else if b = 1 then do { (qs, r) \<leftarrow> get_list (length bs) get_count bs; Some (EElements qs, r) }
      else do { (fs, r) \<leftarrow> get_list (length bs) get_field bs; Some (EFields fs, r) })"

definition put_heap :: "nat \<Rightarrow> ex_object list \<Rightarrow> bytes" where
  "put_heap root os = put_count root @ put_list put_object os"

definition get_heap :: "bytes \<Rightarrow> (nat \<times> ex_object list) option" where
  "get_heap bs = do { (root, r) \<leftarrow> get_count bs; (os, _) \<leftarrow> get_list (length r) get_object r; Some (root, os) }"

lemma get_put_all:
  assumes "\<And>x r. g (p x @ r) = Some (x, r)"
  shows "get_list (length (put_list p xs @ r)) g (put_list p xs @ r) = Some (xs, r)"
  by (rule get_put_list) (simp_all add: assms trans_le_add1 length_put_list)

lemma get_put_count [simp]: "get_count (put_count n @ r) = Some (n, r)"
  unfolding get_count_def put_count_def by (subst get_put_all) simp_all

lemma get_put_field [simp]: "get_field (put_field x @ r) = Some (x, r)"
  by (cases x rule: put_field.cases) simp_all

lemma get_put_object [simp]: "get_object (put_object x @ r) = Some (x, r)"
  using get_put_all [of get_count put_count] get_put_all [of get_field put_field] by (cases x) auto

lemma get_put_heap [simp]: "get_heap (put_heap root os) = Some (root, os)"
  using get_put_all [of get_object put_object os "[]"] by (simp add: get_heap_def put_heap_def)

section \<open>The calls\<close>

type_synonym ex_builder = "ex_object list \<times> (uoffset \<times> (voffset \<times> fb_field) list) option \<times> uoffset"
type_synonym ex_verifier = "bytes \<times> nat \<times> nat"

definition ex_create :: "ex_object \<Rightarrow> ex_builder \<Rightarrow> uoffset \<times> ex_builder" where
  "ex_create obj b = (case b of (os, u, root) \<Rightarrow> (Suc (length os), os @ [obj], None, root))"

definition ex_add :: "voffset \<Rightarrow> fb_field \<Rightarrow> bool \<Rightarrow> ex_builder \<Rightarrow> ex_builder" where
  "ex_add f x skip b =
     (case b of (os, u, root) \<Rightarrow> (os, map_option (\<lambda>(s, fs). (s, if skip then fs else (f, x) # fs)) u, root))"

definition ex_lookup :: "ex_object list \<Rightarrow> nat \<Rightarrow> ex_object option" where
  "ex_lookup os q = (if 0 < q \<and> q \<le> length os then Some (os ! (q - 1)) else None)"

definition ex_at :: "bytes \<Rightarrow> addr \<Rightarrow> ex_object option" where
  "ex_at m p = do { (_, os) \<leftarrow> get_heap m; ex_lookup os p }"

text \<open>Field \<open>f\<close> of the table at \<open>p\<close>, if there is a table.\<close>

definition ex_field :: "bytes \<Rightarrow> addr \<Rightarrow> voffset \<Rightarrow> fb_field option option" where
  "ex_field m p f = (case ex_at m p of Some (EFields fs) \<Rightarrow> Some (map_of fs f) | _ \<Rightarrow> None)"

fun get8 :: "fb_field option option \<Rightarrow> u8 \<Rightarrow> u8 option" where
  "get8 (Some None) d = Some d" | "get8 (Some (Some (Scalar8 x))) d = Some x" | "get8 _ d = None"

fun get16 :: "fb_field option option \<Rightarrow> u16 \<Rightarrow> u16 option" where
  "get16 (Some None) d = Some d" | "get16 (Some (Some (Scalar16 x))) d = Some x" | "get16 _ d = None"

fun get32 :: "fb_field option option \<Rightarrow> u32 \<Rightarrow> u32 option" where
  "get32 (Some None) d = Some d" | "get32 (Some (Some (Scalar32 x))) d = Some x" | "get32 _ d = None"

fun get64 :: "fb_field option option \<Rightarrow> u64 \<Rightarrow> u64 option" where
  "get64 (Some None) d = Some d" | "get64 (Some (Some (Scalar64 x))) d = Some x" | "get64 _ d = None"

fun get_ref :: "fb_field option option \<Rightarrow> addr option option" where
  "get_ref (Some None) = Some None" | "get_ref (Some (Some (Reference q))) = Some (Some q)" | "get_ref _ = None"

definition ex_string :: "bytes \<Rightarrow> addr \<Rightarrow> string option" where
  "ex_string m p = (case ex_at m p of Some (EText s) \<Rightarrow> Some s | _ \<Rightarrow> None)"

definition ex_vector :: "bytes \<Rightarrow> addr \<Rightarrow> addr list option" where
  "ex_vector m p = (case ex_at m p of Some (EElements qs) \<Rightarrow> Some qs | _ \<Rightarrow> None)"

definition ex_test :: "(bytes \<Rightarrow> bool) \<Rightarrow> ex_verifier check" where
  "ex_test P v = Some (P (fst v), v)"

definition ex_buffer :: "string option \<Rightarrow> (addr \<Rightarrow> ex_verifier check) \<Rightarrow> ex_verifier check" where
  "ex_buffer ident c v = (case get_heap (fst v) of None \<Rightarrow> Some (False, v) | Some (root, _) \<Rightarrow> c root v)"

definition example_runtime :: "(ex_builder, ex_verifier) runtime" where
  "example_runtime =
     \<lparr>new_builder = ([], None, 0),
      StartTable = (\<lambda>(os, u, root). (length os, os, Some (length os, []), root)),
      AddElement8 = (\<lambda>f x d. ex_add f (Scalar8 x) (x = d)),
      AddElement16 = (\<lambda>f x d. ex_add f (Scalar16 x) (x = d)),
      AddElement32 = (\<lambda>f x d. ex_add f (Scalar32 x) (x = d)),
      AddElement64 = (\<lambda>f x d. ex_add f (Scalar64 x) (x = d)),
      AddOffset = (\<lambda>f q. ex_add f (Reference q) (q = 0)),
      EndTable_B = (\<lambda>s b. ex_create (EFields (case fst (snd b) of None \<Rightarrow> [] | Some (_, fs) \<Rightarrow> fs)) b),
      CreateString_B = (\<lambda>s. ex_create (EText s)),
      CreateVector_B = (\<lambda>qs. ex_create (EElements qs)),
      Finish_B = (\<lambda>r (os, u, root). (os, u, r)),
      FinishSizePrefixed_B = (\<lambda>r (os, u, root). (os, u, r)),
      GetBuffer = (\<lambda>(os, u, root). put_heap root os),
      GetField8 = (\<lambda>m p f. get8 (ex_field m p f)),
      GetField16 = (\<lambda>m p f. get16 (ex_field m p f)),
      GetField32 = (\<lambda>m p f. get32 (ex_field m p f)),
      GetField64 = (\<lambda>m p f. get64 (ex_field m p f)),
      GetPointer = (\<lambda>m p f. get_ref (ex_field m p f)),
      String_data = ex_string,
      Vector_elements = ex_vector,
      Vector_bytes = (\<lambda>m p. None),
      GetRoot = (\<lambda>m. map_option fst (get_heap m)),
      GetSizePrefixedRoot = (\<lambda>m. map_option fst (get_heap m)),
      Verifier = (\<lambda>m. (m, 0, 0)),
      VerifyTableStart = (\<lambda>p (m, d, n).
        Some (ex_field m p 0 \<noteq> None \<and> d < max_depth \<and> n < max_tables, m, Suc d, Suc n)),
      VerifyField8 = (\<lambda>p f k. ex_test (\<lambda>m. get8 (ex_field m p f) 0 \<noteq> None)),
      VerifyField16 = (\<lambda>p f k. ex_test (\<lambda>m. get16 (ex_field m p f) 0 \<noteq> None)),
      VerifyField32 = (\<lambda>p f k. ex_test (\<lambda>m. get32 (ex_field m p f) 0 \<noteq> None)),
      VerifyField64 = (\<lambda>p f k. ex_test (\<lambda>m. get64 (ex_field m p f) 0 \<noteq> None)),
      VerifyOffset = (\<lambda>p f. ex_test (\<lambda>m. get_ref (ex_field m p f) \<noteq> None)),
      VerifyString = (\<lambda>q. ex_test (\<lambda>m. case q of None \<Rightarrow> True | Some a \<Rightarrow> ex_string m a \<noteq> None)),
      VerifyVector = (\<lambda>q. ex_test (\<lambda>m. case q of None \<Rightarrow> True | Some a \<Rightarrow> ex_vector m a \<noteq> None)),
      VerifyTable = (\<lambda>c q v. case q of None \<Rightarrow> Some (True, v) | Some p \<Rightarrow> c p v),
      VerifyVectorOfTables = (\<lambda>c q v. case q of
          None \<Rightarrow> Some (True, v)
        | Some a \<Rightarrow> (case ex_vector (fst v) a of None \<Rightarrow> Some (False, v) | Some ps \<Rightarrow> all_checks (map c ps) v)),
      EndTable_V = (\<lambda>(m, d, n). Some (True, m, d - 1, n)),
      VerifyBuffer = ex_buffer,
      VerifySizePrefixedBuffer = ex_buffer\<rparr>"

section \<open>Its view\<close>

fun ex_view :: "ex_object \<Rightarrow> fb_object" where
  "ex_view (EText s) = Text s"
| "ex_view (EElements qs) = Elements qs"
| "ex_view (EFields fs) = Fields (map_of fs)"

definition example_view :: "(ex_builder, ex_verifier) fb_view" where
  "example_view =
     \<lparr>finished = (\<lambda>(os, u, root) q. map_option ex_view (ex_lookup os q)),
      under_way = (\<lambda>(os, u, root). map_option (\<lambda>(s, fs). (s, map_of fs)) u),
      buffer_of = fst,
      depth_of = (\<lambda>v. fst (snd v)),
      tables_of = (\<lambda>v. snd (snd v)),
      vtable_ok = (\<lambda>m p. \<forall>f. ex_field m p f \<noteq> None)\<rparr>"

lemmas example_defs = example_runtime_def example_view_def

lemma ex_lookup_create:
  "(\<lambda>q. map_option ex_view (ex_lookup (os @ [obj]) q)) =
     (\<lambda>q. map_option ex_view (ex_lookup os q))(Suc (length os) \<mapsto> ex_view obj)"
  by (rule ext) (auto simp: ex_lookup_def nth_append le_Suc_eq)

lemma ex_makes:
  "finished example_view b = H \<Longrightarrow> makes example_view H (ex_create obj b) (ex_view obj)"
  by (auto simp: makes_def ex_create_def example_view_def ex_lookup_create split: prod.split)
     (simp add: ex_lookup_def)

lemma ex_opened:
  "opened example_view H b s fs \<Longrightarrow> opened example_view H (ex_add f x skip b) s (if skip then fs else fs(f \<mapsto> x))"
  by (cases b) (auto simp: opened_def ex_add_def example_view_def)

lemma ex_end:
  assumes "opened example_view H b s fs"
  shows "makes example_view H (EndTable_B example_runtime s b) (Fields fs)"
proof -
  obtain os root al where "b = (os, Some (s, al), root)" "fs = map_of al"
    using assms by (cases b) (auto simp: opened_def example_view_def)
  then show ?thesis
    using ex_makes [of b H "EFields al"] assms by (simp add: opened_def example_runtime_def)
qed

lemma example_builder_ok: "builder_ok example_runtime example_view"
  unfolding builder_ok_def
proof (intro conjI allI impI, goal_cases)
  case (1)
  show ?case by (auto simp: example_defs ex_lookup_def fun_eq_iff)
next
  case 2
  show ?case by (simp add: example_defs)
next
  case (3 b s b')
  then show ?case by (cases b) (auto simp: opened_def example_defs)
next
  case (8 H b s fs f q)
  then show ?case
    using ex_opened [of H b s fs f "Reference q" "q = 0"] by (simp add: put_reference_def example_runtime_def)
next
  case (9 H b s fs)
  then show ?case by (rule ex_end)
next
  case (10 b s)
  then show ?case using ex_makes [of b _ "EText s"] by (simp add: example_runtime_def)
next
  case (11 b qs)
  then show ?case using ex_makes [of b _ "EElements qs"] by (simp add: example_runtime_def)
qed (use ex_opened in \<open>fastforce simp: put_scalar_def put_reference_def example_runtime_def\<close>)+

section \<open>Verifying and reading\<close>

lemma ex_field_defined: "ex_field m p f \<noteq> None \<longleftrightarrow> (\<exists>fs. ex_at m p = Some (EFields fs))"
  by (auto simp: ex_field_def split: option.splits ex_object.splits)

lemma get_defined:
  "get8 q 0 = Some y \<Longrightarrow> \<exists>z. get8 q d = Some z"
  "get16 q1 0 = Some y1 \<Longrightarrow> \<exists>z. get16 q1 d1 = Some z"
  "get32 q2 0 = Some y2 \<Longrightarrow> \<exists>z. get32 q2 d2 = Some z"
  "get64 q3 0 = Some y3 \<Longrightarrow> \<exists>z. get64 q3 d3 = Some z"
  by (auto elim!: get8.elims get16.elims get32.elims get64.elims)

lemma example_selectors:
  "buffer_of example_view = fst" "depth_of example_view = (\<lambda>v. fst (snd v))"
  "tables_of example_view = (\<lambda>v. snd (snd v))" "vtable_ok example_view m p \<longleftrightarrow> (\<forall>f. ex_field m p f \<noteq> None)"
  by (simp_all add: example_view_def)

lemma example_verifier_ok: "verifier_ok example_runtime example_view"
  unfolding verifier_ok_def
proof (intro conjI allI impI, goal_cases)
  case (4 m p)
  then show ?case
    using ex_field_defined [of m p] by (auto simp: checks_def example_selectors example_runtime_def)
next
  case (16 c a ps v)
  then show ?case by (simp add: example_selectors example_runtime_def)
next
  case (19 c v)
  show ?case
  proof (cases "get_heap (fst v)")
    case None
    then have "VerifyBuffer example_runtime None c v = Some (False, v)"
      by (simp add: example_runtime_def ex_buffer_def)
    then show ?thesis by blast
  next
    case (Some h)
    have "GetRoot example_runtime (buffer_of example_view v) = Some (fst h)
        \<and> VerifyBuffer example_runtime None c v = c (fst h) v"
      using Some by (cases h) (simp add: example_selectors example_runtime_def ex_buffer_def)
    then show ?thesis by blast
  qed
qed (auto simp: example_selectors example_runtime_def passes_def checks_def ex_test_def
    intro: get_defined split: option.split)

lemma example_finished_ok: "finished_ok example_runtime example_view"
  unfolding finished_ok_def Let_def
proof (intro allI impI, goal_cases)
  case (1 b r fs)
  obtain os u root where b: "b = (os, u, root)" by (cases b)
  have m: "GetBuffer example_runtime (Finish_B example_runtime r b) = put_heap r os"
    by (simp add: b example_runtime_def)
  have at: "ex_at (put_heap r os) q = ex_lookup os q" for q by (simp add: ex_at_def)
  have "stored example_runtime example_view (put_heap r os) (\<lambda>q. q) (finished example_view b)"
    unfolding stored_def
  proof (intro allI impI)
    fix q obj
    assume "finished example_view b q = Some obj"
    then obtain x where x: "ex_lookup os q = Some x" "obj = ex_view x"
      by (auto simp: b example_view_def)
    show "object_at example_runtime example_view (put_heap r os) (\<lambda>q. q) q obj"
    proof (cases x)
      case (EFields fs)
      have "ex_field (put_heap r os) q f = Some (map_of fs f)" for f
        by (simp add: ex_field_def at x(1) EFields)
      then show ?thesis
        by (simp add: x EFields table_at_def scalar_at_def keeps_def passes_def example_selectors
            example_runtime_def ex_test_def)
    qed (simp_all add: x(2) keeps_def passes_def example_selectors example_runtime_def ex_test_def
        ex_string_def ex_vector_def at x(1))
  qed
  moreover have "put_heap r os \<noteq> []" by (cases os) (simp_all add: put_heap_def)
  moreover have "GetRoot example_runtime (put_heap r os) = Some r" by (simp add: example_runtime_def)
  moreover have "VerifyBuffer example_runtime None c v = c r v" if "buffer_of example_view v = put_heap r os" for c v
    using that by (simp add: example_selectors example_runtime_def ex_buffer_def)
  ultimately show ?case unfolding m by (intro conjI exI [of _ "\<lambda>q. q"]) (auto simp: passes_def)
qed

lemma example_runtime_ok: "runtime_ok example_runtime example_view"
  by (simp add: runtime_ok_def example_builder_ok example_verifier_ok example_finished_ok)

end
