(* ===== verification/Fb_Properties.thy ===== *)
theory Fb_Properties
  imports Example_Runtime
begin

text \<open>
  The properties of the generated code of \<^verbatim>\<open>messages_generated.h\<close> and of \<^verbatim>\<open>ProtocolUtil.h\<close> over the FlatBuffers
  runtime.
\<close>

definition example_buffer :: bytes where
  "example_buffer =
     BuildMessage_B example_runtime 5 MessagePayload_UserLeftEvent
       (build_payload example_runtime (UserLeftEvent 1001 (Some (UserInfo 3 (Some ''Bob'')))))"

lemma example_buffer_verified: "\<exists>a. VerifiedMessage_B example_runtime example_buffer = Some (Some a)"
  using finished_message [OF example_runtime_ok,
    of "CreateMessage 5 MessagePayload_UserLeftEvent (UserLeftEvent 1001 (Some (UserInfo 3 (Some ''Bob''))))"]
  by (auto simp: example_buffer_def flatbuffers_of_def)

text \<open>
  C10: Whatever bytes arrive, verifying them never leaves the buffer, and if \<^verbatim>\<open>VerifiedMessage\<close> returns a message then
  every accessor of the message, of its payload and of the users, rooms and texts in it can be called: no
  read is outside of the buffer.  The payload is the table its tag announces.
\<close>

theorem verified_message_readable:
  assumes "verifier_ok R V"
  shows "case VerifiedMessage_B R data of
      None \<Rightarrow> False
    | Some None \<Rightarrow> True
    | Some (Some p) \<Rightarrow>
        (\<exists>msg. Message_at R data p = Some msg
           \<and> (case payload msg of None \<Rightarrow> True | Some t \<Rightarrow> payload_type msg = MessagePayloadTraits t))"
proof -
  obtain r where r: "VerifiedMessage_B R data = Some r" "\<forall>p. r = Some p \<longrightarrow> Message_at R data p \<noteq> None"
    using VerifiedMessage_B_safe [OF assms] by blast
  have "payload_type msg = MessagePayloadTraits t"
    if "Message_at R data p = Some msg" "payload msg = Some t" for p msg t
    using that payload_at_tag [of R data p t] by (auto simp: Message_at_def bind_eq_Some_conv)
  then have "case payload msg of None \<Rightarrow> True | Some t \<Rightarrow> payload_type msg = MessagePayloadTraits t"
    if "Message_at R data p = Some msg" for p msg
    using that by (simp split: option.split)
  then show ?thesis using r by (cases r) auto
qed

theorem verified_message_readable_witness:
  "\<exists>a msg. VerifiedMessage_B example_runtime example_buffer = Some (Some a)
     \<and> Message_at example_runtime example_buffer a = Some msg
     \<and> (case payload msg of None \<Rightarrow> True | Some t \<Rightarrow> payload_type msg = MessagePayloadTraits t)"
  using verified_message_readable [OF example_verifier_ok, of example_buffer] example_buffer_verified by auto

text \<open>
  C12: The generated code on a runtime with the documented behaviour: a message built for any buildable
  table is accepted by \<^verbatim>\<open>VerifiedMessage\<close> and its accessors return the request id, the tag and the fields it was built
  from.  Hence \<open>flatbuffers_of R\<close> satisfies \<open>fb_ok\<close>, the hypothesis of the other theories, and their
  \<open>BuildMessage\<close> and \<open>VerifiedMessage\<close> are those of the generated code.
\<close>

theorem generated_code_meets_contract:
  assumes "runtime_ok R V"
  shows "(\<forall>rid p. buildable p \<longrightarrow>
      (let data = BuildMessage_B R rid (MessagePayloadTraits p) (build_payload R p)
       in \<exists>a. VerifiedMessage_B R data = Some (Some a)
            \<and> Message_at R data a = Some (CreateMessage rid (MessagePayloadTraits p) p)))
    \<and> fb_ok (flatbuffers_of R)
    \<and> BuildMessage (flatbuffers_of R) rid ty t = BuildMessage_B R rid ty (build_payload R t)
    \<and> VerifiedMessage (flatbuffers_of R) data =
        (case VerifiedMessage_B R data of Some (Some a) \<Rightarrow> Message_at R data a | _ \<Rightarrow> None)"
proof -
  have build: "BuildMessage (flatbuffers_of R) rid ty t = BuildMessage_B R rid ty (build_payload R t)" for rid ty t
    by (simp add: BuildMessage_def flatbuffers_of_def)
  have "VerifiedMessage (flatbuffers_of R) data =
      (case VerifiedMessage_B R data of Some (Some a) \<Rightarrow> Message_at R data a | _ \<Rightarrow> None)"
    by (auto simp: VerifiedMessage_def VerifiedMessage_B_def flatbuffers_of_def split: option.split)
  moreover have "\<exists>a. VerifiedMessage_B R (BuildMessage_B R rid (MessagePayloadTraits p) (build_payload R p)) = Some (Some a)
      \<and> Message_at R (BuildMessage_B R rid (MessagePayloadTraits p) (build_payload R p)) a =
          Some (CreateMessage rid (MessagePayloadTraits p) p)" if "buildable p" for rid p
    using finished_message [OF assms, of "CreateMessage rid (MessagePayloadTraits p) p"] that
    by (auto simp flip: build simp: BuildMessage_def)
  ultimately show ?thesis using flatbuffers_of_ok [OF assms] build by (simp add: Let_def)
qed

theorem generated_code_meets_contract_witness:
  "\<exists>a. VerifiedMessage_B example_runtime example_buffer = Some (Some a)
     \<and> Message_at example_runtime example_buffer a =
         Some (CreateMessage 5 MessagePayload_UserLeftEvent (UserLeftEvent 1001 (Some (UserInfo 3 (Some ''Bob'')))))"
proof -
  have "buildable (UserLeftEvent 1001 (Some (UserInfo 3 (Some ''Bob''))))" by simp
  then show ?thesis
    using generated_code_meets_contract [OF example_runtime_ok] unfolding example_buffer_def Let_def
    by (metis MessagePayloadTraits.simps(14))
qed

end
