(* ===== verification/Room_System.thy ===== *)
theory Room_System
  imports Night_Prelude
begin

text \<open>
  The server's data (\<^verbatim>\<open>ServerTypes.h\<close>) and the class that owns the sessions and the rooms
  (\<^verbatim>\<open>RoomSystem.h\<close>, \<^verbatim>\<open>RoomSystem.cpp\<close>).  A pointer returned by \<^verbatim>\<open>FindSession\<close> or \<^verbatim>\<open>FindRoom\<close> is an
  \<open>option\<close>; a write through it is \<open>um_modify\<close> at its key, so that it acts on the state at the
  time of the write.  The class invariant \<open>rs_inv\<close> ties the two redundant records of who is
  where (the room id of a session, the member set of a room); \<open>rs_abs\<close> maps a state to the
  single partial function they represent, and every operation is shown to implement its
  one-line specification on it.
\<close>

section \<open>ServerTypes.h\<close>

definition no_room_id :: u32 where "no_room_id = 0"

record SessionState =
  session_id :: u32
  user_id :: u32
  display_name :: string
  room_id :: u32
  logged_in :: bool

record RoomState =
  room_id_R :: u32
  room_name :: string
  members :: "u32 list"

datatype ServerEvent =
    SessionConnectedEvent u32
  | SessionDisconnectedEvent u32
  | InvalidPacketEvent u32 string
  | LoginRequestEvent u32 u32 string
  | RoomListRequestEvent u32 u32
  | JoinRoomRequestEvent u32 u32 u32
  | ChatSendRequestEvent u32 u32 string
  | LeaveRoomRequestEvent u32 u32
  | DisconnectRequestEvent u32 u32

record OutgoingMessage =
  session_id_O :: u32
  payload_O :: bytes

section \<open>RoomSystem\<close>

record RoomSystem =
  sessions :: "(u32, SessionState) umap"
  rooms :: "(u32, RoomState) umap"

definition RoomSystem_init :: "(u32 list \<Rightarrow> u32 list) \<Rightarrow> RoomSystem" where
  "RoomSystem_init rh =
     \<lparr>sessions = [],
      rooms =
        um_emplace rh 1003 \<lparr>room_id_R = 1003, room_name = ''Chat'', members = []\<rparr>
          (um_emplace rh 1002 \<lparr>room_id_R = 1002, room_name = ''Dev'', members = []\<rparr>
            (um_emplace rh 1001 \<lparr>room_id_R = 1001, room_name = ''Lobby'', members = []\<rparr> []))\<rparr>"

definition FindSession :: "u32 \<Rightarrow> RoomSystem \<Rightarrow> SessionState option" where
  "FindSession sid s = um_find (sessions s) sid"

definition FindRoom :: "u32 \<Rightarrow> RoomSystem \<Rightarrow> RoomState option" where
  "FindRoom rid s = um_find (rooms s) rid"

definition AddSession :: "(u32 list \<Rightarrow> u32 list) \<Rightarrow> u32 \<Rightarrow> RoomSystem \<Rightarrow> RoomSystem" where
  "AddSession rh sid s =
     s\<lparr>sessions := um_emplace rh sid
         \<lparr>session_id = sid, user_id = sid, display_name = [], room_id = no_room_id, logged_in = False\<rparr>
         (sessions s)\<rparr>"

definition RemoveSessionFromCurrentRoom :: "u32 \<Rightarrow> RoomSystem \<Rightarrow> RoomSystem" where
  "RemoveSessionFromCurrentRoom sid s =
     (case FindSession sid s of
        None \<Rightarrow> s
      | Some session \<Rightarrow>
          if room_id session = no_room_id then s
          else
            let s1 = (case FindRoom (room_id session) s of
                        None \<Rightarrow> s
                      | Some _ \<Rightarrow>
                          s\<lparr>rooms := um_modify (room_id session)
                              (\<lambda>r. r\<lparr>members := us_erase sid (members r)\<rparr>) (rooms s)\<rparr>)
            in s1\<lparr>sessions := um_modify sid (\<lambda>x. x\<lparr>room_id := no_room_id\<rparr>) (sessions s1)\<rparr>)"

definition RemoveSession :: "u32 \<Rightarrow> RoomSystem \<Rightarrow> RoomSystem" where
  "RemoveSession sid s =
     (let s1 = RemoveSessionFromCurrentRoom sid s
      in s1\<lparr>sessions := um_erase sid (sessions s1)\<rparr>)"

definition MoveSessionToRoom ::
    "(u32 list \<Rightarrow> u32 list) \<Rightarrow> u32 \<Rightarrow> u32 \<Rightarrow> RoomSystem \<Rightarrow> RoomSystem" where
  "MoveSessionToRoom rh sid rid s =
     (case (FindSession sid s, FindRoom rid s) of
        (Some session, Some _) \<Rightarrow>
          let s1 = (if room_id session \<noteq> no_room_id \<and> room_id session \<noteq> rid
                    then RemoveSessionFromCurrentRoom sid s else s);
              s2 = s1\<lparr>rooms := um_modify rid
                       (\<lambda>r. r\<lparr>members := us_insert rh sid (members r)\<rparr>) (rooms s1)\<rparr>
          in s2\<lparr>sessions := um_modify sid (\<lambda>x. x\<lparr>room_id := rid\<rparr>) (sessions s2)\<rparr>
      | _ \<Rightarrow> s)"

definition SetLoggedIn :: "u32 \<Rightarrow> string \<Rightarrow> RoomSystem \<Rightarrow> RoomSystem" where
  "SetLoggedIn sid name s =
     (case FindSession sid s of
        None \<Rightarrow> s
      | Some _ \<Rightarrow>
          s\<lparr>sessions := um_modify sid (\<lambda>x. x\<lparr>logged_in := True, display_name := name\<rparr>)
              (sessions s)\<rparr>)"

definition IsDisplayNameTaken :: "string \<Rightarrow> u32 \<Rightarrow> RoomSystem \<Rightarrow> bool" where
  "IsDisplayNameTaken name except s =
     list_ex (\<lambda>(sid, session). sid \<noteq> except \<and> logged_in session \<and> display_name session = name)
       (sessions s)"

definition GetRoomMembers :: "u32 \<Rightarrow> u32 option \<Rightarrow> RoomSystem \<Rightarrow> SessionState list" where
  "GetRoomMembers rid exclude s =
     (case FindRoom rid s of
        None \<Rightarrow> []
      | Some room \<Rightarrow>
          List.map_filter
            (\<lambda>sid. if exclude = Some sid then None else FindSession sid s)
            (members room))"

definition Rooms :: "RoomSystem \<Rightarrow> (u32, RoomState) umap" where
  "Rooms s = rooms s"

section \<open>The class invariant and the abstract state\<close>

text \<open>Session \<open>sid\<close> is in room \<open>rid\<close>, according to the session and to the room.\<close>

definition in_room :: "RoomSystem \<Rightarrow> u32 \<Rightarrow> u32 \<Rightarrow> bool" where
  "in_room s sid rid =
     (case FindSession sid s of None \<Rightarrow> False | Some x \<Rightarrow> rid \<noteq> no_room_id \<and> room_id x = rid)"

definition member_of :: "RoomSystem \<Rightarrow> u32 \<Rightarrow> u32 \<Rightarrow> bool" where
  "member_of s sid rid =
     (case FindRoom rid s of None \<Rightarrow> False | Some r \<Rightarrow> sid \<in> set (members r))"

definition session_ok :: "u32 \<Rightarrow> SessionState \<Rightarrow> bool" where
  "session_ok sid x \<longleftrightarrow> session_id x = sid \<and> user_id x = sid"

definition room_ok :: "u32 \<Rightarrow> RoomState \<Rightarrow> bool" where
  "room_ok rid r \<longleftrightarrow> room_id_R r = rid \<and> distinct (members r) \<and>
     (rid, room_name r) \<in> {(1001, ''Lobby''), (1002, ''Dev''), (1003, ''Chat'')}"

definition rs_inv :: "RoomSystem \<Rightarrow> bool" where
  "rs_inv s \<longleftrightarrow>
     um_distinct (sessions s) \<and> um_distinct (rooms s) \<and>
     set (um_keys (rooms s)) = {1001, 1002, 1003} \<and>
     (\<forall>sid x. FindSession sid s = Some x \<longrightarrow> session_ok sid x) \<and>
     (\<forall>rid r. FindRoom rid s = Some r \<longrightarrow> room_ok rid r) \<and>
     (\<forall>sid rid. member_of s sid rid \<longleftrightarrow> in_room s sid rid)"

text \<open>
  The abstract state: for each connected session its login name, if it has logged in, and
  its room, if it is in one.
\<close>

type_synonym registry = "u32 \<rightharpoonup> string option \<times> u32 option"

definition session_view :: "SessionState \<Rightarrow> string option \<times> u32 option" where
  "session_view x =
     (if logged_in x then Some (display_name x) else None,
      if room_id x = no_room_id then None else Some (room_id x))"

definition rs_abs :: "RoomSystem \<Rightarrow> registry" where
  "rs_abs s = (\<lambda>sid. map_option session_view (FindSession sid s))"

text \<open>The operations of the abstract state.\<close>

definition reg_add :: "u32 \<Rightarrow> registry \<Rightarrow> registry" where
  "reg_add sid a = (if a sid = None then a(sid \<mapsto> (None, None)) else a)"

definition reg_remove :: "u32 \<Rightarrow> registry \<Rightarrow> registry" where
  "reg_remove sid a = a(sid := None)"

definition reg_leave :: "u32 \<Rightarrow> registry \<Rightarrow> registry" where
  "reg_leave sid a = a(sid := map_option (\<lambda>(n, _). (n, None)) (a sid))"

definition reg_join :: "u32 \<Rightarrow> u32 \<Rightarrow> registry \<Rightarrow> registry" where
  "reg_join sid rid a =
     (if rid \<in> {1001, 1002, 1003}
      then a(sid := map_option (\<lambda>(n, _). (n, Some rid)) (a sid)) else a)"

definition reg_login :: "u32 \<Rightarrow> string \<Rightarrow> registry \<Rightarrow> registry" where
  "reg_login sid name a = a(sid := map_option (\<lambda>(_, r). (Some name, r)) (a sid))"

text \<open>
  What the server promises about its registry: who is in a room has logged in, the room
  exists, and no two sessions share a login name.
\<close>

definition reg_ok :: "registry \<Rightarrow> bool" where
  "reg_ok a \<longleftrightarrow>
     (\<forall>sid n r. a sid = Some (n, Some r) \<longrightarrow> n \<noteq> None \<and> r \<in> {1001, 1002, 1003}) \<and>
     (\<forall>sid n r. a sid = Some (Some n, r) \<longrightarrow> n \<noteq> [] \<and> length n \<le> 32) \<and>
     (\<forall>i j n r q. a i = Some (Some n, r) \<longrightarrow> a j = Some (Some n, q) \<longrightarrow> i = j)"

section \<open>What each operation does to a lookup\<close>

lemma no_room_id_neq [simp]: "1001 \<noteq> no_room_id" "1002 \<noteq> no_room_id" "1003 \<noteq> no_room_id"
  by (simp_all add: no_room_id_def)

lemma FindSession_AddSession [state_simps]:
  "FindSession j (AddSession rh sid s) =
     (if j = sid \<and> FindSession sid s = None
      then Some \<lparr>session_id = sid, user_id = sid, display_name = [], room_id = no_room_id, logged_in = False\<rparr>
      else FindSession j s)"
  by (simp add: FindSession_def AddSession_def um_finds)

lemma FindRoom_AddSession [state_simps]: "FindRoom k (AddSession rh sid s) = FindRoom k s"
  by (simp add: FindRoom_def AddSession_def)

lemma rooms_AddSession [state_simps]: "rooms (AddSession rh sid s) = rooms s"
  by (simp add: AddSession_def)

lemma room_id_idle: "room_id x = no_room_id \<Longrightarrow> x\<lparr>room_id := no_room_id\<rparr> = x"
  by (cases x) simp

lemma FindSession_RemoveFromRoom [state_simps]:
  "FindSession j (RemoveSessionFromCurrentRoom sid s) =
     (if j = sid then map_option (\<lambda>x. x\<lparr>room_id := no_room_id\<rparr>) (FindSession sid s)
      else FindSession j s)"
  by (cases "FindSession sid s")
     (auto simp: RemoveSessionFromCurrentRoom_def FindSession_def um_finds room_id_idle Let_def
           split: option.splits)

lemma FindRoom_RemoveFromRoom [state_simps]:
  "FindRoom k (RemoveSessionFromCurrentRoom sid s) =
     map_option (\<lambda>r. if in_room s sid k then r\<lparr>members := us_erase sid (members r)\<rparr> else r)
       (FindRoom k s)"
  by (cases "FindSession sid s"; cases "um_find (rooms s) k")
     (auto simp: RemoveSessionFromCurrentRoom_def in_room_def FindRoom_def um_finds Let_def
           split: option.splits)

lemma keys_RemoveFromRoom [state_simps]:
  "um_keys (rooms (RemoveSessionFromCurrentRoom sid s)) = um_keys (rooms s)"
  "um_keys (sessions (RemoveSessionFromCurrentRoom sid s)) = um_keys (sessions s)"
  by (auto simp: RemoveSessionFromCurrentRoom_def Let_def split: option.splits)

lemma FindSession_RemoveSession [state_simps]:
  "FindSession j (RemoveSession sid s) = (if j = sid then None else FindSession j s)"
  using FindSession_RemoveFromRoom [of j sid s]
  by (simp add: RemoveSession_def FindSession_def Let_def um_finds)

lemma FindRoom_RemoveSession [state_simps]:
  "FindRoom k (RemoveSession sid s) = FindRoom k (RemoveSessionFromCurrentRoom sid s)"
  by (simp add: RemoveSession_def FindRoom_def Let_def)

lemma RemoveSession_absent: "FindSession sid s = None \<Longrightarrow> RemoveSession sid s = s"
  by (simp add: RemoveSession_def RemoveSessionFromCurrentRoom_def um_erase_absent FindSession_def)

lemma FindSession_Move [state_simps]:
  "FindSession j (MoveSessionToRoom rh sid rid s) =
     (if j = sid \<and> FindRoom rid s \<noteq> None
      then map_option (\<lambda>x. x\<lparr>room_id := rid\<rparr>) (FindSession sid s) else FindSession j s)"
  using FindSession_RemoveFromRoom [of j sid s] FindSession_RemoveFromRoom [of sid sid s]
  by (cases "FindSession sid s"; cases "FindRoom rid s")
     (auto simp: MoveSessionToRoom_def FindSession_def Let_def um_finds)

lemma FindRoom_Move [state_simps]:
  "FindRoom k (MoveSessionToRoom rh sid rid s) =
     (if FindSession sid s = None \<or> FindRoom rid s = None then FindRoom k s
      else map_option
        (\<lambda>r. if k = rid then r\<lparr>members := us_insert rh sid (members r)\<rparr>
             else if in_room s sid k then r\<lparr>members := us_erase sid (members r)\<rparr> else r)
        (FindRoom k s))"
  using FindRoom_RemoveFromRoom [of k sid s]
  by (cases "FindSession sid s"; cases "FindRoom rid s"; cases "um_find (rooms s) k")
     (auto simp: MoveSessionToRoom_def FindRoom_def Let_def um_finds in_room_def
           split: option.splits)

lemma keys_Move [state_simps]:
  "um_keys (rooms (MoveSessionToRoom rh sid rid s)) = um_keys (rooms s)"
  "um_keys (sessions (MoveSessionToRoom rh sid rid s)) = um_keys (sessions s)"
  by (auto simp: MoveSessionToRoom_def Let_def keys_RemoveFromRoom split: option.splits)

lemma FindSession_SetLoggedIn [state_simps]:
  "FindSession j (SetLoggedIn sid name s) =
     (if j = sid then map_option (\<lambda>x. x\<lparr>logged_in := True, display_name := name\<rparr>) (FindSession sid s)
      else FindSession j s)"
  by (cases "FindSession sid s") (auto simp: SetLoggedIn_def FindSession_def um_finds)

lemma FindRoom_SetLoggedIn [state_simps]: "FindRoom k (SetLoggedIn sid name s) = FindRoom k s"
  by (auto simp: SetLoggedIn_def FindRoom_def split: option.splits)

lemma rooms_SetLoggedIn [state_simps]: "rooms (SetLoggedIn sid name s) = rooms s"
  by (auto simp: SetLoggedIn_def split: option.splits)

lemma keys_SetLoggedIn [state_simps]: "um_keys (sessions (SetLoggedIn sid name s)) = um_keys (sessions s)"
  by (auto simp: SetLoggedIn_def split: option.splits)

section \<open>Who is where, after each operation\<close>

lemma in_room_iff:
  "in_room s sid rid \<longleftrightarrow> (\<exists>x. FindSession sid s = Some x \<and> rid \<noteq> no_room_id \<and> room_id x = rid)"
  by (auto simp: in_room_def split: option.splits)

lemma in_room_AddSession [state_simps]: "in_room (AddSession rh sid s) j k = in_room s j k"
  by (auto simp: in_room_def state_simps split: option.splits)

lemma member_of_AddSession [state_simps]: "member_of (AddSession rh sid s) j k = member_of s j k"
  by (simp add: member_of_def state_simps)

lemma in_room_RemoveFromRoom [state_simps]:
  "in_room (RemoveSessionFromCurrentRoom sid s) j k \<longleftrightarrow> j \<noteq> sid \<and> in_room s j k"
  by (auto simp: in_room_def state_simps split: option.splits)

lemma member_of_RemoveFromRoom [state_simps]:
  "member_of (RemoveSessionFromCurrentRoom sid s) j k \<longleftrightarrow>
     member_of s j k \<and> \<not> (j = sid \<and> in_room s sid k)"
  by (auto simp: member_of_def state_simps split: option.splits)

lemma in_room_RemoveSession [state_simps]:
  "in_room (RemoveSession sid s) j k \<longleftrightarrow> j \<noteq> sid \<and> in_room s j k"
  by (auto simp: in_room_def state_simps split: option.splits)

lemma member_of_RemoveSession [state_simps]:
  "member_of (RemoveSession sid s) j k = member_of (RemoveSessionFromCurrentRoom sid s) j k"
  by (simp add: member_of_def state_simps)

lemma in_room_Move:
  assumes "FindSession sid s \<noteq> None" and "FindRoom rid s \<noteq> None"
  shows "in_room (MoveSessionToRoom rh sid rid s) j k \<longleftrightarrow>
     (if j = sid then k = rid \<and> rid \<noteq> no_room_id else in_room s j k)"
  using assms by (auto simp: in_room_def state_simps split: option.splits)

lemma member_of_Move:
  assumes "FindSession sid s \<noteq> None" and "FindRoom rid s \<noteq> None"
  shows "member_of (MoveSessionToRoom rh sid rid s) j k \<longleftrightarrow>
     (if j = sid then k = rid \<or> member_of s sid k \<and> \<not> in_room s sid k else member_of s j k)"
  using assms by (auto simp: member_of_def state_simps split: option.splits)

lemma Move_absent:
  "FindSession sid s = None \<or> FindRoom rid s = None \<Longrightarrow> MoveSessionToRoom rh sid rid s = s"
  by (auto simp: MoveSessionToRoom_def split: option.splits)

lemma in_room_SetLoggedIn [state_simps]: "in_room (SetLoggedIn sid name s) j k = in_room s j k"
  by (auto simp: in_room_def state_simps split: option.splits)

lemma member_of_SetLoggedIn [state_simps]: "member_of (SetLoggedIn sid name s) j k = member_of s j k"
  by (simp add: member_of_def state_simps)

section \<open>Every operation keeps the invariant\<close>

lemma rs_invI:
  assumes "um_distinct (sessions s)" and "um_distinct (rooms s)"
    and "set (um_keys (rooms s)) = {1001, 1002, 1003}"
    and "\<And>sid x. FindSession sid s = Some x \<Longrightarrow> session_ok sid x"
    and "\<And>rid r. FindRoom rid s = Some r \<Longrightarrow> room_ok rid r"
    and "\<And>sid rid. member_of s sid rid = in_room s sid rid"
  shows "rs_inv s"
  using assms by (simp add: rs_inv_def)

lemma rs_invD:
  assumes "rs_inv s"
  shows "um_distinct (sessions s)" "um_distinct (rooms s)"
    "set (um_keys (rooms s)) = {1001, 1002, 1003}"
    "FindSession sid s = Some x \<Longrightarrow> session_ok sid x"
    "FindRoom rid s = Some r \<Longrightarrow> room_ok rid r"
    "member_of s sid rid = in_room s sid rid"
  using assms by (simp_all add: rs_inv_def)

lemma FindRoom_iff: "rs_inv s \<Longrightarrow> FindRoom rid s \<noteq> None \<longleftrightarrow> rid \<in> {1001, 1002, 1003}"
  using rs_invD(3) [of s] um_find_None_iff [of "rooms s" rid] by (simp add: FindRoom_def)

lemma FindRoom_nonzero: "rs_inv s \<Longrightarrow> FindRoom rid s \<noteq> None \<Longrightarrow> rid \<noteq> no_room_id"
  using FindRoom_iff [of s rid] by (auto simp: no_room_id_def)

lemma room_ok_members:
  "room_ok rid r \<Longrightarrow> distinct ms \<Longrightarrow> room_ok rid (r\<lparr>members := ms\<rparr>)"
  by (simp add: room_ok_def)

lemma rs_inv_init [inv_intros]: "rs_inv (RoomSystem_init rh)"
proof (rule rs_invI)
  fix rid r
  show "FindRoom rid (RoomSystem_init rh) = Some r \<Longrightarrow> room_ok rid r"
    by (auto simp: FindRoom_def RoomSystem_init_def um_finds room_ok_def split: if_splits)
next
  fix sid rid
  show "member_of (RoomSystem_init rh) sid rid = in_room (RoomSystem_init rh) sid rid"
    by (auto simp: member_of_def in_room_def FindRoom_def FindSession_def RoomSystem_init_def um_finds
             split: if_splits option.splits)
qed (auto simp: RoomSystem_init_def FindSession_def um_keys_def [of "[]"])

lemma rs_inv_AddSession [inv_intros]: "rs_inv s \<Longrightarrow> rs_inv (AddSession rh sid s)"
  by (rule rs_invI)
     (auto simp: rs_invD state_simps session_ok_def split: if_splits
           dest: rs_invD(4) rs_invD(5), simp add: AddSession_def rs_invD)

lemma rs_inv_RemoveFromRoom [inv_intros]:
  assumes "rs_inv s"
  shows "rs_inv (RemoveSessionFromCurrentRoom sid s)"
proof (rule rs_invI)
  fix j x
  assume "FindSession j (RemoveSessionFromCurrentRoom sid s) = Some x"
  then show "session_ok j x"
    using rs_invD(4) [OF assms, of j] by (auto simp: state_simps session_ok_def split: if_splits)
next
  fix k r
  assume "FindRoom k (RemoveSessionFromCurrentRoom sid s) = Some r"
  then show "room_ok k r"
    using rs_invD(5) [OF assms, of k] by (auto simp: state_simps room_ok_def split: if_splits)
qed (use rs_invD [OF assms] in \<open>auto simp: state_simps um_distinct_def\<close>)

lemma rs_inv_RemoveSession [inv_intros]:
  assumes "rs_inv s"
  shows "rs_inv (RemoveSession sid s)"
proof (rule rs_invI)
  have r: "rs_inv (RemoveSessionFromCurrentRoom sid s)"
    by (rule rs_inv_RemoveFromRoom [OF assms])
  show "um_distinct (sessions (RemoveSession sid s))"
    using rs_invD(1) [OF r] by (simp add: RemoveSession_def Let_def)
  show "um_distinct (rooms (RemoveSession sid s))" "set (um_keys (rooms (RemoveSession sid s))) = {1001, 1002, 1003}"
    using rs_invD(2,3) [OF r] by (simp_all add: RemoveSession_def Let_def)
  show "FindRoom k (RemoveSession sid s) = Some q \<Longrightarrow> room_ok k q" for k q
    using rs_invD(5) [OF r, of k q] by (simp add: FindRoom_RemoveSession)
qed (use rs_invD [OF assms] in \<open>auto simp: state_simps split: if_splits\<close>)

lemma rs_inv_Move [inv_intros]:
  assumes "rs_inv s"
  shows "rs_inv (MoveSessionToRoom rh sid rid s)"
proof (cases "FindSession sid s = None \<or> FindRoom rid s = None")
  case True
  then show ?thesis using assms by (simp add: Move_absent)
next
  case False
  then have rid: "rid \<noteq> no_room_id"
    using FindRoom_iff [OF assms, of rid] by (auto simp: no_room_id_def)
  show ?thesis
  proof (rule rs_invI)
    fix j x
    assume "FindSession j (MoveSessionToRoom rh sid rid s) = Some x"
    then show "session_ok j x"
      using rs_invD(4) [OF assms, of j] by (auto simp: state_simps session_ok_def split: if_splits)
  next
    fix k r
    assume "FindRoom k (MoveSessionToRoom rh sid rid s) = Some r"
    then show "room_ok k r"
      using rs_invD(5) [OF assms, of k] False by (auto simp: state_simps room_ok_def split: if_splits)
  next
    fix j k
    show "member_of (MoveSessionToRoom rh sid rid s) j k = in_room (MoveSessionToRoom rh sid rid s) j k"
      using False rid rs_invD(6) [OF assms] by (simp add: in_room_Move member_of_Move)
  qed (use rs_invD [OF assms] in \<open>auto simp: state_simps um_distinct_def\<close>)
qed

lemma rs_inv_SetLoggedIn [inv_intros]:
  assumes "rs_inv s"
  shows "rs_inv (SetLoggedIn sid name s)"
proof (rule rs_invI)
  fix j x
  assume "FindSession j (SetLoggedIn sid name s) = Some x"
  then show "session_ok j x"
    using rs_invD(4) [OF assms, of j] by (auto simp: state_simps session_ok_def split: if_splits)
qed (use rs_invD [OF assms] in \<open>auto simp: state_simps um_distinct_def\<close>)

section \<open>Queries\<close>

lemma IsDisplayNameTaken_iff:
  assumes "um_distinct (sessions s)"
  shows "IsDisplayNameTaken name except s \<longleftrightarrow>
     (\<exists>sid x. sid \<noteq> except \<and> FindSession sid s = Some x \<and> logged_in x \<and> display_name x = name)"
  using um_find_in_set [OF assms]
  by (auto simp: IsDisplayNameTaken_def FindSession_def list_ex_iff split: prod.splits; blast)

lemma GetRoomMembers_None: "FindRoom rid s = None \<Longrightarrow> GetRoomMembers rid ex s = []"
  by (simp add: GetRoomMembers_def)

lemma member_session:
  assumes "rs_inv s" and "FindRoom rid s = Some r" and "sid \<in> set (members r)"
  shows "\<exists>x. FindSession sid s = Some x \<and> session_id x = sid \<and> room_id x = rid"
proof -
  have "member_of s sid rid" using assms by (simp add: member_of_def)
  then have "in_room s sid rid" using rs_invD(6) [OF assms(1)] by simp
  then show ?thesis
    using rs_invD(4) [OF assms(1)] by (auto simp: in_room_def session_ok_def split: option.splits)
qed

lemma map_filter_known:
  assumes "\<And>x. x \<in> set xs \<Longrightarrow> P x \<Longrightarrow> \<exists>y. f x = Some y"
  shows "List.map_filter (\<lambda>x. if P x then f x else None) xs = map (\<lambda>x. the (f x)) (filter P xs)"
  using assms by (induction xs) (fastforce simp: List.map_filter_simps)+

lemma GetRoomMembers_eq:
  assumes "rs_inv s" and "FindRoom rid s = Some r"
  shows "GetRoomMembers rid ex s =
     map (\<lambda>sid. the (FindSession sid s)) (filter (\<lambda>sid. ex \<noteq> Some sid) (members r))"
proof -
  have "GetRoomMembers rid ex s =
      List.map_filter (\<lambda>sid. if ex \<noteq> Some sid then FindSession sid s else None) (members r)"
    using assms(2) by (simp add: GetRoomMembers_def if_distrib cong: if_cong)
      (rule arg_cong2 [where f = List.map_filter], auto)
  also have "\<dots> = map (\<lambda>sid. the (FindSession sid s)) (filter (\<lambda>sid. ex \<noteq> Some sid) (members r))"
    by (rule map_filter_known) (use member_session [OF assms] in blast)
  finally show ?thesis .
qed

text \<open>The sessions returned are those of the room, each once, in the order of the member set.\<close>

lemma GetRoomMembers_ids:
  assumes "rs_inv s" and "FindRoom rid s = Some r"
  shows "map session_id (GetRoomMembers rid ex s) = filter (\<lambda>sid. ex \<noteq> Some sid) (members r)"
proof -
  have "session_id (the (FindSession sid s)) = sid" if "sid \<in> set (members r)" for sid
    using member_session [OF assms that] by auto
  then show ?thesis
    by (auto simp: GetRoomMembers_eq [OF assms] comp_def intro!: map_idI)
qed

lemma GetRoomMembers_in_set:
  assumes "rs_inv s"
  shows "x \<in> set (GetRoomMembers rid ex s) \<longleftrightarrow>
     (\<exists>sid. FindSession sid s = Some x \<and> rid \<noteq> no_room_id \<and> room_id x = rid \<and> ex \<noteq> Some sid)"
proof (cases "FindRoom rid s")
  case None
  then have "\<not> member_of s sid rid" for sid by (simp add: member_of_def)
  then have "\<not> in_room s sid rid" for sid using rs_invD(6) [OF assms] by simp
  then show ?thesis
    using None by (auto simp: GetRoomMembers_None in_room_iff)
next
  case (Some r)
  then have m: "sid \<in> set (members r) \<longleftrightarrow> in_room s sid rid" for sid
    using rs_invD(6) [OF assms, of sid rid] by (simp add: member_of_def)
  then show ?thesis
    by (auto simp: GetRoomMembers_eq [OF assms Some] in_room_def image_iff split: option.splits)
qed

lemma GetRoomMembers_distinct:
  assumes "rs_inv s"
  shows "distinct (map session_id (GetRoomMembers rid ex s))"
proof (cases "FindRoom rid s")
  case None
  then show ?thesis by (simp add: GetRoomMembers_None)
next
  case (Some r)
  then show ?thesis
    using rs_invD(5) [OF assms Some] by (simp add: GetRoomMembers_ids [OF assms Some] room_ok_def)
qed

section \<open>The operations implement their abstract specification\<close>

lemma rs_abs_init: "rs_abs (RoomSystem_init rh) = Map.empty"
  by (simp add: rs_abs_def FindSession_def RoomSystem_init_def)

lemma rs_abs_AddSession: "rs_abs (AddSession rh sid s) = reg_add sid (rs_abs s)"
  by (rule ext) (auto simp: rs_abs_def reg_add_def state_simps session_view_def)

lemma rs_abs_RemoveSession: "rs_abs (RemoveSession sid s) = reg_remove sid (rs_abs s)"
  by (rule ext) (auto simp: rs_abs_def reg_remove_def state_simps)

lemma rs_abs_RemoveFromRoom: "rs_abs (RemoveSessionFromCurrentRoom sid s) = reg_leave sid (rs_abs s)"
  by (rule ext, cases "FindSession sid s")
     (auto simp: rs_abs_def reg_leave_def state_simps session_view_def)

lemma rs_abs_Move:
  "rs_inv s \<Longrightarrow> rs_abs (MoveSessionToRoom rh sid rid s) = reg_join sid rid (rs_abs s)"
  using FindRoom_iff [of s rid]
  by (intro ext, cases "FindSession sid s")
     (auto simp: rs_abs_def reg_join_def state_simps session_view_def)

lemma rs_abs_SetLoggedIn: "rs_abs (SetLoggedIn sid name s) = reg_login sid name (rs_abs s)"
  by (rule ext, cases "FindSession sid s")
     (auto simp: rs_abs_def reg_login_def state_simps session_view_def)

text \<open>
  The interface the game logic relies on: a registry with these five operations and their
  meaning on the abstract state.  What the game logic needs of it is proved from the laws
  alone.
\<close>

locale room_registry =
  fixes abs :: "'s \<Rightarrow> registry"
    and invar :: "'s \<Rightarrow> bool"
    and add remove leave :: "u32 \<Rightarrow> 's \<Rightarrow> 's"
    and join :: "u32 \<Rightarrow> u32 \<Rightarrow> 's \<Rightarrow> 's"
    and login :: "u32 \<Rightarrow> string \<Rightarrow> 's \<Rightarrow> 's"
  assumes abs_add: "invar s \<Longrightarrow> abs (add sid s) = reg_add sid (abs s)"
    and abs_remove: "invar s \<Longrightarrow> abs (remove sid s) = reg_remove sid (abs s)"
    and abs_leave: "invar s \<Longrightarrow> abs (leave sid s) = reg_leave sid (abs s)"
    and abs_join: "invar s \<Longrightarrow> abs (join sid rid s) = reg_join sid rid (abs s)"
    and abs_login: "invar s \<Longrightarrow> abs (login sid name s) = reg_login sid name (abs s)"
    and invar_add: "invar s \<Longrightarrow> invar (add sid s)"
    and invar_remove: "invar s \<Longrightarrow> invar (remove sid s)"
    and invar_leave: "invar s \<Longrightarrow> invar (leave sid s)"
    and invar_join: "invar s \<Longrightarrow> invar (join sid rid s)"
    and invar_login: "invar s \<Longrightarrow> invar (login sid name s)"
begin

lemma ok_add: "invar s \<Longrightarrow> reg_ok (abs s) \<Longrightarrow> reg_ok (abs (add sid s))"
  by (auto simp: abs_add reg_add_def reg_ok_def split: if_splits)

lemma ok_remove: "invar s \<Longrightarrow> reg_ok (abs s) \<Longrightarrow> reg_ok (abs (remove sid s))"
  unfolding reg_ok_def by (auto simp: abs_remove reg_remove_def split: if_splits)

lemma ok_leave: "invar s \<Longrightarrow> reg_ok (abs s) \<Longrightarrow> reg_ok (abs (leave sid s))"
  unfolding reg_ok_def by (fastforce simp: abs_leave reg_leave_def split: if_splits)

lemma ok_join:
  assumes "invar s" and "reg_ok (abs s)" and "abs s sid = Some (Some n, r)"
  shows "reg_ok (abs (join sid rid s))"
  using assms unfolding reg_ok_def
  by (auto simp: abs_join reg_join_def split: if_splits; metis)

lemma ok_login:
  assumes "invar s" and "reg_ok (abs s)" and "name \<noteq> []" and "length name \<le> 32"
    and "\<And>j r. j \<noteq> sid \<Longrightarrow> abs s j \<noteq> Some (Some name, r)"
  shows "reg_ok (abs (login sid name s))"
  using assms unfolding reg_ok_def
  by (auto simp: abs_login reg_login_def split: if_splits; metis)

end

interpretation rs: room_registry rs_abs rs_inv "AddSession rh" RemoveSession
    RemoveSessionFromCurrentRoom "MoveSessionToRoom rh" SetLoggedIn
  for rh :: "u32 list \<Rightarrow> u32 list"
  by unfold_locales
     (simp_all add: rs_abs_AddSession rs_abs_RemoveSession rs_abs_RemoveFromRoom rs_abs_Move
        rs_abs_SetLoggedIn inv_intros)

end
