(* ===== verification/Game_Logic.thy ===== *)
theory Game_Logic
  imports Night_Protocol Room_System
begin

text \<open>
  The chat logic of the server (\<^verbatim>\<open>GameLogicSystem.h\<close>, \<^verbatim>\<open>GameLogicSystem.cpp\<close>): one definition per
  handler and per queue function, in the order and with the early returns of the code.

  A handler takes the environment \<open>env\<close> (the FlatBuffers runtime, the values of successive
  reads of the system clock, the iteration order of the unordered containers) and the state.
  Where the code dereferences a pointer without a test, a null pointer is the result \<open>None\<close>;
  that it never happens is a theorem.  The console output (\<^verbatim>\<open>std::println\<close>) is left out.
\<close>

section \<open>State and environment\<close>

record env =
  fb :: flatbuffers
  now_ms :: "nat \<Rightarrow> u64"
  iter_order :: "u32 list \<Rightarrow> u32 list"

record GameLogicSystem =
  room_system :: RoomSystem
  outgoing_messages :: "OutgoingMessage list"
  pending_disconnects :: "u32 list"
  clock_reads :: nat

definition GameLogicSystem_init :: "RoomSystem \<Rightarrow> GameLogicSystem" where
  "GameLogicSystem_init rs =
     \<lparr>room_system = rs, outgoing_messages = [], pending_disconnects = [], clock_reads = 0\<rparr>"

text \<open>The \<open>clock_reads\<close>-th value of the clock.\<close>

definition CurrentTimestampMs :: "env \<Rightarrow> GameLogicSystem \<Rightarrow> u64 \<times> GameLogicSystem" where
  "CurrentTimestampMs E g = (now_ms E (clock_reads g), g\<lparr>clock_reads := Suc (clock_reads g)\<rparr>)"

definition max_display_name_bytes :: nat where "max_display_name_bytes = 32"
definition max_chat_message_bytes :: nat where "max_chat_message_bytes = 512"
definition max_protocol_payload_bytes :: nat where "max_protocol_payload_bytes = 2048"

text \<open>The Korean texts of the system messages, in UTF-8.\<close>

definition text_entered :: string where
  "text_entered = map char_of [0x20, 0xEB, 0xB0, 0xA9, 0xEC, 0x97, 0x90, 0x20, 0xEC, 0x9E, 0x85, 0xEC, 0x9E, 0xA5, 0xED, 0x96,
     0x88, 0xEC, 0x8A, 0xB5, 0xEB, 0x8B, 0x88, 0xEB, 0x8B, 0xA4, 0x2E :: nat]"

definition text_join_first :: string where
  "text_join_first = map char_of [0xEC, 0xB1, 0x84, 0xED, 0x8C, 0x85, 0xEC, 0x9D, 0x84, 0x20, 0xEB, 0xB3, 0xB4, 0xEB, 0x82, 0xB4,
     0xEA, 0xB8, 0xB0, 0x20, 0xEC, 0xA0, 0x84, 0xEC, 0x97, 0x90, 0x20, 0xEB, 0xA8, 0xBC, 0xEC, 0xA0,
     0x80, 0x20, 0xEB, 0xB0, 0xA9, 0xEC, 0x97, 0x90, 0x20, 0xEC, 0x9E, 0x85, 0xEC, 0x9E, 0xA5, 0xED,
     0x95, 0xB4, 0xEC, 0x95, 0xBC, 0x20, 0xED, 0x95, 0xA9, 0xEB, 0x8B, 0x88, 0xEB, 0x8B, 0xA4, 0x2E :: nat]"

definition text_empty_message :: string where
  "text_empty_message = map char_of [0xEB, 0xB9, 0x88, 0x20, 0xEB, 0xA9, 0x94, 0xEC, 0x8B, 0x9C, 0xEC, 0xA7, 0x80, 0xEB, 0x8A, 0x94,
     0x20, 0xEC, 0xA0, 0x84, 0xEC, 0x86, 0xA1, 0xED, 0x95, 0xA0, 0x20, 0xEC, 0x88, 0x98, 0x20, 0xEC,
     0x97, 0x86, 0xEC, 0x8A, 0xB5, 0xEB, 0x8B, 0x88, 0xEB, 0x8B, 0xA4, 0x2E :: nat]"

definition text_too_long :: string where
  "text_too_long = map char_of [0xEB, 0xA9, 0x94, 0xEC, 0x8B, 0x9C, 0xEC, 0xA7, 0x80, 0xEA, 0xB0, 0x80, 0x20, 0xEB, 0x84, 0x88,
     0xEB, 0xAC, 0xB4, 0x20, 0xEA, 0xB9, 0x81, 0xEB, 0x8B, 0x88, 0xEB, 0x8B, 0xA4, 0x2E :: nat]"

definition text_left :: string where
  "text_left = map char_of [0xEB, 0xB0, 0xA9, 0xEC, 0x97, 0x90, 0xEC, 0x84, 0x9C, 0x20, 0xED, 0x87, 0xB4, 0xEC, 0x9E, 0xA5,
     0xED, 0x96, 0x88, 0xEC, 0x8A, 0xB5, 0xEB, 0x8B, 0x88, 0xEB, 0x8B, 0xA4, 0x2E :: nat]"

section \<open>Queueing messages\<close>

definition BuildUserInfo :: "SessionState \<Rightarrow> UserInfo" where
  "BuildUserInfo session = CreateUserInfoDirect (user_id session) (c_str (display_name session))"

definition BuildRoomInfo :: "RoomState \<Rightarrow> RoomInfo" where
  "BuildRoomInfo room =
     CreateRoomInfoDirect (room_id_R room) (c_str (room_name room)) (of_nat (length (members room)))"

definition QueueMessage :: "u32 \<Rightarrow> bytes \<Rightarrow> GameLogicSystem \<Rightarrow> GameLogicSystem" where
  "QueueMessage sid p g =
     (if p = [] \<or> max_protocol_payload_bytes < length p then g
      else g\<lparr>outgoing_messages := outgoing_messages g @ [\<lparr>session_id_O = sid, payload_O = p\<rparr>]\<rparr>)"

definition QueueLoginResponse ::
    "env \<Rightarrow> u32 \<Rightarrow> u32 \<Rightarrow> bool \<Rightarrow> ErrorCode \<Rightarrow> SessionState option \<Rightarrow> GameLogicSystem \<Rightarrow> GameLogicSystem" where
  "QueueLoginResponse E sid req success ec session g =
     QueueMessage sid
       (BuildMessage (fb E) req MessagePayload_LoginResponse
          (CreateLoginResponse success ec (if success then map_option BuildUserInfo session else None))) g"

definition QueueRoomListResponse :: "env \<Rightarrow> u32 \<Rightarrow> u32 \<Rightarrow> GameLogicSystem \<Rightarrow> GameLogicSystem" where
  "QueueRoomListResponse E sid req g =
     QueueMessage sid
       (BuildMessage (fb E) req MessagePayload_RoomListResponse
          (CreateRoomListResponseDirect
             (map (\<lambda>(_, room). BuildRoomInfo room) (Rooms (room_system g))))) g"

definition QueueJoinRoomResponse ::
    "env \<Rightarrow> u32 \<Rightarrow> u32 \<Rightarrow> bool \<Rightarrow> ErrorCode \<Rightarrow> RoomState option \<Rightarrow> GameLogicSystem \<Rightarrow> GameLogicSystem" where
  "QueueJoinRoomResponse E sid req success ec room g =
     QueueMessage sid
       (BuildMessage (fb E) req MessagePayload_JoinRoomResponse
          (CreateJoinRoomResponse success ec (if success then map_option BuildRoomInfo room else None))) g"

definition QueueLeaveRoomResponse ::
    "env \<Rightarrow> u32 \<Rightarrow> u32 \<Rightarrow> bool \<Rightarrow> ErrorCode \<Rightarrow> GameLogicSystem \<Rightarrow> GameLogicSystem" where
  "QueueLeaveRoomResponse E sid req success ec g =
     QueueMessage sid
       (BuildMessage (fb E) req MessagePayload_LeaveRoomResponse (CreateLeaveRoomResponse success ec)) g"

definition QueueDisconnectResponse ::
    "env \<Rightarrow> u32 \<Rightarrow> u32 \<Rightarrow> bool \<Rightarrow> ErrorCode \<Rightarrow> GameLogicSystem \<Rightarrow> GameLogicSystem" where
  "QueueDisconnectResponse E sid req success ec g =
     QueueMessage sid
       (BuildMessage (fb E) req MessagePayload_DisconnectResponse (CreateDisconnectResponse success ec)) g"

definition QueueChatBroadcast ::
    "env \<Rightarrow> u32 \<Rightarrow> u32 \<Rightarrow> SessionState \<Rightarrow> string \<Rightarrow> GameLogicSystem \<Rightarrow> GameLogicSystem" where
  "QueueChatBroadcast E sid rid sender content g =
     (let (ts, g1) = CurrentTimestampMs E g
      in QueueMessage sid
           (BuildMessage (fb E) 0 MessagePayload_ChatBroadcast
              (CreateChatBroadcastDirect rid (user_id sender) (c_str (display_name sender))
                 (c_str content) ts)) g1)"

definition QueueUserJoinedEvent ::
    "env \<Rightarrow> u32 \<Rightarrow> u32 \<Rightarrow> SessionState \<Rightarrow> GameLogicSystem \<Rightarrow> GameLogicSystem" where
  "QueueUserJoinedEvent E sid rid joined_user g =
     QueueMessage sid
       (BuildMessage (fb E) 0 MessagePayload_UserJoinedEvent
          (CreateUserJoinedEvent rid (Some (BuildUserInfo joined_user)))) g"

definition QueueUserLeftEvent ::
    "env \<Rightarrow> u32 \<Rightarrow> u32 \<Rightarrow> SessionState \<Rightarrow> GameLogicSystem \<Rightarrow> GameLogicSystem" where
  "QueueUserLeftEvent E sid rid left_user g =
     QueueMessage sid
       (BuildMessage (fb E) 0 MessagePayload_UserLeftEvent
          (CreateUserLeftEvent rid (Some (BuildUserInfo left_user)))) g"

definition QueueSystemMessage :: "env \<Rightarrow> u32 \<Rightarrow> u32 \<Rightarrow> string \<Rightarrow> GameLogicSystem \<Rightarrow> GameLogicSystem" where
  "QueueSystemMessage E sid rid content g =
     QueueMessage sid
       (BuildMessage (fb E) 0 MessagePayload_SystemMessageEvent
          (CreateSystemMessageEventDirect rid (c_str content))) g"

definition NotifyRoomLeave :: "env \<Rightarrow> SessionState \<Rightarrow> GameLogicSystem \<Rightarrow> GameLogicSystem" where
  "NotifyRoomLeave E session g =
     (if room_id session = no_room_id \<or> \<not> logged_in session then g
      else fold (\<lambda>m. QueueUserLeftEvent E (session_id m) (room_id session) session)
             (GetRoomMembers (room_id session) (Some (session_id session)) (room_system g)) g)"

section \<open>Handlers\<close>

definition HandleSessionConnected :: "env \<Rightarrow> u32 \<Rightarrow> GameLogicSystem \<Rightarrow> GameLogicSystem" where
  "HandleSessionConnected E sid g =
     g\<lparr>room_system := AddSession (iter_order E) sid (room_system g)\<rparr>"

definition HandleSessionDisconnected :: "env \<Rightarrow> u32 \<Rightarrow> GameLogicSystem \<Rightarrow> GameLogicSystem" where
  "HandleSessionDisconnected E sid g =
     (let g1 = (case FindSession sid (room_system g) of
                  None \<Rightarrow> g | Some session \<Rightarrow> NotifyRoomLeave E session g)
      in g1\<lparr>room_system := RemoveSession sid (room_system g1)\<rparr>)"

definition HandleInvalidPacket :: "env \<Rightarrow> u32 \<Rightarrow> string \<Rightarrow> GameLogicSystem \<Rightarrow> GameLogicSystem" where
  "HandleInvalidPacket E sid message g = QueueSystemMessage E sid 0 message g"

definition HandleLoginRequest ::
    "env \<Rightarrow> u32 \<Rightarrow> u32 \<Rightarrow> string \<Rightarrow> GameLogicSystem \<Rightarrow> GameLogicSystem option" where
  "HandleLoginRequest E sid req name g =
     (case FindSession sid (room_system g) of
        None \<Rightarrow> Some g
      | Some _ \<Rightarrow>
          if name = [] then
            Some (QueueLoginResponse E sid req False ErrorCode_INVALID_NAME None g)
          else if max_display_name_bytes < length name then
            Some (QueueLoginResponse E sid req False ErrorCode_INVALID_NAME None g)
          else if IsDisplayNameTaken name sid (room_system g) then
            Some (QueueLoginResponse E sid req False ErrorCode_DUPLICATE_NAME None g)
          else
            let g1 = g\<lparr>room_system := SetLoggedIn sid name (room_system g)\<rparr>;
                session = FindSession sid (room_system g1);
                g2 = QueueLoginResponse E sid req True ErrorCode_NONE session g1
            in case session of None \<Rightarrow> None | Some _ \<Rightarrow> Some g2)"

definition HandleRoomListRequest :: "env \<Rightarrow> u32 \<Rightarrow> u32 \<Rightarrow> GameLogicSystem \<Rightarrow> GameLogicSystem" where
  "HandleRoomListRequest E sid req g = QueueRoomListResponse E sid req g"

text \<open>The loop over the members a joining session finds in the room.\<close>

definition announce_join ::
    "env \<Rightarrow> u32 \<Rightarrow> RoomState \<Rightarrow> SessionState \<Rightarrow> SessionState list \<Rightarrow> GameLogicSystem \<Rightarrow> GameLogicSystem" where
  "announce_join E sid room session existing_members g =
     fold (\<lambda>other g'.
             if \<not> logged_in other then g'
             else QueueUserJoinedEvent E sid (room_id_R room) other
                    (QueueUserJoinedEvent E (session_id other) (room_id_R room) session g'))
       existing_members g"

definition HandleJoinRoomRequest ::
    "env \<Rightarrow> u32 \<Rightarrow> u32 \<Rightarrow> u32 \<Rightarrow> GameLogicSystem \<Rightarrow> GameLogicSystem option" where
  "HandleJoinRoomRequest E sid req rid g =
     (case FindSession sid (room_system g) of
        None \<Rightarrow> Some g
      | Some session \<Rightarrow>
          if \<not> logged_in session then
            Some (QueueJoinRoomResponse E sid req False ErrorCode_INVALID_NAME None g)
          else
            (case FindRoom rid (room_system g) of
               None \<Rightarrow> Some (QueueJoinRoomResponse E sid req False ErrorCode_ROOM_NOT_FOUND None g)
             | Some room \<Rightarrow>
                 if room_id session = rid then
                   Some (QueueJoinRoomResponse E sid req False ErrorCode_ALREADY_IN_ROOM (Some room) g)
                 else
                   let g1 = (if room_id session \<noteq> no_room_id then
                               let g0 = NotifyRoomLeave E session g
                               in g0\<lparr>room_system := RemoveSessionFromCurrentRoom sid (room_system g0)\<rparr>
                             else g);
                       existing_members = GetRoomMembers rid None (room_system g1);
                       g2 = g1\<lparr>room_system :=
                                  MoveSessionToRoom (iter_order E) sid rid (room_system g1)\<rparr>
                   in (case (FindSession sid (room_system g2), FindRoom rid (room_system g2)) of
                         (Some session', Some room') \<Rightarrow>
                           Some (announce_join E sid room' session' existing_members
                             (QueueSystemMessage E sid (room_id_R room') (room_name room' @ text_entered)
                               (QueueJoinRoomResponse E sid req True ErrorCode_NONE (Some room') g2)))
                       | _ \<Rightarrow> None)))"

definition HandleChatSendRequest ::
    "env \<Rightarrow> u32 \<Rightarrow> u32 \<Rightarrow> string \<Rightarrow> GameLogicSystem \<Rightarrow> GameLogicSystem" where
  "HandleChatSendRequest E sid req content g =
     (case FindSession sid (room_system g) of
        None \<Rightarrow> g
      | Some session \<Rightarrow>
          if \<not> logged_in session then g
          else if room_id session = no_room_id then
            QueueSystemMessage E sid 0 text_join_first g
          else if content = [] then
            QueueSystemMessage E sid (room_id session) text_empty_message g
          else if max_chat_message_bytes < length content then
            QueueSystemMessage E sid (room_id session) text_too_long g
          else
            fold (\<lambda>m. QueueChatBroadcast E (session_id m) (room_id session) session content)
              (GetRoomMembers (room_id session) None (room_system g)) g)"

definition HandleLeaveRoomRequest :: "env \<Rightarrow> u32 \<Rightarrow> u32 \<Rightarrow> GameLogicSystem \<Rightarrow> GameLogicSystem" where
  "HandleLeaveRoomRequest E sid req g =
     (case FindSession sid (room_system g) of
        None \<Rightarrow> g
      | Some session \<Rightarrow>
          if room_id session = no_room_id then
            QueueLeaveRoomResponse E sid req False ErrorCode_NOT_IN_ROOM g
          else
            let g1 = NotifyRoomLeave E session g;
                g2 = g1\<lparr>room_system := RemoveSessionFromCurrentRoom sid (room_system g1)\<rparr>
            in QueueSystemMessage E sid (room_id session) text_left
                 (QueueLeaveRoomResponse E sid req True ErrorCode_NONE g2))"

definition HandleDisconnectRequest :: "env \<Rightarrow> u32 \<Rightarrow> u32 \<Rightarrow> GameLogicSystem \<Rightarrow> GameLogicSystem" where
  "HandleDisconnectRequest E sid req g =
     (let g1 = QueueDisconnectResponse E sid req True ErrorCode_NONE g;
          g2 = (case FindSession sid (room_system g1) of
                  None \<Rightarrow> g1 | Some session \<Rightarrow> NotifyRoomLeave E session g1);
          g3 = g2\<lparr>room_system := RemoveSession sid (room_system g2)\<rparr>
      in g3\<lparr>pending_disconnects := pending_disconnects g3 @ [sid]\<rparr>)"

section \<open>Update and the two drains\<close>

text \<open>The \<^verbatim>\<open>std::visit\<close> of \<^verbatim>\<open>Update\<close>: one handler per alternative of the variant.\<close>

fun HandleEvent :: "env \<Rightarrow> ServerEvent \<Rightarrow> GameLogicSystem \<Rightarrow> GameLogicSystem option" where
  "HandleEvent E (SessionConnectedEvent sid) g = Some (HandleSessionConnected E sid g)"
| "HandleEvent E (SessionDisconnectedEvent sid) g = Some (HandleSessionDisconnected E sid g)"
| "HandleEvent E (InvalidPacketEvent sid message) g = Some (HandleInvalidPacket E sid message g)"
| "HandleEvent E (LoginRequestEvent sid req name) g = HandleLoginRequest E sid req name g"
| "HandleEvent E (RoomListRequestEvent sid req) g = Some (HandleRoomListRequest E sid req g)"
| "HandleEvent E (JoinRoomRequestEvent sid req rid) g = HandleJoinRoomRequest E sid req rid g"
| "HandleEvent E (ChatSendRequestEvent sid req content) g =
     Some (HandleChatSendRequest E sid req content g)"
| "HandleEvent E (LeaveRoomRequestEvent sid req) g = Some (HandleLeaveRoomRequest E sid req g)"
| "HandleEvent E (DisconnectRequestEvent sid req) g = Some (HandleDisconnectRequest E sid req g)"

fun Update :: "env \<Rightarrow> ServerEvent list \<Rightarrow> GameLogicSystem \<Rightarrow> GameLogicSystem option" where
  "Update E [] g = Some g"
| "Update E (e # es) g = (case HandleEvent E e g of None \<Rightarrow> None | Some g' \<Rightarrow> Update E es g')"

definition TakeOutgoingMessages :: "GameLogicSystem \<Rightarrow> OutgoingMessage list \<times> GameLogicSystem" where
  "TakeOutgoingMessages g = (outgoing_messages g, g\<lparr>outgoing_messages := []\<rparr>)"

definition TakePendingDisconnects :: "GameLogicSystem \<Rightarrow> u32 list \<times> GameLogicSystem" where
  "TakePendingDisconnects g = (pending_disconnects g, g\<lparr>pending_disconnects := []\<rparr>)"

section \<open>Specifications\<close>

text \<open>What one queued message adds to the outgoing messages.\<close>

definition post :: "env \<Rightarrow> u32 \<Rightarrow> Message \<Rightarrow> OutgoingMessage list" where
  "post E sid m =
     (let p = fb_build (fb E) m
      in if p = [] \<or> 2048 < length p then [] else [\<lparr>session_id_O = sid, payload_O = p\<rparr>])"

definition login_reply :: "u32 \<Rightarrow> bool \<Rightarrow> ErrorCode \<Rightarrow> UserInfo option \<Rightarrow> Message" where
  "login_reply req ok ec u = CreateMessage req MessagePayload_LoginResponse (LoginResponse ok ec u)"

definition join_reply :: "u32 \<Rightarrow> bool \<Rightarrow> ErrorCode \<Rightarrow> RoomInfo option \<Rightarrow> Message" where
  "join_reply req ok ec r = CreateMessage req MessagePayload_JoinRoomResponse (JoinRoomResponse ok ec r)"

definition leave_reply :: "u32 \<Rightarrow> bool \<Rightarrow> ErrorCode \<Rightarrow> Message" where
  "leave_reply req ok ec = CreateMessage req MessagePayload_LeaveRoomResponse (LeaveRoomResponse ok ec)"

definition disconnect_reply :: "u32 \<Rightarrow> Message" where
  "disconnect_reply req =
     CreateMessage req MessagePayload_DisconnectResponse (DisconnectResponse True ErrorCode_NONE)"

definition chat_msg :: "u32 \<Rightarrow> u32 \<Rightarrow> string \<Rightarrow> string \<Rightarrow> u64 \<Rightarrow> Message" where
  "chat_msg rid uid name content ts =
     CreateMessage 0 MessagePayload_ChatBroadcast (ChatBroadcast rid uid (Some name) (Some content) ts)"

definition joined_msg :: "u32 \<Rightarrow> u32 \<Rightarrow> string \<Rightarrow> Message" where
  "joined_msg rid uid name =
     CreateMessage 0 MessagePayload_UserJoinedEvent (UserJoinedEvent rid (Some (UserInfo uid (Some name))))"

definition left_msg :: "u32 \<Rightarrow> u32 \<Rightarrow> string \<Rightarrow> Message" where
  "left_msg rid uid name =
     CreateMessage 0 MessagePayload_UserLeftEvent (UserLeftEvent rid (Some (UserInfo uid (Some name))))"

definition system_msg :: "u32 \<Rightarrow> string \<Rightarrow> Message" where
  "system_msg rid content =
     CreateMessage 0 MessagePayload_SystemMessageEvent (SystemMessageEvent rid (Some content))"

text \<open>The effect of an event on the abstract registry.\<close>

fun reg_step :: "ServerEvent \<Rightarrow> registry \<Rightarrow> registry" where
  "reg_step (SessionConnectedEvent sid) a = reg_add sid a"
| "reg_step (SessionDisconnectedEvent sid) a = reg_remove sid a"
| "reg_step (InvalidPacketEvent _ _) a = a"
| "reg_step (LoginRequestEvent sid _ name) a =
     (if a sid \<noteq> None \<and> name \<noteq> [] \<and> length name \<le> 32 \<and> Some name \<notin> fst ` ran (a(sid := None))
      then reg_login sid name a else a)"
| "reg_step (RoomListRequestEvent _ _) a = a"
| "reg_step (JoinRoomRequestEvent sid _ rid) a =
     (case a sid of Some (Some _, _) \<Rightarrow> reg_join sid rid a | _ \<Rightarrow> a)"
| "reg_step (ChatSendRequestEvent _ _ _) a = a"
| "reg_step (LeaveRoomRequestEvent sid _) a = reg_leave sid a"
| "reg_step (DisconnectRequestEvent sid _) a = reg_remove sid a"

text \<open>A queued message is one that was built for a table a builder can make, of few tables.\<close>

definition accepted :: "env \<Rightarrow> OutgoingMessage \<Rightarrow> bool" where
  "accepted E out \<longleftrightarrow>
     (\<exists>rq p. payload_O out = BuildMessage (fb E) rq (MessagePayloadTraits p) p \<and> buildable p \<and> 1 + payload_tables p \<le> 5)"

text \<open>The handler of an event, which always returns (\<open>HandleEvent_step\<close>).\<close>

definition step :: "env \<Rightarrow> ServerEvent \<Rightarrow> GameLogicSystem \<Rightarrow> GameLogicSystem" where
  "step E e g = the (HandleEvent E e g)"

definition sendable :: "OutgoingMessage \<Rightarrow> bool" where
  "sendable m \<longleftrightarrow> payload_O m \<noteq> [] \<and> length (payload_O m) \<le> 2048"

definition game_inv :: "GameLogicSystem \<Rightarrow> bool" where
  "game_inv g \<longleftrightarrow> rs_inv (room_system g) \<and> reg_ok (rs_abs (room_system g)) \<and>
     list_all sendable (outgoing_messages g)"

section \<open>The queue functions append\<close>

lemma QueueMessage_post:
  "QueueMessage sid (BuildMessage (fb E) req ty p) g =
     g\<lparr>outgoing_messages := outgoing_messages g @ post E sid (CreateMessage req ty p)\<rparr>"
  by (simp add: QueueMessage_def post_def BuildMessage_def max_protocol_payload_bytes_def Let_def)

lemma QueueLoginResponse_eq:
  "QueueLoginResponse E sid req ok ec session g =
     g\<lparr>outgoing_messages := outgoing_messages g @
        post E sid (login_reply req ok ec (if ok then map_option BuildUserInfo session else None))\<rparr>"
  by (simp add: QueueLoginResponse_def QueueMessage_post login_reply_def)

lemma QueueRoomListResponse_eq:
  "QueueRoomListResponse E sid req g =
     g\<lparr>outgoing_messages := outgoing_messages g @
        post E sid (CreateMessage req MessagePayload_RoomListResponse
          (RoomListResponse (Some (map (\<lambda>(_, r). Some (BuildRoomInfo r)) (rooms (room_system g))))))\<rparr>"
  by (simp add: QueueRoomListResponse_def QueueMessage_post CreateRoomListResponseDirect_def Rooms_def
        comp_def case_prod_unfold)

lemma QueueJoinRoomResponse_eq:
  "QueueJoinRoomResponse E sid req ok ec room g =
     g\<lparr>outgoing_messages := outgoing_messages g @
        post E sid (join_reply req ok ec (if ok then map_option BuildRoomInfo room else None))\<rparr>"
  by (simp add: QueueJoinRoomResponse_def QueueMessage_post join_reply_def)

lemma QueueLeaveRoomResponse_eq:
  "QueueLeaveRoomResponse E sid req ok ec g =
     g\<lparr>outgoing_messages := outgoing_messages g @ post E sid (leave_reply req ok ec)\<rparr>"
  by (simp add: QueueLeaveRoomResponse_def QueueMessage_post leave_reply_def)

lemma QueueDisconnectResponse_eq:
  "QueueDisconnectResponse E sid req True ErrorCode_NONE g =
     g\<lparr>outgoing_messages := outgoing_messages g @ post E sid (disconnect_reply req)\<rparr>"
  by (simp add: QueueDisconnectResponse_def QueueMessage_post disconnect_reply_def)

lemma QueueChatBroadcast_eq:
  "QueueChatBroadcast E sid rid sender content g =
     g\<lparr>outgoing_messages := outgoing_messages g @
          post E sid (chat_msg rid (user_id sender) (c_str (display_name sender)) (c_str content)
            (now_ms E (clock_reads g))),
       clock_reads := Suc (clock_reads g)\<rparr>"
  by (simp add: QueueChatBroadcast_def CurrentTimestampMs_def QueueMessage_post chat_msg_def
        CreateChatBroadcastDirect_def)

lemma QueueUserJoinedEvent_eq:
  "QueueUserJoinedEvent E sid rid u g =
     g\<lparr>outgoing_messages := outgoing_messages g @
        post E sid (joined_msg rid (user_id u) (c_str (display_name u)))\<rparr>"
  by (simp add: QueueUserJoinedEvent_def QueueMessage_post joined_msg_def BuildUserInfo_def
        CreateUserInfoDirect_def)

lemma QueueUserLeftEvent_eq:
  "QueueUserLeftEvent E sid rid u g =
     g\<lparr>outgoing_messages := outgoing_messages g @
        post E sid (left_msg rid (user_id u) (c_str (display_name u)))\<rparr>"
  by (simp add: QueueUserLeftEvent_def QueueMessage_post left_msg_def BuildUserInfo_def
        CreateUserInfoDirect_def)

lemma QueueSystemMessage_eq:
  "QueueSystemMessage E sid rid content g =
     g\<lparr>outgoing_messages := outgoing_messages g @ post E sid (system_msg rid (c_str content))\<rparr>"
  by (simp add: QueueSystemMessage_def QueueMessage_post system_msg_def CreateSystemMessageEventDirect_def)

lemmas queue_eqs =
  QueueLoginResponse_eq QueueRoomListResponse_eq QueueJoinRoomResponse_eq QueueLeaveRoomResponse_eq
  QueueDisconnectResponse_eq QueueUserJoinedEvent_eq QueueUserLeftEvent_eq QueueSystemMessage_eq

lemma fold_append_messages:
  assumes "\<And>x g. f x g = g\<lparr>outgoing_messages := outgoing_messages g @ h x\<rparr>"
  shows "fold f xs g = g\<lparr>outgoing_messages := outgoing_messages g @ concat (map h xs)\<rparr>"
  by (induction xs arbitrary: g) (simp_all add: assms)

text \<open>The messages of the three loops.\<close>

definition left_msgs :: "env \<Rightarrow> SessionState \<Rightarrow> RoomSystem \<Rightarrow> OutgoingMessage list" where
  "left_msgs E session s =
     (if room_id session = no_room_id \<or> \<not> logged_in session then []
      else concat (map (\<lambda>m. post E (session_id m)
             (left_msg (room_id session) (user_id session) (c_str (display_name session))))
             (GetRoomMembers (room_id session) (Some (session_id session)) s)))"

lemma NotifyRoomLeave_eq:
  "NotifyRoomLeave E session g =
     g\<lparr>outgoing_messages := outgoing_messages g @ left_msgs E session (room_system g)\<rparr>"
  by (simp add: NotifyRoomLeave_def left_msgs_def)
     (rule impI, rule fold_append_messages, simp add: queue_eqs)

definition join_msgs ::
    "env \<Rightarrow> u32 \<Rightarrow> u32 \<Rightarrow> SessionState \<Rightarrow> SessionState list \<Rightarrow> OutgoingMessage list" where
  "join_msgs E sid rid session others =
     concat (map (\<lambda>other.
       if \<not> logged_in other then []
       else post E (session_id other) (joined_msg rid (user_id session) (c_str (display_name session)))
          @ post E sid (joined_msg rid (user_id other) (c_str (display_name other)))) others)"

lemma announce_join_eq:
  "announce_join E sid room session others g =
     g\<lparr>outgoing_messages := outgoing_messages g @ join_msgs E sid (room_id_R room) session others\<rparr>"
  unfolding announce_join_def join_msgs_def
  by (rule fold_append_messages) (simp add: queue_eqs)

definition chat_msgs ::
    "env \<Rightarrow> u32 \<Rightarrow> SessionState \<Rightarrow> string \<Rightarrow> nat \<Rightarrow> SessionState list \<Rightarrow> OutgoingMessage list" where
  "chat_msgs E rid sender content t ms =
     concat (map (\<lambda>(i, m). post E (session_id m)
       (chat_msg rid (user_id sender) (c_str (display_name sender)) (c_str content) (now_ms E i)))
       (enumerate t ms))"

lemma chat_loop_eq:
  "fold (\<lambda>m. QueueChatBroadcast E (session_id m) rid sender content) ms g =
     g\<lparr>outgoing_messages := outgoing_messages g @ chat_msgs E rid sender content (clock_reads g) ms,
       clock_reads := clock_reads g + length ms\<rparr>"
  by (induction ms arbitrary: g) (simp_all add: chat_msgs_def QueueChatBroadcast_eq)

section \<open>What each handler does\<close>

definition leave_msgs :: "env \<Rightarrow> u32 \<Rightarrow> RoomSystem \<Rightarrow> OutgoingMessage list" where
  "leave_msgs E sid s = (case FindSession sid s of None \<Rightarrow> [] | Some x \<Rightarrow> left_msgs E x s)"

lemma HandleSessionDisconnected_eq:
  "HandleSessionDisconnected E sid g =
     g\<lparr>room_system := RemoveSession sid (room_system g),
       outgoing_messages := outgoing_messages g @ leave_msgs E sid (room_system g)\<rparr>"
  by (simp add: HandleSessionDisconnected_def leave_msgs_def NotifyRoomLeave_eq split: option.splits)

lemma HandleDisconnectRequest_eq:
  "HandleDisconnectRequest E sid req g =
     g\<lparr>room_system := RemoveSession sid (room_system g),
       outgoing_messages := outgoing_messages g @ post E sid (disconnect_reply req) @
         leave_msgs E sid (room_system g),
       pending_disconnects := pending_disconnects g @ [sid]\<rparr>"
  by (simp add: HandleDisconnectRequest_def leave_msgs_def queue_eqs NotifyRoomLeave_eq split: option.splits)

text \<open>The answer to a login request, and whether the name is taken over.\<close>

definition login_error :: "u32 \<Rightarrow> string \<Rightarrow> RoomSystem \<Rightarrow> ErrorCode option" where
  "login_error sid name s =
     (if name = [] \<or> 32 < length name then Some ErrorCode_INVALID_NAME
      else if IsDisplayNameTaken name sid s then Some ErrorCode_DUPLICATE_NAME else None)"

lemma HandleLoginRequest_eq:
  "HandleLoginRequest E sid req name g = Some
     (case FindSession sid (room_system g) of
        None \<Rightarrow> g
      | Some x \<Rightarrow>
          (case login_error sid name (room_system g) of
             Some ec \<Rightarrow>
               g\<lparr>outgoing_messages := outgoing_messages g @ post E sid (login_reply req False ec None)\<rparr>
           | None \<Rightarrow>
               g\<lparr>room_system := SetLoggedIn sid name (room_system g),
                 outgoing_messages := outgoing_messages g @
                   post E sid (login_reply req True ErrorCode_NONE
                     (Some (UserInfo (user_id x) (Some (c_str name)))))\<rparr>))"
  by (auto simp: HandleLoginRequest_def login_error_def max_display_name_bytes_def queue_eqs state_simps
        BuildUserInfo_def CreateUserInfoDirect_def Let_def split: option.splits)

text \<open>The state in which a joining session has left its old room.\<close>

definition left_room :: "u32 \<Rightarrow> RoomSystem \<Rightarrow> RoomSystem" where
  "left_room sid s = RemoveSessionFromCurrentRoom sid s"

lemma left_room_idle:
  "FindSession sid s = Some x \<Longrightarrow> room_id x = no_room_id \<Longrightarrow> left_room sid s = s"
  by (simp add: left_room_def RemoveSessionFromCurrentRoom_def)

definition join_error :: "SessionState \<Rightarrow> u32 \<Rightarrow> RoomSystem \<Rightarrow> ErrorCode option" where
  "join_error x rid s =
     (if \<not> logged_in x then Some ErrorCode_INVALID_NAME
      else if FindRoom rid s = None then Some ErrorCode_ROOM_NOT_FOUND
      else if room_id x = rid then Some ErrorCode_ALREADY_IN_ROOM else None)"

definition joined_room :: "env \<Rightarrow> u32 \<Rightarrow> u32 \<Rightarrow> RoomSystem \<Rightarrow> RoomSystem" where
  "joined_room E sid rid s = MoveSessionToRoom (iter_order E) sid rid (left_room sid s)"

lemma FindSession_left_room:
  "FindSession sid s = Some x \<Longrightarrow>
     FindSession j (left_room sid s) = (if j = sid then Some (x\<lparr>room_id := no_room_id\<rparr>) else FindSession j s)"
  by (simp add: left_room_def state_simps)

lemma FindSession_joined_room:
  assumes "FindSession sid s = Some x" and "FindRoom rid s \<noteq> None"
  shows "FindSession j (joined_room E sid rid s) =
     (if j = sid then Some (x\<lparr>room_id := rid\<rparr>) else FindSession j s)"
  using assms by (auto simp: joined_room_def left_room_def state_simps)

lemma FindRoom_joined_room_Some:
  "FindRoom rid s \<noteq> None \<Longrightarrow> \<exists>r. FindRoom rid (joined_room E sid rid s) = Some r"
  by (cases "FindSession sid s") (auto simp: joined_room_def left_room_def state_simps)

lemma HandleJoinRoomRequest_eq:
  "HandleJoinRoomRequest E sid req rid g = Some
     (case FindSession sid (room_system g) of
        None \<Rightarrow> g
      | Some x \<Rightarrow>
          (case join_error x rid (room_system g) of
             Some ec \<Rightarrow>
               g\<lparr>outgoing_messages := outgoing_messages g @ post E sid (join_reply req False ec None)\<rparr>
           | None \<Rightarrow>
               let s' = joined_room E sid rid (room_system g); r = the (FindRoom rid s')
               in g\<lparr>room_system := s',
                    outgoing_messages := outgoing_messages g @ left_msgs E x (room_system g) @
                      post E sid (join_reply req True ErrorCode_NONE (Some (BuildRoomInfo r))) @
                      post E sid (system_msg (room_id_R r) (c_str (room_name r @ text_entered))) @
                      join_msgs E sid (room_id_R r) x
                        (GetRoomMembers rid None (left_room sid (room_system g)))\<rparr>))"
proof (cases "FindSession sid (room_system g)")
  case None
  then show ?thesis by (simp add: HandleJoinRoomRequest_def)
next
  case (Some x)
  show ?thesis
  proof (cases "join_error x rid (room_system g)")
    case (Some ec)
    then show ?thesis
      using \<open>FindSession sid (room_system g) = Some x\<close>
      by (auto simp: HandleJoinRoomRequest_def join_error_def queue_eqs split: if_splits option.splits)
  next
    case None
    then have x: "logged_in x" "FindRoom rid (room_system g) \<noteq> None" "room_id x \<noteq> rid"
      by (auto simp: join_error_def split: if_splits)
    define g1 where "g1 = g\<lparr>room_system := left_room sid (room_system g),
      outgoing_messages := outgoing_messages g @ left_msgs E x (room_system g)\<rparr>"
    have g1: "(if room_id x \<noteq> no_room_id
        then (NotifyRoomLeave E x g)\<lparr>room_system :=
          RemoveSessionFromCurrentRoom sid (room_system (NotifyRoomLeave E x g))\<rparr> else g) = g1"
      using left_room_idle [OF Some]
      by (simp add: g1_def NotifyRoomLeave_eq left_room_def) (simp add: left_msgs_def)
    have mv: "MoveSessionToRoom (iter_order E) sid rid (room_system g1) = joined_room E sid rid (room_system g)"
      by (simp add: g1_def joined_room_def)
    obtain room where room: "FindRoom rid (room_system g) = Some room" using x(2) by auto
    obtain r where r: "FindRoom rid (joined_room E sid rid (room_system g)) = Some r"
      using FindRoom_joined_room_Some [OF x(2)] by blast
    have s': "FindSession sid (joined_room E sid rid (room_system g)) = Some (x\<lparr>room_id := rid\<rparr>)"
      by (simp add: FindSession_joined_room [OF Some x(2)])
    have "HandleJoinRoomRequest E sid req rid g =
        Some (announce_join E sid r (x\<lparr>room_id := rid\<rparr>) (GetRoomMembers rid None (room_system g1))
          (QueueSystemMessage E sid (room_id_R r) (room_name r @ text_entered)
            (QueueJoinRoomResponse E sid req True ErrorCode_NONE (Some r)
              (g1\<lparr>room_system := joined_room E sid rid (room_system g)\<rparr>))))"
      unfolding HandleJoinRoomRequest_def Let_def
      by (simp only: Some room option.case x g1 mv prod.case if_False if_True not_True_eq_False)
         (simp add: r s')
    moreover have "join_msgs E sid k (x\<lparr>room_id := rid\<rparr>) ms = join_msgs E sid k x ms" for k ms
      by (simp add: join_msgs_def cong: if_cong)
    ultimately show ?thesis
      by (simp add: Some None r queue_eqs announce_join_eq Let_def g1_def)
  qed
qed

lemma HandleChatSendRequest_eq:
  "HandleChatSendRequest E sid req content g =
     (case FindSession sid (room_system g) of
        None \<Rightarrow> g
      | Some x \<Rightarrow>
          if \<not> logged_in x then g
          else if room_id x = no_room_id then
            g\<lparr>outgoing_messages := outgoing_messages g @ post E sid (system_msg 0 (c_str text_join_first))\<rparr>
          else if content = [] then
            g\<lparr>outgoing_messages := outgoing_messages g @
               post E sid (system_msg (room_id x) (c_str text_empty_message))\<rparr>
          else if 512 < length content then
            g\<lparr>outgoing_messages := outgoing_messages g @
               post E sid (system_msg (room_id x) (c_str text_too_long))\<rparr>
          else
            let ms = GetRoomMembers (room_id x) None (room_system g)
            in g\<lparr>outgoing_messages := outgoing_messages g @
                    chat_msgs E (room_id x) x content (clock_reads g) ms,
                  clock_reads := clock_reads g + length ms\<rparr>)"
  by (simp add: HandleChatSendRequest_def queue_eqs chat_loop_eq max_chat_message_bytes_def Let_def
        split: option.splits)

lemma room_system_chat: "room_system (HandleChatSendRequest E sid req content g) = room_system g"
  by (simp add: HandleChatSendRequest_eq Let_def split: option.splits)

lemma HandleLeaveRoomRequest_eq:
  "HandleLeaveRoomRequest E sid req g =
     (case FindSession sid (room_system g) of
        None \<Rightarrow> g
      | Some x \<Rightarrow>
          if room_id x = no_room_id then
            g\<lparr>outgoing_messages := outgoing_messages g @
               post E sid (leave_reply req False ErrorCode_NOT_IN_ROOM)\<rparr>
          else
            g\<lparr>room_system := RemoveSessionFromCurrentRoom sid (room_system g),
              outgoing_messages := outgoing_messages g @ left_msgs E x (room_system g) @
                post E sid (leave_reply req True ErrorCode_NONE) @
                post E sid (system_msg (room_id x) (c_str text_left))\<rparr>)"
  by (simp add: HandleLeaveRoomRequest_def queue_eqs NotifyRoomLeave_eq Let_def split: option.splits)

section \<open>Every event is handled\<close>

lemma HandleEvent_step: "HandleEvent E e g = Some (step E e g)"
  by (cases e) (simp_all add: step_def HandleLoginRequest_eq HandleJoinRoomRequest_eq)

lemma Update_run: "Update E es g = Some (fold (step E) es g)"
  by (induction es arbitrary: g) (simp_all add: HandleEvent_step)

lemma step_simps:
  "step E (SessionConnectedEvent sid) g = HandleSessionConnected E sid g"
  "step E (SessionDisconnectedEvent sid) g = HandleSessionDisconnected E sid g"
  "step E (InvalidPacketEvent sid message) g = HandleInvalidPacket E sid message g"
  "step E (LoginRequestEvent sid req name) g = the (HandleLoginRequest E sid req name g)"
  "step E (RoomListRequestEvent sid req) g = HandleRoomListRequest E sid req g"
  "step E (JoinRoomRequestEvent sid req rid) g = the (HandleJoinRoomRequest E sid req rid g)"
  "step E (ChatSendRequestEvent sid req content) g = HandleChatSendRequest E sid req content g"
  "step E (LeaveRoomRequestEvent sid req) g = HandleLeaveRoomRequest E sid req g"
  "step E (DisconnectRequestEvent sid req) g = HandleDisconnectRequest E sid req g"
  by (simp_all add: step_def)

lemmas handler_eqs =
  HandleSessionConnected_def HandleSessionDisconnected_eq HandleInvalidPacket_def
  HandleLoginRequest_eq HandleRoomListRequest_def HandleJoinRoomRequest_eq
  HandleChatSendRequest_eq HandleLeaveRoomRequest_eq HandleDisconnectRequest_eq queue_eqs

section \<open>The handlers implement the registry step\<close>

lemma taken_iff_abs:
  assumes "rs_inv s"
  shows "IsDisplayNameTaken name sid s \<longleftrightarrow> Some name \<in> fst ` ran ((rs_abs s)(sid := None))"
proof -
  have "Some name \<in> fst ` ran ((rs_abs s)(sid := None)) \<longleftrightarrow>
      (\<exists>j r. j \<noteq> sid \<and> rs_abs s j = Some (Some name, r))"
    by (auto simp: ran_def image_iff split: if_splits)
  also have "\<dots> \<longleftrightarrow> IsDisplayNameTaken name sid s"
    unfolding IsDisplayNameTaken_iff [OF rs_invD(1) [OF assms]]
    by (auto simp: rs_abs_def session_view_def split: if_splits)
  finally show ?thesis by simp
qed

lemma rs_abs_None [simp]: "rs_abs s sid = None \<longleftrightarrow> FindSession sid s = None"
  by (simp add: rs_abs_def)

lemma reg_leave_absent: "a sid = None \<Longrightarrow> reg_leave sid a = a"
  by (auto simp: reg_leave_def)

lemma reg_join_after_leave: "reg_join sid rid (reg_leave sid a) = (if rid \<in> {1001, 1002, 1003} then reg_join sid rid a else reg_leave sid a)"
  by (auto simp: reg_join_def reg_leave_def option.map_comp comp_def case_prod_unfold)

lemma rs_abs_joined_room:
  assumes "rs_inv s" and "FindRoom rid s \<noteq> None"
  shows "rs_abs (joined_room E sid rid s) = reg_join sid rid (rs_abs s)"
  using assms FindRoom_iff [OF assms(1), of rid]
  by (simp add: joined_room_def left_room_def rs_abs_Move rs_inv_RemoveFromRoom rs_abs_RemoveFromRoom
        reg_join_after_leave)

lemma reg_join_same: "a sid = Some (n, Some rid) \<Longrightarrow> reg_join sid rid a = a"
  by (auto simp: reg_join_def)

lemma room_system_leave:
  "room_system (HandleLeaveRoomRequest E sid req g) = RemoveSessionFromCurrentRoom sid (room_system g)"
  by (simp add: HandleLeaveRoomRequest_eq RemoveSessionFromCurrentRoom_def [of sid "room_system g"]
        split: option.splits)

lemma step_refines:
  assumes "rs_inv (room_system g)"
  shows "rs_abs (room_system (step E e g)) = reg_step e (rs_abs (room_system g))"
proof (cases e)
  case (LoginRequestEvent sid req name)
  then show ?thesis
    using taken_iff_abs [OF assms, of name sid]
    by (auto simp: step_simps HandleLoginRequest_eq login_error_def rs_abs_SetLoggedIn split: option.splits)
next
  case (JoinRoomRequestEvent sid req rid)
  show ?thesis
  proof (cases "FindSession sid (room_system g)")
    case None
    with JoinRoomRequestEvent show ?thesis by (simp add: step_simps HandleJoinRoomRequest_eq rs_abs_def)
  next
    case (Some x)
    have "reg_join sid rid (rs_abs (room_system g)) = rs_abs (room_system g)"
      if "FindRoom rid (room_system g) = None \<or> room_id x = rid"
      using that Some FindRoom_iff [OF assms, of rid]
      by (auto simp: reg_join_def rs_abs_def session_view_def no_room_id_def)
    then show ?thesis
      using JoinRoomRequestEvent Some
      by (auto simp: step_simps HandleJoinRoomRequest_eq join_error_def rs_abs_joined_room [OF assms] Let_def)
         (auto simp: rs_abs_def session_view_def)
  qed
next
  case (LeaveRoomRequestEvent sid req)
  then show ?thesis
    by (simp add: step_simps room_system_leave rs_abs_RemoveFromRoom)
qed (auto simp: step_simps handler_eqs rs_abs_AddSession rs_abs_RemoveSession Let_def split: option.splits)

section \<open>The invariant\<close>

lemma rs_inv_joined_room: "rs_inv s \<Longrightarrow> rs_inv (joined_room E sid rid s)"
  by (simp add: joined_room_def left_room_def inv_intros)

lemma rs_inv_step: "rs_inv (room_system g) \<Longrightarrow> rs_inv (room_system (step E e g))"
  by (cases e)
     (auto simp: step_simps handler_eqs inv_intros rs_inv_joined_room Let_def split: option.splits)

lemma reg_ok_step:
  assumes "rs_inv (room_system g)" and "reg_ok (rs_abs (room_system g))"
  shows "reg_ok (rs_abs (room_system (step E e g)))"
proof (cases e)
  case (LoginRequestEvent sid req name)
  have "reg_ok (rs_abs (SetLoggedIn sid name (room_system g)))"
    if "login_error sid name (room_system g) = None"
    using that taken_iff_abs [OF assms(1), of name sid] assms
    by (intro rs.ok_login) (auto simp: login_error_def ran_def image_iff split: if_splits)
  then show ?thesis
    using assms LoginRequestEvent by (auto simp: step_simps HandleLoginRequest_eq split: option.splits)
next
  case (JoinRoomRequestEvent sid req rid)
  have "reg_ok (rs_abs (joined_room E sid rid (room_system g)))"
    if "FindSession sid (room_system g) = Some x" "join_error x rid (room_system g) = None" for x
    unfolding joined_room_def left_room_def using that assms
    by (intro rs.ok_join rs.ok_leave inv_intros)
       (auto simp: join_error_def rs_abs_def state_simps session_view_def split: if_splits)
  then show ?thesis
    using assms JoinRoomRequestEvent
    by (auto simp: step_simps HandleJoinRoomRequest_eq Let_def split: option.splits)
next
  case (LeaveRoomRequestEvent sid req)
  then show ?thesis using assms by (simp add: step_simps room_system_leave rs.ok_leave)
qed (use assms in \<open>auto simp: step_simps handler_eqs rs.ok_add rs.ok_remove Let_def split: option.splits\<close>)

lemma sendable_post [simp]: "list_all sendable (post E sid m)"
  by (simp add: post_def Let_def sendable_def)

lemma list_all_concat_map: "(\<And>x. x \<in> set xs \<Longrightarrow> list_all P (f x)) \<Longrightarrow> list_all P (concat (map f xs))"
  by (induction xs) auto

lemma sendable_msgs [simp]:
  "list_all sendable (left_msgs E x s)"
  "list_all sendable (leave_msgs E sid s)"
  "list_all sendable (join_msgs E sid rid x ms)"
  "list_all sendable (chat_msgs E rid x content t ms)"
  by (auto simp: left_msgs_def leave_msgs_def join_msgs_def chat_msgs_def split: option.split
      intro!: list_all_concat_map)

lemma sendable_step:
  "list_all sendable (outgoing_messages g) \<Longrightarrow> list_all sendable (outgoing_messages (step E e g))"
  by (cases e) (auto simp: step_simps handler_eqs Let_def split: option.splits)

interpretation gl: event_machine "step E" game_inv for E
  by unfold_locales (simp add: game_inv_def rs_inv_step reg_ok_step sendable_step)

lemma game_inv_init: "game_inv (GameLogicSystem_init (RoomSystem_init rh))"
  by (simp add: game_inv_def GameLogicSystem_init_def rs_inv_init rs_abs_init reg_ok_def)

lemma game_inv_reachable:
  "Update E es (GameLogicSystem_init (RoomSystem_init rh)) = Some g \<Longrightarrow> game_inv g"
  using gl.run_invar [OF game_inv_init, of E es rh] by (simp add: Update_run)

lemma run_refines:
  "rs_inv (room_system g) \<Longrightarrow>
     rs_abs (room_system (fold (step E) es g)) = fold reg_step es (rs_abs (room_system g))"
  by (induction es arbitrary: g) (simp_all add: rs_inv_step step_refines)

section \<open>Queued messages can be built\<close>

lemma accepted_post [simp]:
  assumes "ty = MessagePayloadTraits p" and "buildable p" and "1 + payload_tables p \<le> 5"
  shows "list_all (accepted E) (post E sid (CreateMessage rq ty p))"
  using assms by (auto simp: post_def Let_def accepted_def BuildMessage_def)

lemma accepted_replies [simp]:
  "list_all (accepted E) (post E sid (login_reply req ok ec u))"
  "list_all (accepted E) (post E sid (join_reply req ok ec r))"
  "list_all (accepted E) (post E sid (leave_reply req ok ec))"
  "list_all (accepted E) (post E sid (disconnect_reply req))"
  "list_all (accepted E) (post E sid (chat_msg rid uid name content ts))"
  "list_all (accepted E) (post E sid (joined_msg rid uid name))"
  "list_all (accepted E) (post E sid (left_msg rid uid name))"
  "list_all (accepted E) (post E sid (system_msg rid content))"
  by (simp_all add: login_reply_def join_reply_def leave_reply_def disconnect_reply_def chat_msg_def joined_msg_def
      left_msg_def system_msg_def)

lemma accepted_msgs [simp]:
  "list_all (accepted E) (left_msgs E x s)"
  "list_all (accepted E) (leave_msgs E sid s)"
  "list_all (accepted E) (join_msgs E sid rid x ms)"
  "list_all (accepted E) (chat_msgs E rid x content t ms)"
  by (auto simp: left_msgs_def leave_msgs_def join_msgs_def chat_msgs_def split: option.split
      intro!: list_all_concat_map)

lemma three_rooms:
  assumes "rs_inv s"
  shows "length (rooms s) = 3"
proof -
  have "length (um_keys (rooms s)) = card (set (um_keys (rooms s)))"
    using rs_invD(2) [OF assms] by (simp add: um_distinct_def distinct_card)
  then show ?thesis unfolding rs_invD(3) [OF assms] by (simp add: um_keys_def)
qed

lemma accepted_room_list [simp]:
  assumes "rs_inv s"
  shows "list_all (accepted E) (post E sid (CreateMessage req MessagePayload_RoomListResponse
    (RoomListResponse (Some (map (\<lambda>(_, r). Some (BuildRoomInfo r)) (rooms s))))))"
  using three_rooms [OF assms]
  by (intro accepted_post) (auto simp: room_tables_def max_tables_def)

lemma accepted_step:
  assumes "rs_inv (room_system g)" and "list_all (accepted E) (outgoing_messages g)"
  shows "list_all (accepted E) (outgoing_messages (step E e g))"
  using assms by (cases e) (auto simp: step_simps handler_eqs Let_def split: option.splits)

interpretation al: event_machine "step E" "\<lambda>g. game_inv g \<and> list_all (accepted E) (outgoing_messages g)" for E
proof unfold_locales
  fix g e
  assume g: "game_inv g \<and> list_all (accepted E) (outgoing_messages g)"
  then have "rs_inv (room_system g)" by (simp add: game_inv_def)
  with g show "game_inv (step E e g) \<and> list_all (accepted E) (outgoing_messages (step E e g))"
    by (simp add: gl.step_invar accepted_step)
qed

lemma accepted_reachable:
  assumes "Update E es (GameLogicSystem_init (RoomSystem_init rh)) = Some g"
  shows "list_all (accepted E) (outgoing_messages g)"
  using al.run_invar [of "GameLogicSystem_init (RoomSystem_init rh)" E es] game_inv_init [of rh] assms
  by (simp add: Update_run GameLogicSystem_init_def)

section \<open>Recipients\<close>

fun event_session :: "ServerEvent \<Rightarrow> u32" where
  "event_session (SessionConnectedEvent sid) = sid"
| "event_session (SessionDisconnectedEvent sid) = sid"
| "event_session (InvalidPacketEvent sid _) = sid"
| "event_session (LoginRequestEvent sid _ _) = sid"
| "event_session (RoomListRequestEvent sid _) = sid"
| "event_session (JoinRoomRequestEvent sid _ _) = sid"
| "event_session (ChatSendRequestEvent sid _ _) = sid"
| "event_session (LeaveRoomRequestEvent sid _) = sid"
| "event_session (DisconnectRequestEvent sid _) = sid"

lemma post_recipient: "m \<in> set (post E sid msg) \<Longrightarrow> session_id_O m = sid"
  by (auto simp: post_def Let_def split: if_splits)

lemma member_in_room:
  assumes "rs_inv s" and "x \<in> set (GetRoomMembers rid ex s)"
  shows "in_room s (session_id x) rid"
  using assms rs_invD(4) [OF assms(1)]
  by (auto simp: GetRoomMembers_in_set [OF assms(1)] in_room_iff session_ok_def)

lemma left_msgs_recipient:
  assumes "rs_inv s" and "FindSession sid s = Some x" and "m \<in> set (left_msgs E x s)"
  shows "in_room s sid (room_id x) \<and> in_room s (session_id_O m) (room_id x)"
  using assms member_in_room [OF assms(1)]
  by (auto simp: left_msgs_def in_room_iff [of s sid] dest!: post_recipient split: if_splits)

lemma leave_msgs_recipient:
  assumes "rs_inv s" and "m \<in> set (leave_msgs E sid s)"
  shows "\<exists>k. in_room s sid k \<and> in_room s (session_id_O m) k"
proof (cases "FindSession sid s")
  case None
  then show ?thesis using assms by (simp add: leave_msgs_def)
next
  case (Some x)
  then show ?thesis
    using assms left_msgs_recipient [OF assms(1) Some] by (auto simp: leave_msgs_def)
qed

lemma join_msgs_recipient:
  assumes "rs_inv s" and "m \<in> set (join_msgs E sid k x (GetRoomMembers rid None s))"
  shows "session_id_O m = sid \<or> in_room s (session_id_O m) rid"
  using assms member_in_room [OF assms(1)]
  by (fastforce simp: join_msgs_def dest: post_recipient split: if_splits)

lemma chat_msgs_recipient:
  assumes "rs_inv s" and "m \<in> set (chat_msgs E k x content t (GetRoomMembers rid None s))"
  shows "in_room s (session_id_O m) rid"
proof -
  obtain i y where "(i, y) \<in> set (enumerate t (GetRoomMembers rid None s))" "session_id_O m = session_id y"
    using assms(2) by (auto simp: chat_msgs_def dest: post_recipient)
  then show ?thesis
    using member_in_room [OF assms(1)] by (auto simp: enumerate_eq_zip dest: set_zip_rightD)
qed

lemma in_room_left_room: "in_room (left_room sid s) j k \<Longrightarrow> in_room s j k"
  by (simp add: left_room_def state_simps)

lemma in_room_joined_room:
  assumes "FindSession sid s = Some x" and "FindRoom rid s \<noteq> None" and "rid \<noteq> no_room_id"
  shows "in_room (joined_room E sid rid s) j k \<longleftrightarrow> (if j = sid then k = rid else in_room s j k)"
  using assms by (auto simp: in_room_iff FindSession_joined_room)

lemma join_step_recipient:
  assumes "rs_inv (room_system g)" and "m \<in> set (outgoing_messages (step E (JoinRoomRequestEvent sid req rid) g))"
  shows "m \<in> set (outgoing_messages g) \<or> session_id_O m = sid \<or>
    (\<exists>k. (in_room (room_system g) sid k \<or> in_room (room_system (step E (JoinRoomRequestEvent sid req rid) g)) sid k)
       \<and> in_room (room_system g) (session_id_O m) k)"
proof (cases "FindSession sid (room_system g)")
  case None
  then show ?thesis using assms by (simp add: step_simps HandleJoinRoomRequest_eq)
next
  case (Some x)
  show ?thesis
  proof (cases "join_error x rid (room_system g)")
    case None
    let ?s = "room_system g"
    have r: "FindRoom rid ?s \<noteq> None" using None by (auto simp: join_error_def split: if_splits)
    then have "rid \<noteq> no_room_id" by (rule FindRoom_nonzero [OF assms(1)])
    have inv: "rs_inv (left_room sid ?s)"
      using assms(1) by (simp add: left_room_def inv_intros)
    have "m \<in> set (outgoing_messages g) \<or> m \<in> set (left_msgs E x ?s) \<or> session_id_O m = sid \<or>
        (\<exists>k. m \<in> set (join_msgs E sid k x (GetRoomMembers rid None (left_room sid ?s))))"
      using assms(2) Some None by (auto simp: step_simps HandleJoinRoomRequest_eq Let_def dest: post_recipient)
    moreover have "in_room (room_system (step E (JoinRoomRequestEvent sid req rid) g)) sid rid"
      using Some None r \<open>rid \<noteq> no_room_id\<close>
      by (simp add: step_simps HandleJoinRoomRequest_eq Let_def in_room_joined_room [OF Some])
    ultimately show ?thesis
      using left_msgs_recipient [OF assms(1) Some] join_msgs_recipient [OF inv] in_room_left_room
      by metis
  next
    case (Some ec)
    then show ?thesis
      using assms \<open>FindSession sid (room_system g) = Some x\<close>
      by (auto simp: step_simps HandleJoinRoomRequest_eq dest: post_recipient)
  qed
qed

lemma chat_step_recipient:
  assumes "rs_inv (room_system g)"
    and "m \<in> set (outgoing_messages (HandleChatSendRequest E sid req content g))"
  shows "m \<in> set (outgoing_messages g) \<or> session_id_O m = sid \<or>
    (\<exists>k. in_room (room_system g) sid k \<and> in_room (room_system g) (session_id_O m) k)"
  using assms chat_msgs_recipient [OF assms(1)]
  by (auto simp: HandleChatSendRequest_eq in_room_iff [of _ sid] Let_def dest: post_recipient
      split: option.splits if_splits)

lemma step_recipient:
  assumes "rs_inv (room_system g)" and "m \<in> set (outgoing_messages (step E e g))"
  shows "m \<in> set (outgoing_messages g) \<or> session_id_O m = event_session e \<or>
    (\<exists>k. (in_room (room_system g) (event_session e) k \<or> in_room (room_system (step E e g)) (event_session e) k)
       \<and> in_room (room_system g) (session_id_O m) k)"
proof (cases e)
  case (JoinRoomRequestEvent sid req rid)
  then show ?thesis using join_step_recipient assms by simp
next
  case (ChatSendRequestEvent sid req content)
  then show ?thesis
    using chat_step_recipient [of g m E sid req content] assms by (auto simp: step_simps)
next
  case (LeaveRoomRequestEvent sid req)
  then show ?thesis
    using assms leave_msgs_recipient [OF assms(1), of m E sid]
    by (auto simp: step_simps HandleLeaveRoomRequest_eq leave_msgs_def dest: post_recipient
        split: option.splits if_splits)
qed (use assms leave_msgs_recipient [OF assms(1)] in
      \<open>auto simp: step_simps handler_eqs dest: post_recipient split: option.splits\<close>)

end
