(* ===== verification/Game_Properties.thy ===== *)
theory Game_Properties
  imports Game_Logic Example_Codec
begin

text \<open>
  The properties of the chat logic, stated over the handlers of \<^verbatim>\<open>GameLogicSystem.cpp\<close> and the
  class \<^verbatim>\<open>RoomSystem\<close>, and a concrete run of the server (three users in two rooms) at which
  each property with a hypothesis is applied.
\<close>

section \<open>A concrete run\<close>

definition example_env :: env where
  "example_env = \<lparr>fb = example_fb, now_ms = of_nat, iter_order = rev\<rparr>"

definition example_events :: "ServerEvent list" where
  "example_events =
     [SessionConnectedEvent 1, SessionConnectedEvent 2, SessionConnectedEvent 3,
      LoginRequestEvent 1 1 ''Ann'', LoginRequestEvent 2 1 ''Bob'', LoginRequestEvent 3 1 ''Cid'',
      JoinRoomRequestEvent 1 2 1001, JoinRoomRequestEvent 2 2 1001, JoinRoomRequestEvent 3 2 1002]"

definition example_state :: GameLogicSystem where
  "example_state = the (Update example_env example_events (GameLogicSystem_init (RoomSystem_init rev)))"

lemma example_run:
  "Update example_env example_events (GameLogicSystem_init (RoomSystem_init rev)) = Some example_state"
  by (simp add: example_state_def Update_run)

lemma example_inv: "game_inv example_state"
  by (rule game_inv_reachable [OF example_run])

lemma example_rooms:
  "room_system example_state =
     \<lparr>sessions =
        [(2, \<lparr>session_id = 2, user_id = 2, display_name = ''Bob'', room_id = 1001, logged_in = True\<rparr>),
         (1, \<lparr>session_id = 1, user_id = 1, display_name = ''Ann'', room_id = 1001, logged_in = True\<rparr>),
         (3, \<lparr>session_id = 3, user_id = 3, display_name = ''Cid'', room_id = 1002, logged_in = True\<rparr>)],
      rooms =
        [(1002, \<lparr>room_id_R = 1002, room_name = ''Dev'', members = [3]\<rparr>),
         (1001, \<lparr>room_id_R = 1001, room_name = ''Lobby'', members = [1, 2]\<rparr>),
         (1003, \<lparr>room_id_R = 1003, room_name = ''Chat'', members = []\<rparr>)]\<rparr>"
  by code_simp

lemma example_find:
  "FindSession 1 (room_system example_state) =
     Some \<lparr>session_id = 1, user_id = 1, display_name = ''Ann'', room_id = 1001, logged_in = True\<rparr>"
  "FindSession 2 (room_system example_state) =
     Some \<lparr>session_id = 2, user_id = 2, display_name = ''Bob'', room_id = 1001, logged_in = True\<rparr>"
  "FindSession 9 (room_system example_state) = None"
  by (simp_all add: example_rooms FindSession_def um_find_def)

section \<open>Helper lemmas\<close>

lemma reachable_inv:
  assumes "Update E es (GameLogicSystem_init (RoomSystem_init rh)) = Some g"
  shows "rs_inv (room_system g)" and "reg_ok (rs_abs (room_system g))"
  using game_inv_reachable [OF assms] by (simp_all add: game_inv_def)

lemma room_ids_of_members:
  assumes "rs_inv s" and "FindRoom rid s \<noteq> None"
  shows "distinct (map session_id (GetRoomMembers rid None s))"
    and "set (map session_id (GetRoomMembers rid None s)) = {j. in_room s j rid}"
proof -
  obtain r where r: "FindRoom rid s = Some r" using assms(2) by auto
  have ids: "map session_id (GetRoomMembers rid None s) = members r"
    by (simp add: GetRoomMembers_ids [OF assms(1) r])
  show "distinct (map session_id (GetRoomMembers rid None s))"
    using rs_invD(5) [OF assms(1) r] by (simp add: ids room_ok_def)
  have "j \<in> set (members r) \<longleftrightarrow> in_room s j rid" for j
    using rs_invD(6) [OF assms(1), of j rid] r by (simp add: member_of_def)
  then show "set (map session_id (GetRoomMembers rid None s)) = {j. in_room s j rid}"
    by (auto simp: ids)
qed

lemma room_members_excluding:
  assumes "rs_inv s" and "FindRoom rid s \<noteq> None"
  shows "distinct (map session_id (GetRoomMembers rid (Some sid) s))"
    and "set (map session_id (GetRoomMembers rid (Some sid) s)) = {j. j \<noteq> sid \<and> in_room s j rid}"
proof -
  obtain r where r: "FindRoom rid s = Some r" using assms(2) by auto
  have "map session_id (GetRoomMembers rid (Some sid) s) =
      filter (\<lambda>j. Some sid \<noteq> Some j) (map session_id (GetRoomMembers rid None s))"
    by (simp add: GetRoomMembers_ids [OF assms(1) r])
  then show "distinct (map session_id (GetRoomMembers rid (Some sid) s))"
    "set (map session_id (GetRoomMembers rid (Some sid) s)) = {j. j \<noteq> sid \<and> in_room s j rid}"
    using room_ids_of_members [OF assms] by auto
qed

lemma in_room_FindRoom: "rs_inv s \<Longrightarrow> in_room s sid rid \<Longrightarrow> FindRoom rid s \<noteq> None"
  using rs_invD(6) [of s sid rid] by (auto simp: member_of_def split: option.splits)

lemma left_msgs_spec:
  assumes "rs_inv s" and "FindSession sid s = Some x" and "logged_in x"
  shows "\<exists>ls. distinct ls \<and> set ls = {j. j \<noteq> sid \<and> room_id x \<noteq> no_room_id \<and> in_room s j (room_id x)} \<and>
     left_msgs E x s =
       concat (map (\<lambda>j. post E j (left_msg (room_id x) (user_id x) (c_str (display_name x)))) ls)"
proof (cases "room_id x = no_room_id")
  case True
  then show ?thesis by (simp add: left_msgs_def)
next
  case False
  have "session_id x = sid" using rs_invD(4) [OF assms(1,2)] by (simp add: session_ok_def)
  moreover have "in_room s sid (room_id x)" using False assms(2) by (simp add: in_room_iff)
  ultimately show ?thesis
    using False assms(3) room_members_excluding [OF assms(1) in_room_FindRoom [OF assms(1)], of sid _ sid]
    by (intro exI [of _ "map session_id (GetRoomMembers (room_id x) (Some sid) s)"])
       (simp add: left_msgs_def comp_def)
qed

lemma member_logged_in:
  assumes "reg_ok (rs_abs s)" and "FindSession j s = Some y" and "room_id y \<noteq> no_room_id"
  shows "logged_in y"
proof -
  have "rs_abs s j = Some (fst (session_view y), Some (room_id y))"
    using assms by (simp add: rs_abs_def session_view_def)
  then have "fst (session_view y) \<noteq> None" using assms(1) by (auto simp: reg_ok_def)
  then show ?thesis by (simp add: session_view_def split: if_splits)
qed

lemma join_msgs_spec:
  assumes "rs_inv s" and "reg_ok (rs_abs s)" and "FindSession sid s = Some x" and "room_id x \<noteq> rid"
    and "FindRoom rid s \<noteq> None"
  shows "\<exists>js. distinct js \<and> set js = {j. in_room s j rid} \<and>
     join_msgs E sid rid x (GetRoomMembers rid None (left_room sid s)) =
       concat (map (\<lambda>j. post E j (joined_msg rid (user_id x) (c_str (display_name x))) @
          post E sid (joined_msg rid (user_id (the (FindSession j s))) (c_str (display_name (the (FindSession j s)))))) js)"
proof -
  let ?l = "left_room sid s" and ?ms = "GetRoomMembers rid None (left_room sid s)"
  have inv: "rs_inv ?l" using assms(1) by (simp add: left_room_def inv_intros)
  have "FindRoom rid ?l \<noteq> None" using assms(5) by (simp add: left_room_def state_simps)
  note ids = room_ids_of_members [OF inv this]
  have "in_room ?l j rid \<longleftrightarrow> in_room s j rid" for j
    using assms(3,4) by (auto simp: left_room_def state_simps in_room_iff)
  moreover have "logged_in m \<and> FindSession (session_id m) s = Some m" if m: "m \<in> set ?ms" for m
  proof -
    obtain j where j: "FindSession j ?l = Some m" "rid \<noteq> no_room_id" "room_id m = rid"
      using m by (auto simp: GetRoomMembers_in_set [OF inv])
    then have s: "FindSession j s = Some m"
      using FindSession_left_room [OF assms(3), of j] by (auto split: if_splits)
    then have "session_id m = j" using rs_invD(4) [OF assms(1)] by (simp add: session_ok_def)
    then show ?thesis using s j member_logged_in [OF assms(2)] by simp
  qed
  ultimately show ?thesis
    using ids by - (rule exI [of _ "map session_id ?ms"], simp add: join_msgs_def comp_def cong: map_cong)
qed

lemma room_info_spec:
  assumes "rs_inv s" and "FindRoom rid s = Some r"
  shows "BuildRoomInfo r = RoomInfo rid (Some (room_name r)) (of_nat (card {j. in_room s j rid})) \<and>
     (rid, room_name r) \<in> {(1001, ''Lobby''), (1002, ''Dev''), (1003, ''Chat'')}"
proof -
  have ok: "room_ok rid r" by (rule rs_invD(5) [OF assms])
  have "set (members r) = {j. in_room s j rid}"
    using rs_invD(6) [OF assms(1), of _ rid] assms(2) by (auto simp: member_of_def)
  then have "length (members r) = card {j. in_room s j rid}"
    using ok distinct_card [of "members r"] by (simp add: room_ok_def)
  moreover have "c_str (room_name r) = room_name r"
    using ok by (auto simp: room_ok_def c_str_def)
  ultimately show ?thesis
    using ok by (simp add: BuildRoomInfo_def CreateRoomInfoDirect_def room_ok_def)
qed

lemma room_infos_eq:
  assumes "\<And>i. i \<in> S \<Longrightarrow> \<exists>rid name. i = RoomInfo rid (Some name) (f rid) \<and>
      (rid, name) \<in> {(1001, ''Lobby''), (1002, ''Dev''), (1003, ''Chat'')}"
    and "room_id_I ` S = {1001, 1002, 1003}"
  shows "S = {RoomInfo rid (Some name) (f rid) | rid name.
      (rid, name) \<in> {(1001, ''Lobby''), (1002, ''Dev''), (1003, ''Chat'')}}"
proof -
  have "RoomInfo rid (Some name) (f rid) \<in> S"
    if rn: "(rid, name) \<in> {(1001, ''Lobby''), (1002, ''Dev''), (1003, ''Chat'')}" for rid name
  proof -
    have "rid \<in> room_id_I ` S" using rn assms(2) by auto
    then obtain i where "i \<in> S" "room_id_I i = rid" by auto
    then show ?thesis using assms(1) [of i] rn by auto
  qed
  then show ?thesis using assms(1) by blast
qed

section \<open>Properties\<close>

text \<open>
  C1.  Whatever sequence of events the network delivers to a fresh server, \<open>Update\<close> handles all
  of it without dereferencing a null pointer, and afterwards the session table and the room
  table agree on who is where, rooms hold only logged-in users, login names are non-empty, at
  most 32 bytes long and pairwise different, and every queued message has between 1 and 2048
  bytes.
\<close>

theorem update_keeps_invariant:
  "\<exists>g. Update E es (GameLogicSystem_init (RoomSystem_init (iter_order E))) = Some g \<and> game_inv g"
  using game_inv_reachable [of E es "iter_order E"] by (simp add: Update_run)

text \<open>
  C2.  Refinement: seen through the abstraction to a registry (session to login name and room),
  the server implements the nine-case specification \<open>reg_step\<close> of its events.
\<close>

theorem update_refines_registry:
  "\<exists>g. Update E es (GameLogicSystem_init (RoomSystem_init (iter_order E))) = Some g \<and>
       rs_abs (room_system g) = fold reg_step es Map.empty"
  by (simp add: Update_run run_refines GameLogicSystem_init_def rs_inv_init rs_abs_init)

text \<open>
  C4.  A login request of a connected session is answered in every case.  It succeeds exactly
  when the name has 1 to 32 bytes and no other logged-in session has it: then the session is
  logged in under that name and otherwise unchanged, every other session and all rooms are as
  before, and the positive reply carries the user's id and the name (as a C string).  Otherwise
  only a reply with the right error code is queued.
\<close>

theorem login_request_outcome:
  assumes "rs_inv (room_system g)" and "FindSession sid (room_system g) = Some x"
  shows "if name = [] \<or> 32 < length name then
      HandleLoginRequest E sid req name g = Some (g\<lparr>outgoing_messages := outgoing_messages g @
        post E sid (login_reply req False ErrorCode_INVALID_NAME None)\<rparr>)
    else if \<exists>j y. j \<noteq> sid \<and> FindSession j (room_system g) = Some y \<and> logged_in y \<and> display_name y = name then
      HandleLoginRequest E sid req name g = Some (g\<lparr>outgoing_messages := outgoing_messages g @
        post E sid (login_reply req False ErrorCode_DUPLICATE_NAME None)\<rparr>)
    else
      (\<exists>s'. HandleLoginRequest E sid req name g = Some (g\<lparr>room_system := s',
          outgoing_messages := outgoing_messages g @
            post E sid (login_reply req True ErrorCode_NONE (Some (UserInfo (user_id x) (Some (c_str name)))))\<rparr>)
        \<and> FindSession sid s' = Some (x\<lparr>logged_in := True, display_name := name\<rparr>)
        \<and> (\<forall>j. j \<noteq> sid \<longrightarrow> FindSession j s' = FindSession j (room_system g))
        \<and> rooms s' = rooms (room_system g))"
  unfolding IsDisplayNameTaken_iff [OF rs_invD(1) [OF assms(1)], of name sid, symmetric]
  using assms(2) by (auto simp: HandleLoginRequest_eq login_error_def state_simps)

text \<open>One session asks for a name that is taken, another session logs in again under a free one.\<close>

theorem login_request_outcome_witness:
  "HandleLoginRequest example_env 1 7 ''Bob'' example_state = Some
     (example_state\<lparr>outgoing_messages := outgoing_messages example_state @
        post example_env 1 (login_reply 7 False ErrorCode_DUPLICATE_NAME None)\<rparr>)
   \<and> (\<exists>g'. HandleLoginRequest example_env 1 7 ''Eve'' example_state = Some g' \<and>
        FindSession 1 (room_system g') =
          Some \<lparr>session_id = 1, user_id = 1, display_name = ''Eve'', room_id = 1001, logged_in = True\<rparr>)"
proof -
  have inv: "rs_inv (room_system example_state)" using example_inv by (simp add: game_inv_def)
  note outcome = login_request_outcome [OF inv example_find(1), where E = example_env and req = 7]
  have "\<exists>j y. j \<noteq> 1 \<and> FindSession j (room_system example_state) = Some y \<and> logged_in y \<and> display_name y = ''Bob''"
    using example_find(2) by (intro exI [of _ 2]) simp
  then have "HandleLoginRequest example_env 1 7 ''Bob'' example_state = Some
     (example_state\<lparr>outgoing_messages := outgoing_messages example_state @
        post example_env 1 (login_reply 7 False ErrorCode_DUPLICATE_NAME None)\<rparr>)"
    using outcome [of "''Bob''"] by simp
  moreover have free: "\<not> (\<exists>j y. j \<noteq> 1 \<and> FindSession j (room_system example_state) = Some y \<and> logged_in y \<and> display_name y = ''Eve'')"
    by (auto simp: example_rooms FindSession_def um_find_def split: if_splits)
  then have "\<exists>g'. HandleLoginRequest example_env 1 7 ''Eve'' example_state = Some g' \<and>
        FindSession 1 (room_system g') =
          Some \<lparr>session_id = 1, user_id = 1, display_name = ''Eve'', room_id = 1001, logged_in = True\<rparr>"
    using outcome [of "''Eve''"] unfolding if_not_P [OF free] by auto
  ultimately show ?thesis by blast
qed

text \<open>
  C5.  A join request of a logged-in session for another existing room moves it there: it is in
  the new room and in no other, by its own record and by the member sets, every other session
  stays where it was, and the state stays coherent.
\<close>

theorem join_moves_session:
  assumes "rs_inv (room_system g)" and "FindSession sid (room_system g) = Some x"
    and "logged_in x" and "rid \<in> {1001, 1002, 1003}" and "room_id x \<noteq> rid"
  shows "\<exists>g'. HandleJoinRoomRequest E sid req rid g = Some g' \<and> rs_inv (room_system g') \<and>
     FindSession sid (room_system g') = Some (x\<lparr>room_id := rid\<rparr>) \<and>
     (\<forall>k. member_of (room_system g') sid k \<longleftrightarrow> k = rid) \<and>
     (\<forall>j k. j \<noteq> sid \<longrightarrow> member_of (room_system g') j k = member_of (room_system g) j k)"
proof -
  let ?s = "room_system g" and ?s' = "joined_room E sid rid (room_system g)"
  have r: "FindRoom rid ?s \<noteq> None" using FindRoom_iff [OF assms(1), of rid] assms(4) by simp
  have nz: "rid \<noteq> no_room_id" by (rule FindRoom_nonzero [OF assms(1) r])
  have inv: "rs_inv ?s'" by (rule rs_inv_joined_room [OF assms(1)])
  obtain g' where g': "HandleJoinRoomRequest E sid req rid g = Some g'" "room_system g' = ?s'"
    using assms r by (simp add: HandleJoinRoomRequest_eq join_error_def Let_def)
  have "member_of ?s' j k \<longleftrightarrow> (if j = sid then k = rid else member_of ?s j k)" for j k
    using rs_invD(6) [OF inv] rs_invD(6) [OF assms(1)] by (simp add: in_room_joined_room [OF assms(2) r nz])
  then show ?thesis
    using g' inv by (simp add: FindSession_joined_room [OF assms(2) r])
qed

theorem join_moves_session_witness:
  "\<exists>g'. HandleJoinRoomRequest example_env 1 9 1003 example_state = Some g' \<and> rs_inv (room_system g') \<and>
     FindSession 1 (room_system g') =
       Some \<lparr>session_id = 1, user_id = 1, display_name = ''Ann'', room_id = 1003, logged_in = True\<rparr> \<and>
     (\<forall>k. member_of (room_system g') 1 k \<longleftrightarrow> k = 1003) \<and>
     (\<forall>j k. j \<noteq> 1 \<longrightarrow> member_of (room_system g') j k = member_of (room_system example_state) j k)"
proof -
  have inv: "rs_inv (room_system example_state)" using example_inv by (simp add: game_inv_def)
  show ?thesis
    using join_moves_session [OF inv example_find(1), of 1003 example_env 9] by simp
qed

text \<open>
  C6.  Join notifications, message by message.  The sessions left behind in the old room (each
  once) are told that the user left; then the joining session gets the positive reply, with the
  room's name and the number of its members including itself, and the welcome text; then, for
  every session already in the new room (each once), that session is told of the newcomer, by the
  newcomer's id and name, and the newcomer of that session, by that session's id and name.  Nobody
  else gets anything.
\<close>

theorem join_notifies_rooms:
  assumes "game_inv g" and "FindSession sid (room_system g) = Some x"
    and "logged_in x" and "rid \<in> {1001, 1002, 1003}" and "room_id x \<noteq> rid"
  shows "\<exists>g' name ls js. HandleJoinRoomRequest E sid req rid g = Some g' \<and>
     (rid, name) \<in> {(1001, ''Lobby''), (1002, ''Dev''), (1003, ''Chat'')} \<and>
     distinct ls \<and> set ls = {j. j \<noteq> sid \<and> room_id x \<noteq> no_room_id \<and> in_room (room_system g) j (room_id x)} \<and>
     distinct js \<and> set js = {j. in_room (room_system g) j rid} \<and>
     outgoing_messages g' = outgoing_messages g @
       concat (map (\<lambda>j. post E j (left_msg (room_id x) (user_id x) (c_str (display_name x)))) ls) @
       post E sid (join_reply req True ErrorCode_NONE (Some (RoomInfo rid (Some name) (of_nat (Suc (length js)))))) @
       post E sid (system_msg rid (c_str (name @ text_entered))) @
       concat (map (\<lambda>j. post E j (joined_msg rid (user_id x) (c_str (display_name x))) @
         post E sid (joined_msg rid (user_id (the (FindSession j (room_system g))))
           (c_str (display_name (the (FindSession j (room_system g))))))) js)"
proof -
  let ?s = "room_system g" and ?s' = "joined_room E sid rid (room_system g)"
  have inv: "rs_inv ?s" and ok: "reg_ok (rs_abs ?s)" using assms(1) by (simp_all add: game_inv_def)
  have r: "FindRoom rid ?s \<noteq> None" using FindRoom_iff [OF inv, of rid] assms(4) by simp
  have inv': "rs_inv ?s'" by (rule rs_inv_joined_room [OF inv])
  obtain q where q: "FindRoom rid ?s' = Some q" "room_id_R q = rid"
    using FindRoom_joined_room_Some [OF r, of E sid] rs_invD(5) [OF inv'] unfolding room_ok_def by blast
  obtain g' where g': "HandleJoinRoomRequest E sid req rid g = Some g'"
      "outgoing_messages g' = outgoing_messages g @ left_msgs E x ?s @
         post E sid (join_reply req True ErrorCode_NONE (Some (BuildRoomInfo q))) @
         post E sid (system_msg rid (c_str (room_name q @ text_entered))) @
         join_msgs E sid rid x (GetRoomMembers rid None (left_room sid ?s))"
    using assms(2,3,5) r q by (simp add: HandleJoinRoomRequest_eq join_error_def Let_def)
  from left_msgs_spec [OF inv assms(2,3), of E] obtain ls where
    ls: "distinct ls" "set ls = {j. j \<noteq> sid \<and> room_id x \<noteq> no_room_id \<and> in_room ?s j (room_id x)}"
      "left_msgs E x ?s = concat (map (\<lambda>j. post E j (left_msg (room_id x) (user_id x) (c_str (display_name x)))) ls)"
    by blast
  from join_msgs_spec [OF inv ok assms(2,5) r, of E] obtain js where
    js: "distinct js" "set js = {j. in_room ?s j rid}"
      "join_msgs E sid rid x (GetRoomMembers rid None (left_room sid ?s)) =
       concat (map (\<lambda>j. post E j (joined_msg rid (user_id x) (c_str (display_name x))) @
          post E sid (joined_msg rid (user_id (the (FindSession j ?s))) (c_str (display_name (the (FindSession j ?s)))))) js)"
    by blast
  have "{j. in_room ?s' j rid} = insert sid (set js)"
    using in_room_joined_room [OF assms(2) r FindRoom_nonzero [OF inv r]] js(2) by auto
  moreover have "sid \<notin> set js" using js(2) assms(2,5) by (simp add: in_room_iff)
  ultimately have "card {j. in_room ?s' j rid} = Suc (length js)" using js(1) by (simp add: distinct_card)
  then have "BuildRoomInfo q = RoomInfo rid (Some (room_name q)) (of_nat (Suc (length js))) \<and>
     (rid, room_name q) \<in> {(1001, ''Lobby''), (1002, ''Dev''), (1003, ''Chat'')}"
    using room_info_spec [OF inv' q(1)] by simp
  with g' ls js show ?thesis
    by (intro exI [of _ g'] exI [of _ "room_name q"] exI [of _ ls] exI [of _ js]) simp
qed

text \<open>Ann leaves the lobby, where Bob stays, for the room where Cid is.\<close>

theorem join_notifies_rooms_witness:
  "\<exists>g'. HandleJoinRoomRequest example_env 1 9 1002 example_state = Some g' \<and>
     outgoing_messages g' = outgoing_messages example_state @
       post example_env 2 (left_msg 1001 1 ''Ann'') @
       post example_env 1 (join_reply 9 True ErrorCode_NONE (Some (RoomInfo 1002 (Some ''Dev'') 2))) @
       post example_env 1 (system_msg 1002 (c_str (''Dev'' @ text_entered))) @
       post example_env 3 (joined_msg 1002 1 ''Ann'') @
       post example_env 1 (joined_msg 1002 3 ''Cid'')"
proof -
  have names: "c_str ''Ann'' = ''Ann''" "c_str ''Cid'' = ''Cid''" by (simp_all add: c_str_def)
  have cid: "FindSession 3 (room_system example_state) =
      Some \<lparr>session_id = 3, user_id = 3, display_name = ''Cid'', room_id = 1002, logged_in = True\<rparr>"
    by (simp add: example_rooms FindSession_def um_find_def)
  have old: "{j. j \<noteq> 1 \<and> 1001 \<noteq> no_room_id \<and> in_room (room_system example_state) j 1001} = {2}"
    and new: "{j. in_room (room_system example_state) j 1002} = {3}"
    by (auto simp: in_room_iff example_rooms FindSession_def um_find_def no_room_id_def split: if_splits)
  have single: "xs = [y]" if "distinct xs" "set xs = {y}" for xs :: "u32 list" and y
    using that by (cases xs; cases "tl xs") auto
  from join_notifies_rooms [OF example_inv example_find(1), of 1002 example_env 9]
  obtain g' name ls js where g': "HandleJoinRoomRequest example_env 1 9 1002 example_state = Some g'" "name = ''Dev''"
    and ls: "distinct ls" "set ls = {2}" and js: "distinct js" "set js = {3}"
    and msgs: "outgoing_messages g' = outgoing_messages example_state @
       concat (map (\<lambda>j. post example_env j (left_msg 1001 1 (c_str ''Ann''))) ls) @
       post example_env 1 (join_reply 9 True ErrorCode_NONE (Some (RoomInfo 1002 (Some name) (of_nat (Suc (length js)))))) @
       post example_env 1 (system_msg 1002 (c_str (name @ text_entered))) @
       concat (map (\<lambda>j. post example_env j (joined_msg 1002 1 (c_str ''Ann'')) @
         post example_env 1 (joined_msg 1002 (user_id (the (FindSession j (room_system example_state))))
           (c_str (display_name (the (FindSession j (room_system example_state))))))) js)"
    by (simp add: old [simplified] new) blast
  show ?thesis
    using g' msgs by (simp add: single [OF ls] single [OF js] names cid)
qed

text \<open>
  C7.  A chat message of 1 to 512 bytes sent from a room is queued for exactly the sessions in
  that room, the sender included, each once; each copy carries the room, the sender and the
  content (both as C strings) and its own reading of the clock, in increasing order.  Nothing
  else in the state changes.
\<close>

theorem chat_reaches_room:
  assumes "rs_inv (room_system g)" and "FindSession sid (room_system g) = Some x"
    and "logged_in x" and "room_id x \<noteq> no_room_id" and "content \<noteq> []" and "length content \<le> 512"
  shows "\<exists>js. distinct js \<and> set js = {j. in_room (room_system g) j (room_id x)} \<and> sid \<in> set js \<and>
     HandleChatSendRequest E sid req content g =
       g\<lparr>outgoing_messages := outgoing_messages g @
            concat (map (\<lambda>(t, j). post E j
              (chat_msg (room_id x) (user_id x) (c_str (display_name x)) (c_str content) (now_ms E t)))
              (enumerate (clock_reads g) js)),
          clock_reads := clock_reads g + length js\<rparr>"
proof -
  let ?s = "room_system g" and ?ms = "GetRoomMembers (room_id x) None (room_system g)"
  have here: "in_room ?s sid (room_id x)" using assms(2,4) by (simp add: in_room_iff)
  note ids = room_ids_of_members [OF assms(1) in_room_FindRoom [OF assms(1) here]]
  have "enumerate t (map session_id ms) = map (\<lambda>(i, m). (i, session_id m)) (enumerate t ms)"
    for t and ms :: "SessionState list"
    by (induction ms arbitrary: t) simp_all
  then have "HandleChatSendRequest E sid req content g =
       g\<lparr>outgoing_messages := outgoing_messages g @
            concat (map (\<lambda>(t, j). post E j
              (chat_msg (room_id x) (user_id x) (c_str (display_name x)) (c_str content) (now_ms E t)))
              (enumerate (clock_reads g) (map session_id ?ms))),
          clock_reads := clock_reads g + length (map session_id ?ms)\<rparr>"
    using assms(2-) by (simp add: HandleChatSendRequest_eq chat_msgs_def Let_def comp_def case_prod_unfold)
  then show ?thesis
    using ids here by (intro exI [of _ "map session_id ?ms"]) simp
qed

theorem chat_reaches_room_witness:
  "\<exists>js. distinct js \<and> set js = {j. in_room (room_system example_state) j 1001} \<and> 1 \<in> set js \<and>
     HandleChatSendRequest example_env 1 5 ''hi'' example_state =
       example_state\<lparr>outgoing_messages := outgoing_messages example_state @
            concat (map (\<lambda>(t, j). post example_env j
              (chat_msg 1001 1 (c_str ''Ann'') (c_str ''hi'') (now_ms example_env t)))
              (enumerate (clock_reads example_state) js)),
          clock_reads := clock_reads example_state + length js\<rparr>"
proof -
  have inv: "rs_inv (room_system example_state)" using example_inv by (simp add: game_inv_def)
  show ?thesis
    using chat_reaches_room [OF inv example_find(1), of "''hi''" example_env 5] by simp
qed

text \<open>
  C8.  A chat request that is not delivered is answered as the code says: silence without a
  login, and a system message when the session is in no room, the content is empty or it is
  longer than 512 bytes; the rooms and sessions never change.
\<close>

theorem chat_rejections:
  assumes "FindSession sid (room_system g) = Some x"
    and "\<not> logged_in x \<or> room_id x = no_room_id \<or> content = [] \<or> 512 < length content"
  shows "HandleChatSendRequest E sid req content g =
    (if \<not> logged_in x then g
     else g\<lparr>outgoing_messages := outgoing_messages g @ post E sid
       (if room_id x = no_room_id then system_msg 0 (c_str text_join_first)
        else if content = [] then system_msg (room_id x) (c_str text_empty_message)
        else system_msg (room_id x) (c_str text_too_long))\<rparr>)"
  using assms by (auto simp: HandleChatSendRequest_eq)

theorem chat_rejections_witness:
  "HandleChatSendRequest example_env 1 5 (replicate 513 CHR ''x'') example_state =
     example_state\<lparr>outgoing_messages := outgoing_messages example_state @
       post example_env 1 (system_msg 1001 (c_str text_too_long))\<rparr>"
proof -
  have long: "512 < length (replicate 513 CHR ''x'')" by (simp only: length_replicate)
  then have "replicate 513 CHR ''x'' \<noteq> []" by (metis list.size(3) not_less_zero)
  then show ?thesis
    using chat_rejections [OF example_find(1), of "replicate 513 CHR ''x''" example_env 5] long
    by (simp add: no_room_id_def)
qed

text \<open>
  C9.  Leaving.  A session that is in a room and asks to leave, and a session whose connection
  ends or that asks to disconnect, is gone from the room's member set, and every session left
  in that room is told so exactly once; a leave request is answered with the reply and a text,
  a disconnect request with its reply and an entry in the pending disconnects.
\<close>

theorem departures_notify_room:
  assumes "rs_inv (room_system g)" and "FindSession sid (room_system g) = Some x"
    and "logged_in x" and "room_id x \<noteq> no_room_id"
  shows "\<exists>ls. distinct ls \<and> set ls = {j. j \<noteq> sid \<and> in_room (room_system g) j (room_id x)} \<and>
     (let bye = concat (map (\<lambda>j. post E j (left_msg (room_id x) (user_id x) (c_str (display_name x)))) ls)
      in HandleLeaveRoomRequest E sid req g =
           g\<lparr>room_system := RemoveSessionFromCurrentRoom sid (room_system g),
             outgoing_messages := outgoing_messages g @ bye @
               post E sid (leave_reply req True ErrorCode_NONE) @
               post E sid (system_msg (room_id x) (c_str text_left))\<rparr> \<and>
         HandleSessionDisconnected E sid g =
           g\<lparr>room_system := RemoveSession sid (room_system g),
             outgoing_messages := outgoing_messages g @ bye\<rparr> \<and>
         HandleDisconnectRequest E sid req g =
           g\<lparr>room_system := RemoveSession sid (room_system g),
             outgoing_messages := outgoing_messages g @ post E sid (disconnect_reply req) @ bye,
             pending_disconnects := pending_disconnects g @ [sid]\<rparr>)"
proof -
  from left_msgs_spec [OF assms(1-3), of E] assms(4) obtain ls where
    "distinct ls" "set ls = {j. j \<noteq> sid \<and> in_room (room_system g) j (room_id x)}"
    "left_msgs E x (room_system g) =
       concat (map (\<lambda>j. post E j (left_msg (room_id x) (user_id x) (c_str (display_name x)))) ls)"
    by auto
  then show ?thesis
    using assms(2,4)
    by (intro exI [of _ ls])
       (simp add: HandleLeaveRoomRequest_eq HandleSessionDisconnected_eq HandleDisconnectRequest_eq
          leave_msgs_def)
qed

theorem departures_notify_room_witness:
  "\<exists>ls. distinct ls \<and> set ls = {j. j \<noteq> 1 \<and> in_room (room_system example_state) j 1001} \<and>
     HandleSessionDisconnected example_env 1 example_state =
       example_state\<lparr>room_system := RemoveSession 1 (room_system example_state),
         outgoing_messages := outgoing_messages example_state @
           concat (map (\<lambda>j. post example_env j (left_msg 1001 1 (c_str ''Ann''))) ls)\<rparr>"
proof -
  have inv: "rs_inv (room_system example_state)" using example_inv by (simp add: game_inv_def)
  show ?thesis
    using departures_notify_room [OF inv example_find(1), of example_env 1] by (auto simp: Let_def)
qed

text \<open>
  After a session has left its room or has been removed it is in no member set; removing
  it also removes its record, and neither touches any other session.
\<close>

lemma departed_session_is_gone:
  assumes "rs_inv s"
  shows "\<not> member_of (RemoveSessionFromCurrentRoom sid s) sid k \<and>
    \<not> member_of (RemoveSession sid s) sid k \<and> FindSession sid (RemoveSession sid s) = None \<and>
    (\<forall>j. j \<noteq> sid \<longrightarrow>
       FindSession j (RemoveSession sid s) = FindSession j s \<and>
       FindSession j (RemoveSessionFromCurrentRoom sid s) = FindSession j s \<and>
       member_of (RemoveSession sid s) j k = member_of s j k)"
  using assms by (auto simp: state_simps rs_invD(6))

text \<open>
  C11.  Isolation.  Handling one event queues messages only for the session the event belongs
  to and for sessions that share a room with it, before or after the event.
\<close>

theorem messages_stay_in_room:
  assumes "rs_inv (room_system g)" and "HandleEvent E e g = Some g'"
    and "m \<in> set (outgoing_messages g')" and "m \<notin> set (outgoing_messages g)"
    and "session_id_O m \<noteq> event_session e"
  shows "\<exists>k. (in_room (room_system g) (event_session e) k \<or> in_room (room_system g') (event_session e) k) \<and>
     in_room (room_system g) (session_id_O m) k"
  using step_recipient [OF assms(1), of m E e] assms(2-) by (auto simp: HandleEvent_step)

lemma example_chat_to_bob:
  "\<lparr>session_id_O = 2, payload_O = put_message (chat_msg 1001 1 ''Ann'' ''hi'' 1)\<rparr> \<in>
     set (outgoing_messages (HandleChatSendRequest example_env 1 5 ''hi'' (example_state\<lparr>outgoing_messages := [], clock_reads := 0\<rparr>)))"
proof -
  have "GetRoomMembers 1001 None (room_system example_state) = map (\<lambda>j. the (FindSession j (room_system example_state))) [1, 2]"
    by (simp add: GetRoomMembers_def FindRoom_def FindSession_def example_rooms um_find_def List.map_filter_simps)
  moreover have "length (put_message (chat_msg 1001 1 ''Ann'' ''hi'' 1)) \<le> 2048 \<and> put_message (chat_msg 1001 1 ''Ann'' ''hi'' 1) \<noteq> []"
    by code_simp
  ultimately show ?thesis
    using example_find(1,2)
    by (simp add: HandleChatSendRequest_eq chat_msgs_def post_def c_str_def no_room_id_def Let_def
          example_env_def example_fb_def)
qed

theorem messages_stay_in_room_witness:
  "\<exists>k. in_room (room_system example_state) 1 k \<and> in_room (room_system example_state) 2 k"
proof -
  let ?g = "example_state\<lparr>outgoing_messages := [], clock_reads := 0\<rparr>"
  have inv: "rs_inv (room_system ?g)" using example_inv by (simp add: game_inv_def)
  show ?thesis
    using messages_stay_in_room [OF inv, of example_env "ChatSendRequestEvent 1 5 ''hi''" _
        "\<lparr>session_id_O = 2, payload_O = put_message (chat_msg 1001 1 ''Ann'' ''hi'' 1)\<rparr>"]
      example_chat_to_bob by (simp add: room_system_chat)
qed

text \<open>
  Requests of sessions the server does not know (they arrive after the session has been
  removed, or before its connect event) change neither sessions nor rooms; login, join, chat
  and leave requests of such sessions have no effect at all.
\<close>

lemma unknown_session_ignored:
  assumes "FindSession (event_session e) (room_system g) = None"
    and "\<And>sid. e \<noteq> SessionConnectedEvent sid"
  shows "\<exists>g'. HandleEvent E e g = Some g' \<and> room_system g' = room_system g \<and>
     (\<forall>sid req. e = LeaveRoomRequestEvent sid req \<or> (\<exists>name. e = LoginRequestEvent sid req name) \<or>
        (\<exists>rid. e = JoinRoomRequestEvent sid req rid) \<or> (\<exists>c. e = ChatSendRequestEvent sid req c) \<longrightarrow> g' = g)"
  using assms
  by (cases e)
     (auto simp: handler_eqs RemoveSession_absent)

text \<open>
  C13.  The answer to a room list request lists each of the three rooms exactly once, with its
  name and with the number of sessions that are in it.
\<close>

theorem room_list_counts:
  assumes "rs_inv (room_system g)"
  shows "\<exists>infos. distinct infos \<and>
     set infos = {RoomInfo rid (Some name) (of_nat (card {j. in_room (room_system g) j rid})) | rid name.
       (rid, name) \<in> {(1001, ''Lobby''), (1002, ''Dev''), (1003, ''Chat'')}} \<and>
     HandleRoomListRequest E sid req g =
       g\<lparr>outgoing_messages := outgoing_messages g @
          post E sid (CreateMessage req MessagePayload_RoomListResponse
            (RoomListResponse (Some (map Some infos))))\<rparr>"
proof -
  let ?s = "room_system g"
  define infos where "infos = map (\<lambda>(_, r). BuildRoomInfo r) (rooms ?s)"
  have inv: "um_distinct (rooms ?s)" "set (um_keys (rooms ?s)) = {1001, 1002, 1003}"
    using rs_invD [OF assms] by auto
  have info: "BuildRoomInfo r = RoomInfo rid (Some (room_name r)) (of_nat (card {j. in_room ?s j rid})) \<and>
      (rid, room_name r) \<in> {(1001, ''Lobby''), (1002, ''Dev''), (1003, ''Chat'')}"
    if "(rid, r) \<in> set (rooms ?s)" for rid r
    using room_info_spec [OF assms, of rid r] that um_find_in_set [OF inv(1)] by (simp add: FindRoom_def)
  have "map room_id_I infos = um_keys (rooms ?s)"
    using info by (auto simp: infos_def um_keys_def)
  then have dist: "distinct infos" and ids: "room_id_I ` set infos = {1001, 1002, 1003}"
    using inv distinct_map [of room_id_I infos] by (simp_all add: um_distinct_def flip: set_map)
  have sub: "i \<in> set infos \<Longrightarrow> \<exists>rid name. i = RoomInfo rid (Some name) (of_nat (card {j. in_room ?s j rid})) \<and>
      (rid, name) \<in> {(1001, ''Lobby''), (1002, ''Dev''), (1003, ''Chat'')}" for i
    using info by (fastforce simp: infos_def)
  have "set infos = {RoomInfo rid (Some name) (of_nat (card {j. in_room ?s j rid})) | rid name.
       (rid, name) \<in> {(1001, ''Lobby''), (1002, ''Dev''), (1003, ''Chat'')}}"
    by (rule room_infos_eq [OF sub ids])
  then show ?thesis
    using dist by (intro exI [of _ infos])
      (simp add: HandleRoomListRequest_def QueueRoomListResponse_eq infos_def comp_def case_prod_unfold)
qed

theorem room_list_counts_witness:
  "\<exists>infos. distinct infos \<and>
     set infos = {RoomInfo rid (Some name) (of_nat (card {j. in_room (room_system example_state) j rid})) | rid name.
       (rid, name) \<in> {(1001, ''Lobby''), (1002, ''Dev''), (1003, ''Chat'')}} \<and>
     HandleRoomListRequest example_env 1 4 example_state =
       example_state\<lparr>outgoing_messages := outgoing_messages example_state @
          post example_env 1 (CreateMessage 4 MessagePayload_RoomListResponse
            (RoomListResponse (Some (map Some infos))))\<rparr>"
proof -
  have inv: "rs_inv (room_system example_state)" using example_inv by (simp add: game_inv_def)
  show ?thesis by (rule room_list_counts [OF inv])
qed

text \<open>
  C14.  The uniqueness of names does not survive the wire: names are compared as whole strings
  but sent as C strings, so two users can log in under different names that every other client
  is shown as the same one.
\<close>

theorem nul_byte_duplicates_name:
  "\<exists>g x y. Update E
       [SessionConnectedEvent 1, SessionConnectedEvent 2, LoginRequestEvent 1 1 ''Ann'',
        LoginRequestEvent 2 1 (''Ann'' @ [CHR 0x00, CHR ''x''])]
       (GameLogicSystem_init (RoomSystem_init (iter_order E))) = Some g \<and>
     FindSession 1 (room_system g) = Some x \<and> FindSession 2 (room_system g) = Some y \<and>
     logged_in x \<and> logged_in y \<and> display_name x \<noteq> display_name y \<and>
     display_name_U (BuildUserInfo x) = display_name_U (BuildUserInfo y)"
proof -
  let ?es = "[SessionConnectedEvent 1, SessionConnectedEvent 2, LoginRequestEvent 1 1 ''Ann'',
        LoginRequestEvent 2 1 (''Ann'' @ [CHR 0x00, CHR ''x''])]"
  let ?g = "fold (step E) ?es (GameLogicSystem_init (RoomSystem_init (iter_order E)))"
  have "rs_abs (room_system ?g) = fold reg_step ?es Map.empty"
    by (simp only: run_refines GameLogicSystem_init_def GameLogicSystem.select_convs rs_inv_init rs_abs_init)
  then have abs: "rs_abs (room_system ?g) 1 = Some (Some ''Ann'', None)"
      "rs_abs (room_system ?g) 2 = Some (Some (''Ann'' @ [CHR 0x00, CHR ''x'']), None)"
    by (simp_all add: reg_add_def reg_login_def ran_def image_iff)
  then obtain x y where "FindSession 1 (room_system ?g) = Some x" "logged_in x" "display_name x = ''Ann''"
      "FindSession 2 (room_system ?g) = Some y" "logged_in y" "display_name y = ''Ann'' @ [CHR 0x00, CHR ''x'']"
    by (auto simp: rs_abs_def session_view_def split: if_splits)
  then show ?thesis
    by (intro exI [of _ ?g] exI [of _ x] exI [of _ y])
       (simp add: Update_run BuildUserInfo_def CreateUserInfoDirect_def c_str_def)
qed

section \<open>Every queued message is accepted\<close>

text \<open>
  C26.  Every message the chat logic has queued in any run fits into a packet, passes the verification of
  \<^verbatim>\<open>VerifiedMessage\<close> at the receiver and has a payload of the type its tag announces; it consists of at
  most five tables, far below the limit of the verifier.
\<close>

theorem queued_messages_accepted:
  assumes "fb_ok (fb E)" and "Update E es (GameLogicSystem_init (RoomSystem_init rh)) = Some g"
    and "out \<in> set (outgoing_messages g)"
  shows "1 \<le> length (payload_O out) \<and> length (payload_O out) \<le> max_protocol_payload_bytes
    \<and> (\<exists>rq p. VerifiedMessage (fb E) (payload_O out) = Some (CreateMessage rq (MessagePayloadTraits p) p)
         \<and> 1 + payload_tables p \<le> 5)"
proof -
  have "sendable out" using game_inv_reachable [OF assms(2)] assms(3) by (simp add: game_inv_def list_all_iff)
  moreover have "accepted E out" using accepted_reachable [OF assms(2)] assms(3) by (simp add: list_all_iff)
  then obtain rq p where "payload_O out = BuildMessage (fb E) rq (MessagePayloadTraits p) p" "buildable p"
      "1 + payload_tables p \<le> 5"
    by (auto simp: accepted_def)
  ultimately show ?thesis
    using BuildMessage_roundtrip [OF assms(1) refl, of p rq]
    by (auto simp: sendable_def max_protocol_payload_bytes_def Suc_le_eq)
qed

lemma example_refusal:
  "map_option outgoing_messages (Update example_env [SessionConnectedEvent 1, LeaveRoomRequestEvent 1 7]
     (GameLogicSystem_init (RoomSystem_init rev))) =
     Some [\<lparr>session_id_O = 1, payload_O = put_message (leave_reply 7 False ErrorCode_NOT_IN_ROOM)\<rparr>]"
  by code_simp

theorem queued_messages_accepted_witness:
  "length (put_message (leave_reply 7 False ErrorCode_NOT_IN_ROOM)) \<le> 2048
   \<and> (\<exists>m. VerifiedMessage example_fb (put_message (leave_reply 7 False ErrorCode_NOT_IN_ROOM)) = Some m)"
proof -
  obtain g where "Update example_env [SessionConnectedEvent 1, LeaveRoomRequestEvent 1 7]
      (GameLogicSystem_init (RoomSystem_init rev)) = Some g"
    and "outgoing_messages g = [\<lparr>session_id_O = 1, payload_O = put_message (leave_reply 7 False ErrorCode_NOT_IN_ROOM)\<rparr>]"
    using example_refusal by auto
  with queued_messages_accepted [OF _ this(1)] example_fb_ok show ?thesis
    by (auto simp: example_env_def max_protocol_payload_bytes_def)
qed

end
