(* ===== verification/Wire_Format.thy ===== *)
theory Wire_Format
  imports Night_Prelude "HOL-Library.Sublist"
begin

text \<open>
  The wire format and its buffers (\<^verbatim>\<open>Protocol.h\<close>, \<^verbatim>\<open>BufferPool.h\<close>, \<^verbatim>\<open>TransportDetail.h\<close>).

  A \<^verbatim>\<open>std::vector<uint8_t>\<close> is its contents with its capacity.  A \<^verbatim>\<open>std::size_t\<close> is a natural
  number, a \<^verbatim>\<open>uint32_t\<close> a 32-bit word, so the narrowing cast of a payload size truncates.
  Writing or copying outside a buffer is undefined in C++; the functions that do raw writes
  return \<open>None\<close> there, and that this never happens is part of the theorems.
\<close>

section \<open>Protocol.h\<close>

definition MAGIC :: u16 where "MAGIC = 0x4E4E"
definition VERSION :: u8 where "VERSION = 1"
definition FLAG_KEEPALIVE :: u8 where "FLAG_KEEPALIVE = 0x01"
definition KNOWN_FLAGS_MASK :: u8 where "KNOWN_FLAGS_MASK = FLAG_KEEPALIVE"

definition MAGIC_OFFSET :: nat where "MAGIC_OFFSET = 0"
definition VERSION_OFFSET :: nat where "VERSION_OFFSET = 2"
definition FLAGS_OFFSET :: nat where "FLAGS_OFFSET = 3"
definition PAYLOAD_SIZE_OFFSET :: nat where "PAYLOAD_SIZE_OFFSET = 4"
definition HEADER_SIZE :: nat where "HEADER_SIZE = 8"
definition MAX_PAYLOAD_SIZE :: nat where "MAX_PAYLOAD_SIZE = 2048"

record Header =
  magic :: u16
  version :: u8
  flags :: u8
  payload_size :: u32

definition is_keepalive :: "Header \<Rightarrow> bool" where
  "is_keepalive h \<longleftrightarrow> flags h AND FLAG_KEEPALIVE \<noteq> 0"

text \<open>Durations, in the nanoseconds of the steady clock.\<close>

definition HEARTBEAT_INTERVAL :: int where "HEARTBEAT_INTERVAL = 5 * 10 ^ 9"
definition HEARTBEAT_TIMEOUT :: int where "HEARTBEAT_TIMEOUT = 15 * 10 ^ 9"

section \<open>BufferPool.h\<close>

record Buffer =
  buf_data :: bytes
  buf_capacity :: nat

definition empty_vector :: Buffer where
  "empty_vector = \<lparr>buf_data = [], buf_capacity = 0\<rparr>"

definition vec_reserve :: "nat \<Rightarrow> Buffer \<Rightarrow> Buffer" where
  "vec_reserve n b = b\<lparr>buf_capacity := max (buf_capacity b) n\<rparr>"

text \<open>
  New elements are zero.  The vector is reallocated only when the new size exceeds the
  capacity; the code never gets there, see \<open>acquire_props\<close> and the invariant of a session.
\<close>

definition vec_resize :: "nat \<Rightarrow> Buffer \<Rightarrow> Buffer" where
  "vec_resize n b =
     \<lparr>buf_data = take n (buf_data b) @ replicate (n - length (buf_data b)) 0,
      buf_capacity = max (buf_capacity b) n\<rparr>"

definition BLOCK_SIZE :: nat where "BLOCK_SIZE = HEADER_SIZE + MAX_PAYLOAD_SIZE"

text \<open>
  The pool of one thread, its back at the end of the list.  \<open>acquire\<close> and \<open>release\<close> act on the
  pool of the thread that runs them.
\<close>

definition acquire :: "nat \<Rightarrow> Buffer list \<Rightarrow> Buffer \<times> Buffer list" where
  "acquire n pool =
     (if BLOCK_SIZE < n then (empty_vector, pool)
      else if pool \<noteq> [] then (vec_resize n (last pool), butlast pool)
      else (vec_resize n (vec_reserve BLOCK_SIZE empty_vector), pool))"

definition release :: "nat \<Rightarrow> Buffer \<Rightarrow> Buffer list \<Rightarrow> Buffer list" where
  "release max_size_per_thread b pool =
     (if buf_capacity b \<noteq> BLOCK_SIZE then pool
      else if length pool < max_size_per_thread then pool @ [b\<lparr>buf_data := []\<rparr>]
      else pool)"

section \<open>TransportDetail.h\<close>

datatype HeaderDecodeError =
  InvalidMagic | UnsupportedVersion | InvalidFlags | InvalidPayloadSize

text \<open>The operands are promoted to 32 bits before they are shifted.\<close>

definition read_u16_be :: "bytes \<Rightarrow> u16" where
  "read_u16_be p = ucast (push_bit 8 (ucast (p ! 0) :: u32) OR ucast (p ! 1))"

definition read_u32_be :: "bytes \<Rightarrow> u32" where
  "read_u32_be p =
     push_bit 24 (ucast (p ! 0)) OR push_bit 16 (ucast (p ! 1)) OR push_bit 8 (ucast (p ! 2))
       OR ucast (p ! 3)"

definition write_header :: "bytes \<Rightarrow> u8 \<Rightarrow> u32 \<Rightarrow> bytes option" where
  "write_header output fl n =
     (if length output < HEADER_SIZE then None
      else Some (output
        [MAGIC_OFFSET := ucast (drop_bit 8 MAGIC),
         MAGIC_OFFSET + 1 := ucast (MAGIC AND 0xFF),
         VERSION_OFFSET := VERSION,
         FLAGS_OFFSET := fl,
         PAYLOAD_SIZE_OFFSET := ucast (drop_bit 24 n),
         PAYLOAD_SIZE_OFFSET + 1 := ucast (drop_bit 16 n),
         PAYLOAD_SIZE_OFFSET + 2 := ucast (drop_bit 8 n),
         PAYLOAD_SIZE_OFFSET + 3 := ucast n]))"

text \<open>\<^verbatim>\<open>std::memcpy(dst + off, src, n)\<close>.\<close>

definition memcpy :: "nat \<Rightarrow> bytes \<Rightarrow> nat \<Rightarrow> bytes \<Rightarrow> bytes option" where
  "memcpy off src n dst =
     (if length src < n \<or> length dst < off + n then None
      else Some (take off dst @ take n src @ drop (off + n) dst))"

definition build_frame :: "Buffer list \<Rightarrow> u8 \<Rightarrow> bytes \<Rightarrow> (Buffer \<times> Buffer list) option" where
  "build_frame pool fl payload =
     (let size = (of_nat (length payload) :: u32);
          (frame, pool') = acquire (HEADER_SIZE + unat size) pool
      in if buf_data frame = [] then Some (frame, pool')
         else case write_header (buf_data frame) fl size of
             None \<Rightarrow> None
           | Some d \<Rightarrow>
               if payload \<noteq> [] then
                 (case memcpy HEADER_SIZE payload (unat size) d of
                    None \<Rightarrow> None
                  | Some d' \<Rightarrow> Some (frame\<lparr>buf_data := d'\<rparr>, pool'))
               else Some (frame\<lparr>buf_data := d\<rparr>, pool'))"

definition build_data_frame :: "Buffer list \<Rightarrow> bytes \<Rightarrow> (Buffer \<times> Buffer list) option" where
  "build_data_frame pool payload =
     (if payload = [] then Some (empty_vector, pool) else build_frame pool 0 payload)"

definition clone_frame :: "Buffer list \<Rightarrow> bytes \<Rightarrow> (Buffer \<times> Buffer list) option" where
  "clone_frame pool frame_template =
     (if frame_template = [] then Some (empty_vector, pool)
      else
        let (frame, pool') = acquire (length frame_template) pool
        in if buf_data frame = [] then Some (frame, pool')
           else case memcpy 0 frame_template (length frame_template) (buf_data frame) of
               None \<Rightarrow> None
             | Some d \<Rightarrow> Some (frame\<lparr>buf_data := d\<rparr>, pool'))"

definition decode_header :: "bytes \<Rightarrow> HeaderDecodeError + Header" where
  "decode_header input =
     (let header = \<lparr>magic = read_u16_be (drop MAGIC_OFFSET input),
                    version = input ! VERSION_OFFSET,
                    flags = input ! FLAGS_OFFSET,
                    payload_size = read_u32_be (drop PAYLOAD_SIZE_OFFSET input)\<rparr>
      in if magic header \<noteq> MAGIC then Inl InvalidMagic
         else if version header \<noteq> VERSION then Inl UnsupportedVersion
         else if flags header AND NOT KNOWN_FLAGS_MASK \<noteq> 0 then Inl InvalidFlags
         else if MAX_PAYLOAD_SIZE < unat (payload_size header) then Inl InvalidPayloadSize
         else if is_keepalive header then
           (if payload_size header \<noteq> 0 then Inl InvalidPayloadSize else Inr header)
         else if payload_size header = 0 then Inl InvalidPayloadSize
         else Inr header)"

definition build_keepalive_frame :: "Buffer list \<Rightarrow> (Buffer \<times> Buffer list) option" where
  "build_keepalive_frame pool = build_frame pool FLAG_KEEPALIVE []"

text \<open>
  \<^verbatim>\<open>enqueue_frame\<close>: whether the frame was taken, the queue, and whether \<^verbatim>\<open>start_write\<close> is called.
\<close>

definition enqueue_frame :: "Buffer list \<Rightarrow> bool \<Rightarrow> Buffer \<Rightarrow> nat \<Rightarrow> bool \<times> Buffer list \<times> bool" where
  "enqueue_frame write_queue writing frame max_pending_frames =
     (if max_pending_frames \<noteq> 0 \<and> max_pending_frames \<le> length write_queue
      then (False, write_queue, False)
      else (True, write_queue @ [frame], \<not> writing))"

section \<open>Specifications\<close>

text \<open>The eight bytes of a header.\<close>

definition header_bytes :: "u8 \<Rightarrow> u32 \<Rightarrow> bytes" where
  "header_bytes fl n =
     [0x4E, 0x4E, 1, fl, ucast (drop_bit 24 n), ucast (drop_bit 16 n), ucast (drop_bit 8 n), ucast n]"

text \<open>The bytes of the frame of a payload, and of a keepalive.\<close>

definition frame_of :: "bytes \<Rightarrow> bytes" where
  "frame_of p = header_bytes 0 (of_nat (length p)) @ p"

definition keepalive_bytes :: bytes where
  "keepalive_bytes = header_bytes FLAG_KEEPALIVE 0"

definition sendable_payload :: "bytes \<Rightarrow> bool" where
  "sendable_payload p \<longleftrightarrow> p \<noteq> [] \<and> length p \<le> MAX_PAYLOAD_SIZE"

text \<open>
  What a receiver takes from a byte stream: the payloads of the complete frames at its front, up
  to the first header that is refused.
\<close>

function stream_payloads :: "bytes \<Rightarrow> bytes list" where
  "stream_payloads s =
     (if length s < 8 then []
      else case decode_header s of
          Inl _ \<Rightarrow> []
        | Inr h \<Rightarrow>
            if is_keepalive h then stream_payloads (drop 8 s)
            else let n = unat (payload_size h)
                 in if length s < 8 + n then []
                    else take n (drop 8 s) # stream_payloads (drop (8 + n) s))"
  by pat_completeness auto
termination
  by (relation "measure length") auto

text \<open>What travels on the wire: data frames and keepalives.\<close>

datatype wire_item = DataFrame bytes | KeepaliveFrame

fun encode_item :: "wire_item \<Rightarrow> bytes" where
  "encode_item (DataFrame p) = frame_of p"
| "encode_item KeepaliveFrame = keepalive_bytes"

fun item_ok :: "wire_item \<Rightarrow> bool" where
  "item_ok (DataFrame p) = sendable_payload p"
| "item_ok KeepaliveFrame = True"

definition encode_items :: "wire_item list \<Rightarrow> bytes" where
  "encode_items is = concat (map encode_item is)"

fun item_payloads :: "wire_item list \<Rightarrow> bytes list" where
  "item_payloads [] = []"
| "item_payloads (DataFrame p # is) = p # item_payloads is"
| "item_payloads (KeepaliveFrame # is) = item_payloads is"

text \<open>What a thread pool holds: cleared blocks of the one size.\<close>

definition pool_ok :: "Buffer list \<Rightarrow> bool" where
  "pool_ok pool \<longleftrightarrow> (\<forall>b \<in> set pool. buf_data b = [] \<and> buf_capacity b = BLOCK_SIZE)"

section \<open>Lemmas\<close>

lemmas wire_consts =
  MAGIC_def VERSION_def FLAG_KEEPALIVE_def KNOWN_FLAGS_MASK_def MAGIC_OFFSET_def VERSION_OFFSET_def
  FLAGS_OFFSET_def PAYLOAD_SIZE_OFFSET_def HEADER_SIZE_def MAX_PAYLOAD_SIZE_def BLOCK_SIZE_def

lemma length_header_bytes [simp]: "length (header_bytes fl n) = 8"
  by (simp add: header_bytes_def)

lemma length_frame_of [simp]: "length (frame_of p) = 8 + length p"
  by (simp add: frame_of_def)

lemma frame_of_not_Nil [simp]: "frame_of p \<noteq> []"
  by (simp add: frame_of_def header_bytes_def)

lemma vec_resize_sel [simp]:
  "length (buf_data (vec_resize n b)) = n"
  "buf_capacity (vec_resize n b) = max (buf_capacity b) n"
  by (auto simp: vec_resize_def)

lemma magic_bytes [simp]:
  "ucast (drop_bit 8 MAGIC) = (0x4E :: u8)" "ucast (MAGIC AND 0xFF) = (0x4E :: u8)"
  by code_simp+

lemma write_header_eq:
  assumes "8 \<le> length output"
  shows "write_header output fl n = Some (header_bytes fl n @ drop 8 output)"
proof -
  obtain a b c d e f g h xs where "output = a # b # c # d # e # f # g # h # xs"
    using assms by (auto simp: numeral_eq_Suc Suc_le_length_iff)
  then show ?thesis
    by (simp add: write_header_def header_bytes_def VERSION_def MAGIC_OFFSET_def VERSION_OFFSET_def
        FLAGS_OFFSET_def PAYLOAD_SIZE_OFFSET_def HEADER_SIZE_def)
qed

lemma u32_of_bytes:
  "push_bit 24 (ucast (ucast (drop_bit 24 n) :: u8)) OR push_bit 16 (ucast (ucast (drop_bit 16 n) :: u8))
     OR push_bit 8 (ucast (ucast (drop_bit 8 n) :: u8)) OR ucast (ucast n :: u8) = (n :: u32)"
proof (rule bit_word_eqI)
  fix i :: nat
  assume "i < LENGTH(32)"
  then consider "24 \<le> i" "i < 32" | "16 \<le> i" "i < 24" | "8 \<le> i" "i < 16" | "i < 8"
    using linorder_not_le by force
  then show "bit (push_bit 24 (ucast (ucast (drop_bit 24 n) :: u8)) OR push_bit 16 (ucast (ucast (drop_bit 16 n) :: u8))
     OR push_bit 8 (ucast (ucast (drop_bit 8 n) :: u8)) OR ucast (ucast n :: u8) :: u32) i = bit n i"
    by cases (auto simp: bit_simps)
qed

lemma bytes_of_u32:
  fixes a b c d :: u8
  defines "n \<equiv> push_bit 24 (ucast a) OR push_bit 16 (ucast b) OR push_bit 8 (ucast c) OR ucast d :: u32"
  shows "ucast (drop_bit 24 n) = a" and "ucast (drop_bit 16 n) = b" and "ucast (drop_bit 8 n) = c"
    and "ucast n = d"
  unfolding n_def
  by (rule bit_word_eqI, auto simp: bit_simps dest: bit_imp_le_length)+

lemma u16_of_bytes:
  "ucast (push_bit 8 (ucast a :: u32) OR ucast b) = (0x4E4E :: u16) \<longleftrightarrow> a = (0x4E :: u8) \<and> b = (0x4E :: u8)"
proof
  let ?w = "ucast (push_bit 8 (ucast a :: u32) OR ucast b) :: u16"
  assume w: "?w = 0x4E4E"
  have "ucast (drop_bit 8 ?w) = a" "ucast ?w = b"
    by (rule bit_word_eqI, auto simp: bit_simps dest: bit_imp_le_length)+
  with w show "a = 0x4E \<and> b = 0x4E" by auto
qed simp

lemma known_flags: "(fl :: u8) AND NOT KNOWN_FLAGS_MASK = 0 \<longleftrightarrow> fl = 0 \<or> fl = FLAG_KEEPALIVE"
proof
  assume m: "fl AND NOT KNOWN_FLAGS_MASK = 0"
  have "\<not> bit fl i" if "0 < i" for i
  proof
    assume b: "bit fl i"
    then have "i < 8" by (auto dest: bit_imp_le_length)
    with b that have "bit (fl AND NOT KNOWN_FLAGS_MASK) i"
      by (simp add: bit_simps wire_consts)
    with m show False by simp
  qed
  then have "bit fl i = bit (if bit fl 0 then 1 else 0 :: u8) i" for i
    by (cases "i = 0") (simp_all add: bit_1_iff)
  then have "fl = (if bit fl 0 then 1 else 0)"
    by (intro bit_word_eqI)
  then show "fl = 0 \<or> fl = FLAG_KEEPALIVE"
    by (auto simp: FLAG_KEEPALIVE_def split: if_splits)
qed (auto simp: wire_consts)

lemma is_keepalive_simp [simp]:
  "is_keepalive \<lparr>magic = m, version = v, flags = 0, payload_size = n\<rparr> = False"
  "is_keepalive \<lparr>magic = m, version = v, flags = FLAG_KEEPALIVE, payload_size = n\<rparr> = True"
  by (simp_all add: is_keepalive_def FLAG_KEEPALIVE_def)

lemma decode_header_bytes:
  "decode_header (header_bytes fl n @ xs) =
     (if fl = FLAG_KEEPALIVE \<and> n = 0 \<or> fl = 0 \<and> 0 < unat n \<and> unat n \<le> MAX_PAYLOAD_SIZE
      then Inr \<lparr>magic = MAGIC, version = VERSION, flags = fl, payload_size = n\<rparr>
      else Inl (if fl \<noteq> 0 \<and> fl \<noteq> FLAG_KEEPALIVE then InvalidFlags else InvalidPayloadSize))"
proof -
  let ?i = "header_bytes fl n @ xs"
  have "read_u16_be (drop MAGIC_OFFSET ?i) = MAGIC" "?i ! VERSION_OFFSET = VERSION"
      "?i ! FLAGS_OFFSET = fl"
    by (simp_all add: header_bytes_def read_u16_be_def wire_consts)
  moreover have "read_u32_be (drop PAYLOAD_SIZE_OFFSET ?i) = n"
    using u32_of_bytes [of n] by (simp add: header_bytes_def read_u32_be_def PAYLOAD_SIZE_OFFSET_def)
  ultimately have "decode_header ?i =
    (if fl \<noteq> 0 \<and> fl \<noteq> FLAG_KEEPALIVE then Inl InvalidFlags
     else if MAX_PAYLOAD_SIZE < unat n then Inl InvalidPayloadSize
     else if fl AND FLAG_KEEPALIVE \<noteq> 0 then
       if n \<noteq> 0 then Inl InvalidPayloadSize
       else Inr \<lparr>magic = MAGIC, version = VERSION, flags = fl, payload_size = n\<rparr>
     else if n = 0 then Inl InvalidPayloadSize
     else Inr \<lparr>magic = MAGIC, version = VERSION, flags = fl, payload_size = n\<rparr>)"
    by (simp add: decode_header_def known_flags is_keepalive_def)
  then show ?thesis
    by (cases "fl = 0"; cases "fl = FLAG_KEEPALIVE")
       (auto simp: FLAG_KEEPALIVE_def unat_gt_0 not_less)
qed

lemmas decode_header_bytes_only = decode_header_bytes [where xs = "[]", simplified]

lemma decode_header_append:
  assumes "8 \<le> length s"
  shows "decode_header (s @ t) = decode_header s"
proof -
  obtain a b v f p q r u xs where "s = a # b # v # f # p # q # r # u # xs"
    using assms by (auto simp: numeral_eq_Suc Suc_le_length_iff)
  then show ?thesis
    by (simp add: decode_header_def read_u16_be_def read_u32_be_def MAGIC_OFFSET_def
        VERSION_OFFSET_def FLAGS_OFFSET_def PAYLOAD_SIZE_OFFSET_def)
qed

lemma decode_header_take: "8 \<le> length s \<Longrightarrow> decode_header (take 8 s) = decode_header s"
  using decode_header_append [of "take 8 s" "drop 8 s"] by simp

text \<open>A header that is accepted is one that \<^verbatim>\<open>write_header\<close> writes for a legal frame.\<close>

lemma decode_header_Inr:
  assumes len: "8 \<le> length s" and dec: "decode_header s = Inr h"
  shows "take 8 s = header_bytes (flags h) (payload_size h)"
    and "flags h = FLAG_KEEPALIVE \<and> payload_size h = 0
         \<or> flags h = 0 \<and> 0 < unat (payload_size h) \<and> unat (payload_size h) \<le> MAX_PAYLOAD_SIZE"
    and "is_keepalive h \<longleftrightarrow> flags h = FLAG_KEEPALIVE"
proof -
  obtain a b v f p q r t xs where s: "s = a # b # v # f # p # q # r # t # xs"
    using len by (auto simp: numeral_eq_Suc Suc_le_length_iff)
  define n :: u32
    where "n = push_bit 24 (ucast p) OR push_bit 16 (ucast q) OR push_bit 8 (ucast r) OR ucast t"
  have n: "ucast (drop_bit 24 n) = p" "ucast (drop_bit 16 n) = q" "ucast (drop_bit 8 n) = r" "ucast n = t"
    unfolding n_def by (rule bytes_of_u32)+
  have "magic h = MAGIC" "version h = VERSION"
    and h: "h = \<lparr>magic = read_u16_be (drop 0 s), version = v, flags = f, payload_size = n\<rparr>"
    using dec
    by (auto simp: s n_def decode_header_def Let_def read_u32_be_def MAGIC_OFFSET_def VERSION_OFFSET_def
        FLAGS_OFFSET_def PAYLOAD_SIZE_OFFSET_def split: if_splits)
  then have "a = 0x4E" "b = 0x4E" "v = 1"
    by (simp_all add: s read_u16_be_def MAGIC_def VERSION_def u16_of_bytes)
  then show eq: "take 8 s = header_bytes (flags h) (payload_size h)"
    by (simp add: s h header_bytes_def n)
  have "decode_header (header_bytes (flags h) (payload_size h) @ drop 8 s) = Inr h"
    using dec eq by (metis append_take_drop_id)
  then show legal: "flags h = FLAG_KEEPALIVE \<and> payload_size h = 0
         \<or> flags h = 0 \<and> 0 < unat (payload_size h) \<and> unat (payload_size h) \<le> MAX_PAYLOAD_SIZE"
    by (simp add: decode_header_bytes split: if_splits)
  then show "is_keepalive h \<longleftrightarrow> flags h = FLAG_KEEPALIVE"
    by (auto simp: is_keepalive_def FLAG_KEEPALIVE_def)
qed

declare stream_payloads.simps [simp del]

lemma unat_small_length: "length p \<le> MAX_PAYLOAD_SIZE \<Longrightarrow> unat (of_nat (length p) :: u32) = length p"
  by (simp add: MAX_PAYLOAD_SIZE_def unat_of_nat take_bit_nat_eq_self)

lemma stream_payloads_short: "length s < 8 \<Longrightarrow> stream_payloads s = []"
  by (simp add: stream_payloads.simps)

lemma stream_payloads_frame:
  assumes "sendable_payload p"
  shows "stream_payloads (frame_of p @ s) = p # stream_payloads s"
proof -
  have "unat (of_nat (length p) :: u32) = length p" "0 < length p" "length p \<le> MAX_PAYLOAD_SIZE"
    using assms by (auto simp: sendable_payload_def unat_small_length)
  then show ?thesis
    by (subst stream_payloads.simps) (simp add: frame_of_def decode_header_bytes)
qed

lemma stream_payloads_keepalive: "stream_payloads (keepalive_bytes @ s) = stream_payloads s"
  by (subst stream_payloads.simps) (simp add: keepalive_bytes_def decode_header_bytes)

lemma encode_items_simps [simp]:
  "encode_items [] = []"
  "encode_items (i # is) = encode_item i @ encode_items is"
  "encode_items (is @ js) = encode_items is @ encode_items js"
  by (simp_all add: encode_items_def)

lemma item_payloads_append [simp]: "item_payloads (is @ js) = item_payloads is @ item_payloads js"
  by (induction "is" rule: item_payloads.induct) simp_all

lemma stream_payloads_items:
  "\<forall>i \<in> set is. item_ok i \<Longrightarrow> stream_payloads (encode_items is @ s) = item_payloads is @ stream_payloads s"
  by (induction "is" rule: item_payloads.induct)
     (simp_all add: stream_payloads_frame stream_payloads_keepalive)

lemma stream_payloads_append: "prefix (stream_payloads s) (stream_payloads (s @ t))"
proof (induction s rule: stream_payloads.induct)
  case (1 s)
  show ?case
  proof (cases "length s < 8")
    case False
    then have d: "decode_header (s @ t) = decode_header s" by (simp add: decode_header_append)
    show ?thesis
    proof (cases "decode_header s")
      case (Inr h)
      show ?thesis
        using 1(1) [OF False Inr] 1(2) [OF False Inr _ refl] False Inr d
        by (subst (1 2) stream_payloads.simps) (auto simp: Let_def)
    qed (subst stream_payloads.simps, simp add: False)
  qed (simp add: stream_payloads_short)
qed

lemma stream_payloads_sizes: "p \<in> set (stream_payloads s) \<Longrightarrow> sendable_payload p"
proof (induction s rule: stream_payloads.induct)
  case (1 s)
  show ?case
  proof (cases "length s < 8")
    case False
    show ?thesis
    proof (cases "decode_header s")
      case (Inr h)
      have "is_keepalive h \<or> 0 < unat (payload_size h) \<and> unat (payload_size h) \<le> MAX_PAYLOAD_SIZE"
        using decode_header_Inr(2,3) [OF _ Inr] False by auto
      then show ?thesis
        using 1(1) [OF False Inr] 1(2) [OF False Inr _ refl] 1(3) False Inr
        by (subst (asm) (2) stream_payloads.simps)
           (auto simp: Let_def sendable_payload_def split: if_splits)
    qed (use 1(3) False in \<open>simp add: stream_payloads.simps\<close>)
  qed (use 1(3) in \<open>simp add: stream_payloads_short\<close>)
qed

lemma stream_payloads_mono: "prefix s s' \<Longrightarrow> prefix (stream_payloads s) (stream_payloads s')"
  by (metis prefix_def stream_payloads_append)

section \<open>The pool and the frames it gives\<close>

text \<open>
  A thread pool in order hands out a block of the one capacity, filled with zeros: no byte of an
  earlier message is left in it and nothing is reallocated.
\<close>

lemma acquire_props:
  assumes "pool_ok pool" and "n \<le> BLOCK_SIZE"
  shows "acquire n pool = (\<lparr>buf_data = replicate n 0, buf_capacity = BLOCK_SIZE\<rparr>, butlast pool)"
proof (cases "pool = []")
  case False
  then have "buf_data (last pool) = [] \<and> buf_capacity (last pool) = BLOCK_SIZE"
    using assms(1) by (simp add: pool_ok_def)
  then show ?thesis
    using assms(2) False by (simp add: acquire_def vec_resize_def not_less max_def)
qed (use assms(2) in \<open>simp add: acquire_def vec_resize_def vec_reserve_def empty_vector_def max_def\<close>)

lemma acquire_refuses: "BLOCK_SIZE < n \<Longrightarrow> acquire n pool = (empty_vector, pool)"
  by (simp add: acquire_def)

lemma pool_ok_Nil [simp]: "pool_ok []"
  by (simp add: pool_ok_def)

lemma pool_ok_butlast [simp]: "pool_ok pool \<Longrightarrow> pool_ok (butlast pool)"
  by (auto simp: pool_ok_def dest: in_set_butlastD)

lemma pool_ok_release [simp]: "pool_ok pool \<Longrightarrow> pool_ok (release m b pool)"
  by (auto simp: pool_ok_def release_def)

lemma length_release: "length pool \<le> m \<Longrightarrow> length (release m b pool) \<le> m"
  by (simp add: release_def)

lemma memcpy_fill:
  assumes "length dst = off + length src"
  shows "memcpy off src (length src) dst = Some (take off dst @ src)"
  using assms by (simp add: memcpy_def)

lemma build_frame_eq:
  assumes "pool_ok pool" and "length payload \<le> MAX_PAYLOAD_SIZE"
  shows "build_frame pool fl payload =
    Some (\<lparr>buf_data = header_bytes fl (of_nat (length payload)) @ payload, buf_capacity = BLOCK_SIZE\<rparr>,
          butlast pool)"
proof -
  have n: "unat (of_nat (length payload) :: u32) = length payload"
    using assms(2) by (rule unat_small_length)
  have "acquire (HEADER_SIZE + length payload) pool =
      (\<lparr>buf_data = replicate (HEADER_SIZE + length payload) 0, buf_capacity = BLOCK_SIZE\<rparr>, butlast pool)"
    using assms by (intro acquire_props) (simp_all add: BLOCK_SIZE_def)
  then show ?thesis
    by (simp add: build_frame_def Let_def n write_header_eq memcpy_fill HEADER_SIZE_def)
qed

lemma build_data_frame_eq:
  assumes "pool_ok pool" and "sendable_payload p"
  shows "build_data_frame pool p =
    Some (\<lparr>buf_data = frame_of p, buf_capacity = BLOCK_SIZE\<rparr>, butlast pool)"
  using assms by (simp add: build_data_frame_def build_frame_eq sendable_payload_def frame_of_def)

lemma build_keepalive_frame_eq:
  assumes "pool_ok pool"
  shows "build_keepalive_frame pool =
    Some (\<lparr>buf_data = keepalive_bytes, buf_capacity = BLOCK_SIZE\<rparr>, butlast pool)"
  using assms by (simp add: build_keepalive_frame_def build_frame_eq keepalive_bytes_def)

lemma clone_frame_eq:
  assumes "pool_ok pool" and "t \<noteq> []" and "length t \<le> BLOCK_SIZE"
  shows "clone_frame pool t = Some (\<lparr>buf_data = t, buf_capacity = BLOCK_SIZE\<rparr>, butlast pool)"
  using assms by (simp add: clone_frame_def acquire_props memcpy_fill)

text \<open>No payload, whatever its size, makes a frame builder write outside its block.\<close>

lemma build_frame_safe:
  assumes "pool_ok pool"
  shows "build_frame pool fl payload \<noteq> None"
proof (cases "HEADER_SIZE + unat (of_nat (length payload) :: u32) \<le> BLOCK_SIZE")
  case True
  let ?n = "unat (of_nat (length payload) :: u32)"
  have "?n \<le> length payload"
    by (simp add: unat_of_nat)
  then show ?thesis
    using acquire_props [OF assms True]
    by (simp add: build_frame_def Let_def write_header_eq memcpy_def HEADER_SIZE_def)
qed (simp add: build_frame_def Let_def acquire_refuses empty_vector_def)

end
