(* ===== verification/Net_Session.thy ===== *)
theory Net_Session
  imports Wire_Format
begin

text \<open>
  One TCP connection of the server (\<^verbatim>\<open>Session.h\<close>, \<^verbatim>\<open>Session.cpp\<close>).

  The record \<open>Session\<close> has the members of the class and, for each asio object it owns, the
  asynchronous operation pending on it: the read in progress, the write in progress with the
  bytes it was given, the wait on the heartbeat timer, the functions posted to the strand.
  \<open>SessionRun\<close> adds what a handler sees while it runs: the buffer pool of its thread, the steady
  clock, the callbacks it has made, and \<open>fault\<close>, set where the C++ code would be undefined.

  Every function and every completion handler is one definition.  A completion handler takes
  the \<^verbatim>\<open>error_code\<close> as a boolean.  The strand runs handlers one at a time, so a run of a session
  is a sequence of handler calls, whose order the network, the clock and the peer choose: the
  events of \<open>conn_event\<close>, with \<open>enabled\<close> saying when asio can make the call.  An operation can
  still complete successfully after the socket was closed, if it had completed before its handler
  got to run; one started on a closed socket can only fail.
\<close>

section \<open>State\<close>

definition MAX_PENDING_WRITE_FRAMES :: nat where "MAX_PENDING_WRITE_FRAMES = 1024"

text \<open>The server's pool is made by the default constructor.\<close>

definition max_size_per_thread :: nat where "max_size_per_thread = 64"

text \<open>A pending read or write remembers whether the socket was open when it was started.\<close>

datatype read_op = NoRead | ReadHeader bool | ReadBody bool

record timer_wait =
  deadline :: int
  cancelled_at :: "int option"

datatype task = EnqueueWrite Buffer | HandleClose

datatype callback = OnReceive u32 bytes | OnClose u32

record Session =
  id_S :: u32
  header_buf :: bytes
  body_buf :: Buffer
  write_queue :: "Buffer list"
  writing :: bool
  closed :: bool
  last_activity :: int
  socket_open :: bool
  read_pending :: read_op
  write_pending :: "(bool \<times> bytes) option"
  heartbeat_timer :: "timer_wait option"
  strand :: "task list"

record SessionRun = Session +
  pool :: "Buffer list"
  now :: int
  calls :: "callback list"
  fault :: bool

section \<open>Functions and completion handlers\<close>

text \<open>The constructor, with the value of the steady clock at that time.\<close>

definition Session_init :: "u32 \<Rightarrow> int \<Rightarrow> Session" where
  "Session_init i t =
     \<lparr>id_S = i, header_buf = replicate HEADER_SIZE 0,
      body_buf = vec_reserve MAX_PAYLOAD_SIZE empty_vector,
      write_queue = [], writing = False, closed = False, last_activity = t,
      socket_open = True, read_pending = NoRead, write_pending = None, heartbeat_timer = None,
      strand = []\<rparr>"

text \<open>
  asio allows one \<^verbatim>\<open>async_read\<close> and one \<^verbatim>\<open>async_write\<close> on a stream at a time: the bytes of two
  overlapping ones would be mixed, and the handler of a second write would pop a frame the first
  still uses.  Starting an operation while one of its kind is pending is therefore a fault.
\<close>

definition do_read_header :: "'a SessionRun_scheme \<Rightarrow> 'a SessionRun_scheme" where
  "do_read_header r =
     r\<lparr>read_pending := ReadHeader (socket_open r), fault := fault r \<or> read_pending r \<noteq> NoRead\<rparr>"

definition do_read_body :: "'a SessionRun_scheme \<Rightarrow> 'a SessionRun_scheme" where
  "do_read_body r =
     r\<lparr>read_pending := ReadBody (socket_open r), fault := fault r \<or> read_pending r \<noteq> NoRead\<rparr>"

definition do_write :: "'a SessionRun_scheme \<Rightarrow> 'a SessionRun_scheme" where
  "do_write r =
     (case write_queue r of
        [] \<Rightarrow> r\<lparr>writing := False\<rparr>
      | front # _ \<Rightarrow>
          r\<lparr>writing := True, write_pending := Some (socket_open r, buf_data front),
            fault := fault r \<or> write_pending r \<noteq> None\<rparr>)"

text \<open>\<^verbatim>\<open>expires_after\<close> would cancel a pending wait, whose handler then does nothing.\<close>

definition start_heartbeat :: "'a SessionRun_scheme \<Rightarrow> 'a SessionRun_scheme" where
  "start_heartbeat r =
     r\<lparr>heartbeat_timer := Some \<lparr>deadline = now r + HEARTBEAT_INTERVAL, cancelled_at = None\<rparr>\<rparr>"

definition cancel_wait :: "int \<Rightarrow> timer_wait \<Rightarrow> timer_wait" where
  "cancel_wait t w = (if cancelled_at w = None then w\<lparr>cancelled_at := Some t\<rparr> else w)"

definition handle_close :: "'a SessionRun_scheme \<Rightarrow> 'a SessionRun_scheme" where
  "handle_close r =
     (if closed r then r
      else r\<lparr>closed := True,
             heartbeat_timer := map_option (cancel_wait (now r)) (heartbeat_timer r),
             socket_open := False,
             calls := calls r @ [OnClose (id_S r)]\<rparr>)"

definition start :: "'a SessionRun_scheme \<Rightarrow> 'a SessionRun_scheme" where
  "start r = start_heartbeat (do_read_header r)"

definition enqueue_raw_frame :: "Buffer \<Rightarrow> 'a SessionRun_scheme \<Rightarrow> 'a SessionRun_scheme" where
  "enqueue_raw_frame frame r = r\<lparr>strand := strand r @ [EnqueueWrite frame]\<rparr>"

definition send :: "bytes \<Rightarrow> 'a SessionRun_scheme \<Rightarrow> 'a SessionRun_scheme" where
  "send payload r =
     (if payload = [] \<or> MAX_PAYLOAD_SIZE < length payload then r
      else case build_data_frame (pool r) payload of
          None \<Rightarrow> r\<lparr>fault := True\<rparr>
        | Some (frame, pool') \<Rightarrow>
            if buf_data frame = [] then r\<lparr>pool := pool'\<rparr>
            else r\<lparr>pool := pool', strand := strand r @ [EnqueueWrite frame]\<rparr>)"

definition close :: "'a SessionRun_scheme \<Rightarrow> 'a SessionRun_scheme" where
  "close r = r\<lparr>strand := strand r @ [HandleClose]\<rparr>"

definition enqueue_write :: "Buffer \<Rightarrow> 'a SessionRun_scheme \<Rightarrow> 'a SessionRun_scheme" where
  "enqueue_write frame r =
     (if closed r then r\<lparr>pool := release max_size_per_thread frame (pool r)\<rparr>
      else
        let (taken, queue, start_write) =
              enqueue_frame (write_queue r) (writing r) frame MAX_PENDING_WRITE_FRAMES;
            r1 = r\<lparr>write_queue := queue\<rparr>;
            r2 = (if start_write then do_write r1 else r1)
        in if taken then r2
           else handle_close (r2\<lparr>pool := release max_size_per_thread frame (pool r2)\<rparr>))"

definition send_keepalive :: "'a SessionRun_scheme \<Rightarrow> 'a SessionRun_scheme" where
  "send_keepalive r =
     (case build_keepalive_frame (pool r) of
        None \<Rightarrow> r\<lparr>fault := True\<rparr>
      | Some (frame, pool') \<Rightarrow> enqueue_write frame (r\<lparr>pool := pool'\<rparr>))"

text \<open>The completion handler of \<^verbatim>\<open>do_read_header\<close>; \<open>bs\<close> is what the read left in \<^verbatim>\<open>header_buf_\<close>.\<close>

definition on_header_read :: "bool \<Rightarrow> bytes \<Rightarrow> 'a SessionRun_scheme \<Rightarrow> 'a SessionRun_scheme" where
  "on_header_read ec bs r0 =
     (let r = r0\<lparr>read_pending := NoRead, header_buf := bs\<rparr>
      in if ec then handle_close r
         else case decode_header (header_buf r) of
             Inl _ \<Rightarrow> handle_close r
           | Inr header \<Rightarrow>
               let r1 = r\<lparr>last_activity := now r\<rparr>
               in if is_keepalive header then do_read_header r1
                  else do_read_body
                         (r1\<lparr>body_buf := vec_resize (unat (payload_size header)) (body_buf r1)\<rparr>))"

text \<open>The completion handler of \<^verbatim>\<open>do_read_body\<close>; \<open>bs\<close> is what the read left in \<^verbatim>\<open>body_buf_\<close>.\<close>

definition on_body_read :: "bool \<Rightarrow> bytes \<Rightarrow> 'a SessionRun_scheme \<Rightarrow> 'a SessionRun_scheme" where
  "on_body_read ec bs r0 =
     (let r = r0\<lparr>read_pending := NoRead, body_buf := (body_buf r0)\<lparr>buf_data := bs\<rparr>\<rparr>
      in if ec then handle_close r
         else
           let body = buf_data (body_buf r);
               (copy, pool') = acquire (length body) (pool r)
           in case memcpy 0 body (length body) (buf_data copy) of
               None \<Rightarrow> r\<lparr>fault := True\<rparr>
             | Some d \<Rightarrow>
                 do_read_header
                   (r\<lparr>pool := pool', calls := calls r @ [OnReceive (id_S r) d]\<rparr>))"

text \<open>The completion handler of \<^verbatim>\<open>do_write\<close>.  \<^verbatim>\<open>front()\<close> on an empty queue is undefined.\<close>

definition on_written :: "bool \<Rightarrow> 'a SessionRun_scheme \<Rightarrow> 'a SessionRun_scheme" where
  "on_written ec r0 =
     (let r = r0\<lparr>write_pending := None\<rparr>
      in case write_queue r of
          [] \<Rightarrow> r\<lparr>fault := True\<rparr>
        | front # rest \<Rightarrow>
            let r1 = r\<lparr>pool := release max_size_per_thread front (pool r), write_queue := rest\<rparr>
            in if ec then handle_close r1 else do_write r1)"

text \<open>The completion handler of \<^verbatim>\<open>start_heartbeat\<close>.\<close>

definition on_heartbeat :: "bool \<Rightarrow> 'a SessionRun_scheme \<Rightarrow> 'a SessionRun_scheme" where
  "on_heartbeat ec r0 =
     (let r = r0\<lparr>heartbeat_timer := None\<rparr>
      in if ec then r
         else if HEARTBEAT_TIMEOUT \<le> now r - last_activity r then handle_close r
         else start_heartbeat (send_keepalive r))"

text \<open>What a function posted to the strand does.\<close>

fun run_task :: "task \<Rightarrow> 'a SessionRun_scheme \<Rightarrow> 'a SessionRun_scheme" where
  "run_task (EnqueueWrite frame) r = enqueue_write frame r"
| "run_task HandleClose r = handle_close r"

section \<open>Runs of a connection\<close>

text \<open>
  A connection is a session with the bytes its peer has sent and it has not read yet, the bytes
  it has given to the network, and the payloads it was asked to send so far.
\<close>

record conn = SessionRun +
  inbox :: bytes
  outbox :: bytes
  sent :: "bytes list"

datatype conn_event =
    Send bytes | SendRaw bytes | Close
  | RunTask
  | HeaderRead | HeaderFailed
  | BodyRead | BodyFailed
  | Written | WriteFailed nat
  | HeartbeatFired | HeartbeatCancelled
  | Advance nat
  | OtherThread "Buffer list"

fun enabled :: "conn_event \<Rightarrow> conn \<Rightarrow> bool" where
  "enabled (Send p) c = True"
| "enabled (SendRaw p) c = sendable_payload p"
| "enabled Close c = True"
| "enabled RunTask c = (strand c \<noteq> [])"
| "enabled HeaderRead c = (read_pending c = ReadHeader True \<and> HEADER_SIZE \<le> length (inbox c))"
| "enabled HeaderFailed c = (\<exists>b \<in> {True, False}. read_pending c = ReadHeader b)"
| "enabled BodyRead c =
     (read_pending c = ReadBody True \<and> length (buf_data (body_buf c)) \<le> length (inbox c))"
| "enabled BodyFailed c = (\<exists>b \<in> {True, False}. read_pending c = ReadBody b)"
| "enabled Written c = (case write_pending c of Some (b, d) \<Rightarrow> b | None \<Rightarrow> False)"
| "enabled (WriteFailed n) c = (case write_pending c of Some (b, d) \<Rightarrow> b \<or> n = 0 | None \<Rightarrow> False)"
| "enabled HeartbeatFired c =
     (case heartbeat_timer c of
        None \<Rightarrow> False
      | Some w \<Rightarrow> deadline w \<le> now c \<and>
          (case cancelled_at w of None \<Rightarrow> True | Some t \<Rightarrow> deadline w \<le> t))"
| "enabled HeartbeatCancelled c =
     (case heartbeat_timer c of None \<Rightarrow> False | Some w \<Rightarrow> cancelled_at w \<noteq> None)"
| "enabled (Advance n) c = True"
| "enabled (OtherThread p) c = pool_ok p"

text \<open>
  \<open>SendRaw p\<close> is the server handing over the finished frame of \<open>p\<close>.  A failed write may have
  sent some bytes of its buffer.
\<close>

fun fire :: "conn_event \<Rightarrow> conn \<Rightarrow> conn" where
  "fire (Send p) c = (send p c)\<lparr>sent := sent c @ (if sendable_payload p then [p] else [])\<rparr>"
| "fire (SendRaw p) c =
     (enqueue_raw_frame \<lparr>buf_data = frame_of p, buf_capacity = BLOCK_SIZE\<rparr> c)\<lparr>sent := sent c @ [p]\<rparr>"
| "fire Close c = close c"
| "fire RunTask c = (case strand c of [] \<Rightarrow> c | t # ts \<Rightarrow> run_task t (c\<lparr>strand := ts\<rparr>))"
| "fire HeaderRead c =
     on_header_read False (take HEADER_SIZE (inbox c)) (c\<lparr>inbox := drop HEADER_SIZE (inbox c)\<rparr>)"
| "fire HeaderFailed c = on_header_read True (header_buf c) c"
| "fire BodyRead c =
     (let n = length (buf_data (body_buf c))
      in on_body_read False (take n (inbox c)) (c\<lparr>inbox := drop n (inbox c)\<rparr>))"
| "fire BodyFailed c = on_body_read True (buf_data (body_buf c)) c"
| "fire Written c =
     (case write_pending c of
        None \<Rightarrow> c | Some (b, d) \<Rightarrow> on_written False (c\<lparr>outbox := outbox c @ d\<rparr>))"
| "fire (WriteFailed n) c =
     (case write_pending c of
        None \<Rightarrow> c | Some (b, d) \<Rightarrow> on_written True (c\<lparr>outbox := outbox c @ take n d\<rparr>))"
| "fire HeartbeatFired c = on_heartbeat False c"
| "fire HeartbeatCancelled c = on_heartbeat True c"
| "fire (Advance n) c = c\<lparr>now := now c + int n\<rparr>"
| "fire (OtherThread p) c = c\<lparr>pool := p\<rparr>"

text \<open>A session that was made and started at time \<open>t\<close>, with the bytes its peer will send.\<close>

definition started :: "u32 \<Rightarrow> int \<Rightarrow> bytes \<Rightarrow> conn" where
  "started i t stream =
     start (SessionRun.extend (Session.extend (Session_init i t)
              \<lparr>pool = [], now = t, calls = [], fault = False, \<dots> = ()\<rparr>)
            \<lparr>inbox = stream, outbox = [], sent = []\<rparr>)"

inductive conn_reach :: "conn \<Rightarrow> conn \<Rightarrow> bool" for c0 where
  here: "conn_reach c0 c0"
| there: "conn_reach c0 c \<Longrightarrow> enabled e c \<Longrightarrow> conn_reach c0 (fire e c)"

section \<open>Invariants\<close>

definition frame_item :: "Buffer \<Rightarrow> bool" where
  "frame_item f \<longleftrightarrow> buf_capacity f = BLOCK_SIZE \<and> (\<exists>i. item_ok i \<and> buf_data f = encode_item i)"

fun task_ok :: "task \<Rightarrow> bool" where
  "task_ok (EnqueueWrite f) =
     (buf_capacity f = BLOCK_SIZE \<and> (\<exists>p. sendable_payload p \<and> buf_data f = frame_of p))"
| "task_ok HandleClose = True"

text \<open>Memory: no undefined behaviour so far, buffers and queues within their bounds.\<close>

definition mem_inv :: "'a SessionRun_scheme \<Rightarrow> bool" where
  "mem_inv r \<longleftrightarrow>
     \<not> fault r \<and> pool_ok (pool r)
     \<and> (\<forall>t \<in> set (strand r). task_ok t)
     \<and> (\<forall>f \<in> set (write_queue r). frame_item f)
     \<and> length (write_queue r) \<le> MAX_PENDING_WRITE_FRAMES
     \<and> buf_capacity (body_buf r) = MAX_PAYLOAD_SIZE
     \<and> length (buf_data (body_buf r)) \<le> MAX_PAYLOAD_SIZE"

text \<open>
  Writing: at most one write is pending, it writes the front of the queue, and while the session
  is open \<^verbatim>\<open>writing_\<close> says whether one is.
\<close>

definition write_inv :: "'a SessionRun_scheme \<Rightarrow> bool" where
  "write_inv r \<longleftrightarrow>
     (\<forall>b d. write_pending r = Some (b, d) \<longrightarrow> (\<exists>f fs. write_queue r = f # fs \<and> d = buf_data f))
     \<and> (\<not> closed r \<longrightarrow> writing r = (write_pending r \<noteq> None) \<and> (\<not> writing r \<longrightarrow> write_queue r = []))"

text \<open>
  Life cycle: an open session reads and has its heartbeat running; closing happens once, with one
  call of \<^verbatim>\<open>on_close_\<close>.
\<close>

fun is_OnClose :: "callback \<Rightarrow> bool" where
  "is_OnClose (OnClose _) = True"
| "is_OnClose (OnReceive _ _) = False"

definition life_inv :: "'a SessionRun_scheme \<Rightarrow> bool" where
  "life_inv r \<longleftrightarrow>
     closed r = (\<not> socket_open r)
     \<and> filter is_OnClose (calls r) = (if closed r then [OnClose (id_S r)] else [])
     \<and> (\<not> closed r \<longrightarrow>
          read_pending r \<noteq> NoRead \<and> (\<exists>w. heartbeat_timer r = Some w \<and> cancelled_at w = None))"

text \<open>Time: the heartbeat is due at most twenty seconds after the last header.\<close>

definition time_inv :: "'a SessionRun_scheme \<Rightarrow> bool" where
  "time_inv r \<longleftrightarrow>
     last_activity r \<le> now r
     \<and> (\<forall>w. heartbeat_timer r = Some w \<longrightarrow>
          deadline w \<le> last_activity r + HEARTBEAT_TIMEOUT + HEARTBEAT_INTERVAL)"

definition session_inv :: "'a SessionRun_scheme \<Rightarrow> bool" where
  "session_inv r \<longleftrightarrow> mem_inv r \<and> write_inv r \<and> life_inv r \<and> time_inv r"

text \<open>
  The bytes given to the network are the frames of the accepted payloads, in order, with
  keepalives between them: all of them but the queue while the session writes, a prefix of them
  after it was closed.  What was accepted is a prefix of what was sent; \<open>pend\<close> is the part still on
  its way through the strand.
\<close>

fun task_payloads :: "task list \<Rightarrow> bytes list" where
  "task_payloads [] = []"
| "task_payloads (EnqueueWrite f # ts) = drop HEADER_SIZE (buf_data f) # task_payloads ts"
| "task_payloads (HandleClose # ts) = task_payloads ts"

definition wire_rel :: "bytes list \<Rightarrow> conn \<Rightarrow> wire_item list \<Rightarrow> bool" where
  "wire_rel pend c is \<longleftrightarrow>
     (\<forall>i \<in> set is. item_ok i)
     \<and> prefix (item_payloads is) (sent c)
     \<and> prefix (outbox c) (encode_items is)
     \<and> (write_pending c \<noteq> None \<or> \<not> closed c \<longrightarrow>
          encode_items is = outbox c @ concat (map buf_data (write_queue c)))
     \<and> (\<not> closed c \<longrightarrow> item_payloads is @ pend = sent c)"

definition wire_inv :: "conn \<Rightarrow> bool" where
  "wire_inv c \<longleftrightarrow> (\<exists>is. wire_rel (task_payloads (strand c)) c is)"

text \<open>
  The payloads handed up are the first ones of the stream; what is still to come follows from
  the unread bytes and the point the reader has reached.
\<close>

fun received :: "callback list \<Rightarrow> bytes list" where
  "received [] = []"
| "received (OnReceive _ p # cs) = p # received cs"
| "received (OnClose _ # cs) = received cs"

definition read_rel :: "bytes \<Rightarrow> conn \<Rightarrow> bytes list \<Rightarrow> bool" where
  "read_rel stream c rest \<longleftrightarrow>
     received (calls c) @ rest = stream_payloads stream
     \<and> (case read_pending c of
          NoRead \<Rightarrow> True
        | ReadHeader b \<Rightarrow> rest = stream_payloads (inbox c)
        | ReadBody b \<Rightarrow>
            let n = length (buf_data (body_buf c))
            in rest = (if length (inbox c) < n then []
                       else take n (inbox c) # stream_payloads (drop n (inbox c))))"

definition read_inv :: "bytes \<Rightarrow> conn \<Rightarrow> bool" where
  "read_inv stream c \<longleftrightarrow> (\<exists>rest. read_rel stream c rest)"

lemmas handler_defs =
  do_read_header_def do_read_body_def do_write_def start_heartbeat_def cancel_wait_def
  handle_close_def enqueue_raw_frame_def close_def

lemma frame_item_keepalive [simp]: "frame_item \<lparr>buf_data = keepalive_bytes, buf_capacity = BLOCK_SIZE\<rparr>"
  unfolding frame_item_def by (auto intro: exI [of _ KeepaliveFrame])

lemma frame_item_task: "task_ok (EnqueueWrite f) \<Longrightarrow> frame_item f"
  unfolding frame_item_def by (auto intro: exI [of _ "DataFrame _"])

lemma max_pending_pos [simp]: "MAX_PENDING_WRITE_FRAMES \<noteq> 0"
  by (simp add: MAX_PENDING_WRITE_FRAMES_def)

lemmas session_inv_defs = session_inv_def mem_inv_def write_inv_def life_inv_def time_inv_def

text \<open>What \<^verbatim>\<open>enqueue_write\<close> does to an open session whose queue has room.\<close>

lemma enqueue_write_room:
  assumes "\<not> closed r" and "length (write_queue r) < MAX_PENDING_WRITE_FRAMES"
  shows "\<not> closed (enqueue_write f r)" and "write_queue (enqueue_write f r) = write_queue r @ [f]"
  using assms by (auto simp: enqueue_write_def enqueue_frame_def do_write_def Let_def split: list.split)

lemma session_inv_enqueue_write [inv_intros]:
  assumes "frame_item f" and "session_inv r"
  shows "session_inv (enqueue_write f r)"
  using assms
  by (auto simp: session_inv_defs enqueue_write_def enqueue_frame_def handler_defs Let_def split: list.splits)

lemma session_inv_handle_close [inv_intros]:
  "session_inv r \<Longrightarrow> session_inv (handle_close r)"
  by (auto simp: session_inv_defs handler_defs)

lemma session_inv_run_task [inv_intros]:
  assumes "task_ok t" and "session_inv r"
  shows "session_inv (run_task t r)"
  using assms by (cases t) (auto intro: inv_intros frame_item_task simp del: task_ok.simps)

lemma send_eq:
  assumes "pool_ok (pool r)"
  shows "send p r =
    (if sendable_payload p
     then r\<lparr>pool := butlast (pool r),
            strand := strand r @ [EnqueueWrite \<lparr>buf_data = frame_of p, buf_capacity = BLOCK_SIZE\<rparr>]\<rparr>
     else r)"
  using build_data_frame_eq [OF assms, of p] by (auto simp: send_def sendable_payload_def)

lemma session_inv_send [inv_intros]:
  assumes "session_inv r"
  shows "session_inv (send p r)"
  using assms by (auto simp: session_inv_defs send_eq)

lemma session_inv_on_written [inv_intros]:
  assumes "session_inv r" and "write_pending r \<noteq> None"
  shows "session_inv (on_written ec r)"
  using assms
  by (auto simp: session_inv_defs on_written_def handler_defs Let_def split: list.splits)

lemma session_inv_on_heartbeat_fired [inv_intros]:
  assumes "session_inv r"
  shows "session_inv (on_heartbeat False r)"
proof -
  have "pool_ok (pool r)" using assms by (simp add: session_inv_defs)
  note frame = build_keepalive_frame_eq [OF this]
  show ?thesis
    using assms
    by (auto simp: session_inv_defs on_heartbeat_def send_keepalive_def frame enqueue_write_def
        enqueue_frame_def handler_defs Let_def split: list.splits)
qed

lemma session_inv_on_heartbeat_cancelled [inv_intros]:
  assumes "session_inv r" and "heartbeat_timer r = Some w" and "cancelled_at w \<noteq> None"
  shows "session_inv (on_heartbeat True r)"
  using assms by (auto simp: session_inv_defs on_heartbeat_def Let_def)

lemma session_inv_header_failed [inv_intros]:
  "session_inv r \<Longrightarrow> session_inv (on_header_read True bs r)"
  by (auto simp: session_inv_defs on_header_read_def handler_defs Let_def)

lemma session_inv_header_read [inv_intros]:
  assumes inv: "session_inv r" and len: "length bs = 8"
  shows "session_inv (on_header_read False bs r)"
proof (cases "decode_header bs")
  case (Inl e)
  then show ?thesis using inv by (auto simp: session_inv_defs on_header_read_def handler_defs Let_def)
next
  case (Inr h)
  then have "unat (payload_size h) \<le> MAX_PAYLOAD_SIZE"
    using decode_header_Inr(2) [of bs h] len by auto
  then show ?thesis
    using inv Inr by (auto simp: session_inv_defs on_header_read_def handler_defs Let_def max_def)
qed

lemma session_inv_body_failed [inv_intros]:
  "session_inv r \<Longrightarrow> session_inv (on_body_read True (buf_data (body_buf r)) r)"
  by (auto simp: session_inv_defs on_body_read_def handler_defs Let_def)

text \<open>What a completed body read does to a session in order: the payload is handed up unchanged.\<close>

lemma on_body_read_ok:
  assumes inv: "session_inv r" and len: "length bs = length (buf_data (body_buf r))"
  shows "on_body_read False bs r =
    do_read_header (r\<lparr>read_pending := NoRead, body_buf := (body_buf r)\<lparr>buf_data := bs\<rparr>,
      pool := butlast (pool r), calls := calls r @ [OnReceive (id_S r) bs]\<rparr>)"
proof -
  have "length bs \<le> BLOCK_SIZE" "pool_ok (pool r)"
    using inv len by (auto simp: session_inv_defs wire_consts)
  then have "acquire (length bs) (pool r) =
      (\<lparr>buf_data = replicate (length bs) 0, buf_capacity = BLOCK_SIZE\<rparr>, butlast (pool r))"
    by (simp add: acquire_props)
  then show ?thesis
    by (simp add: on_body_read_def Let_def memcpy_fill)
qed

lemma session_inv_body_read [inv_intros]:
  assumes inv: "session_inv r" and len: "length bs = length (buf_data (body_buf r))"
  shows "session_inv (on_body_read False bs r)"
  unfolding on_body_read_ok [OF assms]
  using assms by (auto simp: session_inv_defs handler_defs)

text \<open>The parts of a connection that are not in the session do not matter to its invariant.\<close>

lemma session_inv_outer [simp]:
  "session_inv (c\<lparr>inbox := x\<rparr>) = session_inv c"
  "session_inv (c\<lparr>outbox := x\<rparr>) = session_inv c"
  "session_inv (c\<lparr>sent := ps\<rparr>) = session_inv c"
  by (simp_all add: session_inv_defs)

lemma session_inv_env [inv_intros]:
  "session_inv r \<Longrightarrow> session_inv (close r)"
  "session_inv r \<Longrightarrow> session_inv (r\<lparr>now := now r + int n\<rparr>)"
  "session_inv r \<Longrightarrow> pool_ok p \<Longrightarrow> session_inv (r\<lparr>pool := p\<rparr>)"
  by (auto simp: session_inv_defs close_def)

lemma session_inv_fire:
  assumes inv: "session_inv c" and en: "enabled e c"
  shows "session_inv (fire e c)"
proof (cases e)
  case (SendRaw p)
  then show ?thesis
    using inv en by (auto simp: session_inv_defs handler_defs)
next
  case RunTask
  then obtain t ts where "strand c = t # ts" using en by (cases "strand c") auto
  moreover from this inv have "task_ok t" "session_inv (c\<lparr>strand := ts\<rparr>)"
    by (auto simp: session_inv_defs)
  ultimately show ?thesis
    using RunTask by (simp add: inv_intros)
qed (use inv en in \<open>auto intro!: inv_intros simp: HEADER_SIZE_def Let_def
      split: option.splits simp del: task_ok.simps\<close>)

section \<open>What goes out\<close>

lemma task_payloads_append [simp]: "task_payloads (ts @ us) = task_payloads ts @ task_payloads us"
  by (induction ts rule: task_payloads.induct) simp_all

lemma drop_frame_of [simp]: "drop HEADER_SIZE (frame_of p) = p"
  by (simp add: frame_of_def HEADER_SIZE_def)

lemma wire_rel_handle_close: "wire_rel pend c is \<Longrightarrow> wire_rel pend (handle_close c) is"
  by (simp add: wire_rel_def handle_close_def)

lemma wire_rel_enqueue:
  assumes rel: "wire_rel (item_payloads [i] @ pend) c is"
    and f: "item_ok i" "buf_data f = encode_item i" and w: "write_inv c"
  shows "\<exists>js. wire_rel pend (enqueue_write f c) js"
proof -
  consider "closed c" | "\<not> closed c" "MAX_PENDING_WRITE_FRAMES \<le> length (write_queue c)"
    | "\<not> closed c" "\<not> MAX_PENDING_WRITE_FRAMES \<le> length (write_queue c)" by blast
  then show ?thesis
  proof cases
    case 1
    then have "wire_rel pend (enqueue_write f c) is"
      using rel by (simp add: wire_rel_def enqueue_write_def)
    then show ?thesis ..
  next
    case 2
    then have "wire_rel pend (enqueue_write f c) is"
      using rel by (simp add: wire_rel_def enqueue_write_def enqueue_frame_def handle_close_def)
    then show ?thesis ..
  next
    case 3
    then have new: "\<not> closed (enqueue_write f c)" "write_queue (enqueue_write f c) = write_queue c @ [f]"
        "outbox (enqueue_write f c) = outbox c" "sent (enqueue_write f c) = sent c"
      by (simp_all add: enqueue_write_room not_le)
         (simp_all add: enqueue_write_def enqueue_frame_def do_write_def Let_def split: list.split)
    have "encode_items is = outbox c @ concat (map buf_data (write_queue c))"
        "item_payloads is @ item_payloads [i] @ pend = sent c" "\<forall>j \<in> set is. item_ok j"
      using rel 3 by (simp_all add: wire_rel_def)
    then have "wire_rel pend (enqueue_write f c) (is @ [i])"
      unfolding wire_rel_def new using f by (simp add: prefix_def) (metis append_assoc)
    then show ?thesis ..
  qed
qed

lemma wire_rel_written:
  assumes rel: "wire_rel pend c is" and w: "write_inv c" and p: "write_pending c = Some (b, d)"
  shows "wire_rel pend (on_written False (c\<lparr>outbox := outbox c @ d\<rparr>)) is"
    and "wire_rel pend (on_written True (c\<lparr>outbox := outbox c @ take n d\<rparr>)) is"
proof -
  obtain f fs where q: "write_queue c = f # fs" "d = buf_data f"
    using w p by (auto simp: write_inv_def)
  have enc: "encode_items is = outbox c @ d @ concat (map buf_data fs)"
    using rel p q by (simp add: wire_rel_def)
  then have "prefix (outbox c @ d) (encode_items is)" "prefix (outbox c @ take n d) (encode_items is)"
    by (auto simp: prefix_def) (metis append_take_drop_id append_assoc)
  with rel q enc show "wire_rel pend (on_written False (c\<lparr>outbox := outbox c @ d\<rparr>)) is"
    and "wire_rel pend (on_written True (c\<lparr>outbox := outbox c @ take n d\<rparr>)) is"
    by (auto simp: wire_rel_def on_written_def do_write_def handle_close_def Let_def split: list.splits)
qed

lemma strand_unchanged [state_simps]:
  "strand (handle_close r) = strand r"
  "strand (do_write r) = strand r"
  "strand (enqueue_write f r) = strand r"
  "strand (on_written ec r) = strand r"
  "strand (on_header_read ec bs r) = strand r"
  "strand (on_body_read ec bs r) = strand r"
  by (auto simp: enqueue_write_def enqueue_frame_def on_written_def on_header_read_def
      on_body_read_def handler_defs Let_def split: list.splits sum.splits option.splits prod.splits)

lemma now_enqueue_write [state_simps]: "now (enqueue_write f r) = now r"
  by (auto simp: enqueue_write_def enqueue_frame_def handler_defs Let_def split: list.splits)

lemma wire_rel_read:
  assumes "wire_rel pend c is"
  shows "wire_rel pend (on_header_read ec bs (c\<lparr>inbox := x\<rparr>)) is"
    and "wire_rel pend (on_body_read ec bs (c\<lparr>inbox := x\<rparr>)) is"
    and "wire_rel pend (start_heartbeat c) is"
    and "wire_rel pend (c\<lparr>heartbeat_timer := y\<rparr>) is"
    and "wire_rel pend (c\<lparr>pool := z\<rparr>) is"
  using assms
  by (auto simp: wire_rel_def on_header_read_def on_body_read_def handler_defs Let_def
      split: sum.splits option.splits prod.splits)

lemma wire_rel_send:
  assumes "wire_rel pend c is" and "sent c' = sent c @ ps"
    and "outbox c' = outbox c" "write_pending c' = write_pending c" "write_queue c' = write_queue c"
      "closed c' = closed c"
  shows "wire_rel (pend @ ps) c' is"
  using assms by (auto simp: wire_rel_def)

lemma wire_rel_heartbeat:
  assumes rel: "wire_rel pend c is" and inv: "session_inv c"
  shows "\<exists>js. wire_rel pend (on_heartbeat False c) js"
proof (cases "HEARTBEAT_TIMEOUT \<le> now c - last_activity c")
  case True
  then show ?thesis
    using wire_rel_handle_close [OF wire_rel_read(4) [OF rel]] by (auto simp: on_heartbeat_def)
next
  case False
  let ?f = "\<lparr>buf_data = keepalive_bytes, buf_capacity = BLOCK_SIZE\<rparr>"
  let ?c = "c\<lparr>heartbeat_timer := None, pool := butlast (pool c)\<rparr>"
  have "pool_ok (pool c)" using inv by (simp add: session_inv_defs)
  then have eq: "on_heartbeat False c = start_heartbeat (enqueue_write ?f ?c)"
    using False by (simp add: on_heartbeat_def send_keepalive_def build_keepalive_frame_eq)
  have "wire_rel (item_payloads [KeepaliveFrame] @ pend) ?c is"
    using wire_rel_read(5) [OF wire_rel_read(4) [OF rel]] by simp
  then obtain js where "wire_rel pend (enqueue_write ?f ?c) js"
    using wire_rel_enqueue [of KeepaliveFrame pend ?c "is" ?f] inv by (auto simp: session_inv_defs)
  then show ?thesis
    unfolding eq using wire_rel_read(3) by blast
qed

lemma strand_heartbeat [state_simps]: "strand (on_heartbeat ec r) = strand r"
  by (auto simp: on_heartbeat_def send_keepalive_def start_heartbeat_def state_simps Let_def
      split: option.splits)

lemma wire_inv_task:
  assumes rel: "wire_rel (task_payloads (t # ts)) c is" and t: "task_ok t" and w: "write_inv c"
  shows "\<exists>js. wire_rel (task_payloads ts) (run_task t (c\<lparr>strand := ts\<rparr>)) js"
proof (cases t)
  case (EnqueueWrite f)
  then obtain p where p: "sendable_payload p" "buf_data f = frame_of p"
    using t by auto
  have "wire_rel (item_payloads [DataFrame p] @ task_payloads ts) (c\<lparr>strand := ts\<rparr>) is"
    using rel p EnqueueWrite by (simp add: wire_rel_def)
  then show ?thesis
    using wire_rel_enqueue [of "DataFrame p" "task_payloads ts" "c\<lparr>strand := ts\<rparr>" "is" f] p w EnqueueWrite
    by (simp add: write_inv_def)
next
  case HandleClose
  then have "wire_rel (task_payloads ts) (c\<lparr>strand := ts\<rparr>) is"
    using rel by (simp add: wire_rel_def)
  then show ?thesis
    using wire_rel_handle_close HandleClose by auto
qed

lemma wire_inv_fire:
  assumes wire: "wire_inv c" and inv: "session_inv c" and en: "enabled e c"
  shows "wire_inv (fire e c)"
proof -
  obtain "is" where rel: "wire_rel (task_payloads (strand c)) c is"
    using wire by (auto simp: wire_inv_def)
  have pool: "pool_ok (pool c)" and w: "write_inv c" and tasks: "\<forall>t \<in> set (strand c). task_ok t"
    using inv by (simp_all add: session_inv_defs)
  show ?thesis
  proof (cases e)
    case (Send p)
    then show ?thesis
      using wire_rel_send [OF rel, of "fire e c" "if sendable_payload p then [p] else []"]
      by (auto simp: wire_inv_def send_eq [OF pool])
  next
    case (SendRaw p)
    then show ?thesis
      using wire_rel_send [OF rel, of "fire e c" "[p]"]
      by (auto simp: wire_inv_def enqueue_raw_frame_def)
  next
    case Close
    then show ?thesis using rel by (auto simp: wire_inv_def wire_rel_def close_def)
  next
    case RunTask
    then obtain t ts where "strand c = t # ts" using en by (cases "strand c") auto
    moreover from this have "\<exists>js. wire_rel (task_payloads ts) (run_task t (c\<lparr>strand := ts\<rparr>)) js"
      using rel tasks w by (intro wire_inv_task) auto
    ultimately show ?thesis
      using RunTask by (cases t) (auto simp: wire_inv_def state_simps)
  next
    case HeartbeatFired
    then show ?thesis
      using wire_rel_heartbeat [OF rel inv] by (simp add: wire_inv_def state_simps)
  next
    case HeartbeatCancelled
    then show ?thesis
      using wire_rel_read(4) [OF rel] by (auto simp: wire_inv_def on_heartbeat_def)
  next
    case Written
    then show ?thesis
      using wire_rel_written(1) [OF rel w] en by (auto simp: wire_inv_def state_simps split: option.splits)
  next
    case (WriteFailed n)
    then show ?thesis
      using wire_rel_written(2) [OF rel w] en by (auto simp: wire_inv_def state_simps split: option.splits)
  next
    case (Advance n)
    then show ?thesis using rel by (auto simp: wire_inv_def wire_rel_def)
  next
    case (OtherThread p)
    then show ?thesis using wire_rel_read(5) [OF rel] by (auto simp: wire_inv_def)
  next
    case HeaderFailed
    then show ?thesis
      using wire_rel_read(1) [OF rel, of _ _ "inbox c"] by (auto simp: wire_inv_def state_simps)
  next
    case BodyFailed
    then show ?thesis
      using wire_rel_read(2) [OF rel, of _ _ "inbox c"] by (auto simp: wire_inv_def state_simps)
  next
    case HeaderRead
    then show ?thesis
      using wire_rel_read(1) [OF rel] by (auto simp: wire_inv_def state_simps)
  next
    case BodyRead
    then show ?thesis
      using wire_rel_read(2) [OF rel, of False] by (simp add: wire_inv_def state_simps Let_def) blast
  qed
qed

section \<open>What comes in\<close>

lemma received_append [simp]: "received (cs @ ds) = received cs @ received ds"
  by (induction cs rule: received.induct) simp_all

text \<open>The handlers that have nothing to do with reading.\<close>

lemma read_rel_frame:
  assumes "read_rel stream c rest"
    and "received (calls c') = received (calls c)" "read_pending c' = read_pending c \<or> read_pending c' = NoRead"
      "inbox c' = inbox c" "body_buf c' = body_buf c"
  shows "read_rel stream c' rest"
  using assms by (auto simp: read_rel_def Let_def split: read_op.splits)

lemma read_rel_enqueue_write:
  assumes "read_rel stream c rest"
  shows "read_rel stream (enqueue_write f c) rest"
  by (rule read_rel_frame [OF assms])
     (auto simp: enqueue_write_def enqueue_frame_def handler_defs Let_def split: list.splits)

lemma read_rel_handle_close:
  assumes "read_rel stream c rest"
  shows "read_rel stream (handle_close c) rest"
  by (rule read_rel_frame [OF assms]) (auto simp: handler_defs)

lemma read_rel_on_written:
  assumes "read_rel stream c rest"
  shows "read_rel stream (on_written ec (c\<lparr>outbox := x\<rparr>)) rest"
  by (rule read_rel_frame [OF assms])
     (auto simp: on_written_def handler_defs Let_def split: list.splits)

lemma read_rel_on_heartbeat:
  assumes "read_rel stream c rest"
  shows "read_rel stream (on_heartbeat ec c) rest"
proof -
  have off: "read_rel stream (c\<lparr>heartbeat_timer := None\<rparr>) rest"
    by (rule read_rel_frame [OF assms]) simp_all
  have "read_rel stream (send_keepalive c') rest" if "read_rel stream c' rest" for c'
    using read_rel_frame [OF that, of "c'\<lparr>fault := True\<rparr>"]
      read_rel_enqueue_write [OF read_rel_frame [OF that, of "c'\<lparr>pool := p\<rparr>" for p]]
    by (auto simp: send_keepalive_def split: option.splits)
  from read_rel_frame [OF this [OF off], of "start_heartbeat (send_keepalive (c\<lparr>heartbeat_timer := None\<rparr>))"]
  show ?thesis
    using off read_rel_handle_close [OF off] by (auto simp: on_heartbeat_def Let_def start_heartbeat_def)
qed

text \<open>A header: refused, a keepalive, or the announcement of a body.\<close>

lemma read_rel_header:
  assumes rel: "read_rel stream c rest" and at: "read_pending c = ReadHeader True"
    and len: "HEADER_SIZE \<le> length (inbox c)"
  shows "read_rel stream (fire HeaderRead c) rest"
proof -
  let ?s = "inbox c"
  have rest: "rest = stream_payloads ?s" and before: "received (calls c) @ rest = stream_payloads stream"
    using rel at by (auto simp: read_rel_def)
  have dec: "decode_header (take 8 ?s) = decode_header ?s" and len8: "\<not> length ?s < 8"
    using len by (simp_all add: decode_header_take HEADER_SIZE_def)
  show ?thesis
  proof (cases "decode_header ?s")
    case (Inl e)
    then show ?thesis
      using before dec by (simp add: read_rel_def on_header_read_def handle_close_def HEADER_SIZE_def Let_def)
  next
    case (Inr h)
    then show ?thesis
      using before dec rest len8
      by (simp add: read_rel_def on_header_read_def do_read_header_def do_read_body_def HEADER_SIZE_def
          Let_def stream_payloads.simps [of ?s])
         (auto simp: add.commute Let_def)
  qed
qed

lemma read_rel_body:
  assumes rel: "read_rel stream c rest" and inv: "session_inv c" and at: "read_pending c = ReadBody True"
    and len: "length (buf_data (body_buf c)) \<le> length (inbox c)"
  shows "read_inv stream (fire BodyRead c)"
proof -
  let ?n = "length (buf_data (body_buf c))"
  have "on_body_read False (take ?n (inbox c)) (c\<lparr>inbox := drop ?n (inbox c)\<rparr>) =
    do_read_header (c\<lparr>inbox := drop ?n (inbox c), read_pending := NoRead,
      body_buf := (body_buf c)\<lparr>buf_data := take ?n (inbox c)\<rparr>, pool := butlast (pool c),
      calls := calls c @ [OnReceive (id_S c) (take ?n (inbox c))]\<rparr>)"
    using inv len by (subst on_body_read_ok) simp_all
  then have "read_rel stream (fire BodyRead c) (stream_payloads (drop ?n (inbox c)))"
    using rel at len by (auto simp: read_rel_def do_read_header_def Let_def)
  then show ?thesis by (auto simp: read_inv_def)
qed

lemma read_inv_fire:
  assumes read: "read_inv stream c" and inv: "session_inv c" and en: "enabled e c"
  shows "read_inv stream (fire e c)"
proof -
  obtain rest where rel: "read_rel stream c rest"
    using read by (auto simp: read_inv_def)
  have pool: "pool_ok (pool c)" using inv by (simp add: session_inv_defs)
  show ?thesis
  proof (cases e)
    case RunTask
    then obtain t ts where t: "strand c = t # ts" using en by (cases "strand c") auto
    have "read_rel stream (c\<lparr>strand := ts\<rparr>) rest"
      by (rule read_rel_frame [OF rel]) simp_all
    from read_rel_enqueue_write [OF this] read_rel_handle_close [OF this] show ?thesis
      using RunTask t by (cases t) (auto simp: read_inv_def)
  next
    case HeaderRead
    then show ?thesis
      using read_rel_header [OF rel] en by (auto simp: read_inv_def)
  next
    case BodyRead
    then show ?thesis
      using read_rel_body [OF rel inv] en by simp
  next
    case (Written)
    then show ?thesis
      using read_rel_on_written [OF rel] en by (auto simp: read_inv_def split: option.splits)
  next
    case (WriteFailed n)
    then show ?thesis
      using read_rel_on_written [OF rel] en by (auto simp: read_inv_def split: option.splits)
  next
    case HeartbeatFired
    then show ?thesis using read_rel_on_heartbeat [OF rel] by (auto simp: read_inv_def)
  next
    case HeartbeatCancelled
    then show ?thesis using read_rel_on_heartbeat [OF rel] by (auto simp: read_inv_def)
  qed (auto simp: read_inv_def send_eq [OF pool] on_header_read_def on_body_read_def handler_defs
      Let_def intro!: exI [of _ rest] read_rel_frame [OF rel])
qed

section \<open>Reachable connections\<close>

lemma started_invs: "session_inv (started i t stream) \<and> wire_inv (started i t stream) \<and> read_inv stream (started i t stream)"
proof -
  have "session_inv (started i t stream)"
    by (auto simp: session_inv_defs started_def start_def Session_init_def handler_defs
        Session.extend_def SessionRun.extend_def empty_vector_def vec_reserve_def
        HEARTBEAT_TIMEOUT_def HEARTBEAT_INTERVAL_def)
  moreover have "wire_rel [] (started i t stream) []" "strand (started i t stream) = []"
    by (auto simp: wire_rel_def started_def start_def Session_init_def handler_defs
        Session.extend_def SessionRun.extend_def)
  moreover have "read_rel stream (started i t stream) (stream_payloads stream)"
    by (auto simp: read_rel_def started_def start_def Session_init_def handler_defs
        Session.extend_def SessionRun.extend_def)
  ultimately show ?thesis
    by (auto simp: wire_inv_def read_inv_def)
qed

lemma reach_invs:
  assumes "conn_reach (started i t stream) c"
  shows "session_inv c \<and> wire_inv c \<and> read_inv stream c"
  using assms
proof (induction rule: conn_reach.induct)
  case here
  show ?case by (rule started_invs)
next
  case (there c e)
  then show ?case using session_inv_fire wire_inv_fire read_inv_fire by blast
qed

text \<open>
  Two ends of a connection: what \<open>d\<close> has handed up, when its stream is a part of what \<open>c\<close> has
  written.
\<close>

lemma payloads_arrive:
  assumes "conn_reach (started i t stream) c" and "conn_reach (started j u stream') d"
    and "prefix stream' (outbox c)"
  shows "prefix (received (calls d)) (sent c)"
    and "\<not> closed c \<Longrightarrow> strand c = [] \<Longrightarrow> write_queue c = [] \<Longrightarrow> stream' = outbox c
      \<Longrightarrow> read_pending d = ReadHeader True \<Longrightarrow> inbox d = [] \<Longrightarrow> received (calls d) = sent c"
proof -
  obtain "is" where rel: "wire_rel (task_payloads (strand c)) c is"
    using reach_invs [OF assms(1)] by (auto simp: wire_inv_def)
  have items: "stream_payloads (encode_items is) = item_payloads is"
    using stream_payloads_items [of "is" "[]"] rel by (simp add: wire_rel_def stream_payloads_short)
  obtain rest where d: "read_rel stream' d rest"
    using reach_invs [OF assms(2)] by (auto simp: read_inv_def)
  have "prefix (received (calls d)) (stream_payloads stream')"
    using d by (metis read_rel_def prefixI)
  also have "prefix stream' (encode_items is)"
    using assms(3) rel by (auto simp: wire_rel_def intro: prefix_order.trans)
  then have "prefix (stream_payloads stream') (item_payloads is)"
    using stream_payloads_mono items by metis
  also have "prefix (item_payloads is) (sent c)"
    using rel by (simp add: wire_rel_def)
  finally show "prefix (received (calls d)) (sent c)" .
  assume quiet: "\<not> closed c" "strand c = []" "write_queue c = []" "stream' = outbox c"
    "read_pending d = ReadHeader True" "inbox d = []"
  then have "received (calls d) = stream_payloads (outbox c)"
    using d by (auto simp: read_rel_def stream_payloads_short)
  moreover have "outbox c = encode_items is" "item_payloads is = sent c"
    using rel quiet by (simp_all add: wire_rel_def)
  ultimately show "received (calls d) = sent c" by (simp add: items)
qed

text \<open>Runs given by a list of events; an event that cannot happen is skipped.\<close>

definition attempt :: "conn_event \<Rightarrow> conn \<Rightarrow> conn" where
  "attempt e c = (if enabled e c then fire e c else c)"

interpretation cn: event_machine attempt "\<lambda>c. session_inv c \<and> wire_inv c \<and> read_inv stream c"
  for stream
  by unfold_locales (auto simp: attempt_def session_inv_fire wire_inv_fire read_inv_fire)

lemma reach_attempts:
  assumes "conn_reach c0 c"
  shows "conn_reach c0 (fold attempt es c)"
  using assms
proof (induction es arbitrary: c)
  case (Cons e es)
  then show ?case by (simp add: attempt_def conn_reach.there)
qed simp

lemma reads_keep_output:
  "outbox (attempt HeaderRead c) = outbox c" "sent (attempt HeaderRead c) = sent c"
  "outbox (attempt BodyRead c) = outbox c" "sent (attempt BodyRead c) = sent c"
  by (simp_all add: attempt_def on_header_read_def on_body_read_def handler_defs Let_def
      split: sum.split option.split prod.split)

text \<open>A complete frame that has arrived is handed up by the next two reads.\<close>

lemma frame_delivered:
  assumes inv: "session_inv c" and at: "read_pending c = ReadHeader True" and op: "socket_open c"
    and s: "inbox c = frame_of p @ s" and p: "sendable_payload p"
  defines "c1 \<equiv> attempt HeaderRead c" and "c2 \<equiv> attempt BodyRead (attempt HeaderRead c)"
  shows "enabled HeaderRead c" and "enabled BodyRead c1"
    and "received (calls c2) = received (calls c) @ [p]"
    and "inbox c2 = s" and "read_pending c2 = ReadHeader True" and "socket_open c2"
    and "session_inv c2"
    and "calls c1 = calls c" and "calls c2 = calls c @ [OnReceive (id_S c) p]"
proof -
  let ?h = "header_bytes 0 (of_nat (length p))"
  let ?r = "c\<lparr>inbox := p @ s, read_pending := NoRead, header_buf := ?h, last_activity := now c,
      body_buf := vec_resize (length p) (body_buf c)\<rparr>"
  have n: "unat (of_nat (length p) :: u32) = length p" "0 < length p" "length p \<le> MAX_PAYLOAD_SIZE"
    using p by (auto simp: sendable_payload_def unat_small_length)
  show en: "enabled HeaderRead c"
    using at s by (simp add: HEADER_SIZE_def)
  have c1: "c1 = do_read_body ?r"
    using en s n unfolding c1_def attempt_def
    by (simp add: on_header_read_def frame_of_def decode_header_bytes_only HEADER_SIZE_def Let_def)
  have inv1: "session_inv c1"
    unfolding c1_def attempt_def using session_inv_fire [OF inv en] en by simp
  have len: "length (buf_data (body_buf c1)) = length p" and in1: "inbox c1 = p @ s"
    by (simp_all add: c1 do_read_body_def)
  show en1: "enabled BodyRead c1"
    using op by (simp add: c1 do_read_body_def)
  have c2': "c2 = attempt BodyRead c1"
    by (simp only: c2_def c1_def)
  have c2: "c2 = on_body_read False p (c1\<lparr>inbox := s\<rparr>)"
    unfolding c2' attempt_def using en1 len in1 by simp
  have "c2 = do_read_header ((c1\<lparr>inbox := s\<rparr>)\<lparr>read_pending := NoRead,
      body_buf := (body_buf c1)\<lparr>buf_data := p\<rparr>, pool := butlast (pool c1),
      calls := calls c1 @ [OnReceive (id_S c1) p]\<rparr>)"
    unfolding c2 using inv1 len by (subst on_body_read_ok) simp_all
  then show "calls c1 = calls c" "calls c2 = calls c @ [OnReceive (id_S c) p]"
      "received (calls c2) = received (calls c) @ [p]" "inbox c2 = s"
      "read_pending c2 = ReadHeader True" "socket_open c2"
    using op by (simp_all add: do_read_header_def do_read_body_def c1)
  show "session_inv c2"
    unfolding c2' attempt_def using session_inv_fire [OF inv1 en1] en1 by simp
qed

lemma keepalive_consumed:
  assumes inv: "session_inv c" and at: "read_pending c = ReadHeader True" and op: "socket_open c"
    and s: "inbox c = keepalive_bytes @ s"
  defines "c1 \<equiv> attempt HeaderRead c"
  shows "enabled HeaderRead c" and "calls c1 = calls c" and "inbox c1 = s"
    and "read_pending c1 = ReadHeader True" and "socket_open c1" and "session_inv c1"
proof -
  show en: "enabled HeaderRead c"
    using at s by (simp add: HEADER_SIZE_def keepalive_bytes_def)
  show "session_inv c1"
    unfolding c1_def attempt_def using session_inv_fire [OF inv en] en by simp
  show "calls c1 = calls c" "inbox c1 = s" "read_pending c1 = ReadHeader True" "socket_open c1"
    using en s op unfolding c1_def attempt_def
    by (simp_all add: on_header_read_def keepalive_bytes_def decode_header_bytes_only HEADER_SIZE_def
        Let_def do_read_header_def)
qed

section \<open>What a step does to the callbacks\<close>

fun callback_id :: "callback \<Rightarrow> u32" where
  "callback_id (OnReceive i _) = i"
| "callback_id (OnClose i) = i"

text \<open>
  A handler call keeps the id, never reopens a session, and makes callbacks with its own id only;
  it closes the session exactly if it calls \<^verbatim>\<open>on_close_\<close>.
\<close>

definition calls_step :: "'a SessionRun_scheme \<Rightarrow> 'a SessionRun_scheme \<Rightarrow> bool" where
  "calls_step r r' \<longleftrightarrow>
     id_S r' = id_S r
     \<and> (\<exists>new. calls r' = calls r @ new \<and> (\<forall>cb \<in> set new. callback_id cb = id_S r)
          \<and> filter is_OnClose new = (if closed r' \<and> \<not> closed r then [OnClose (id_S r)] else []))
     \<and> (closed r \<longrightarrow> closed r')"

lemma calls_step_same:
  "id_S r' = id_S r \<Longrightarrow> calls r' = calls r \<Longrightarrow> closed r' = closed r \<Longrightarrow> calls_step r r'"
  by (simp add: calls_step_def)

lemma calls_step_handle_close:
  "id_S r' = id_S r \<Longrightarrow> calls r' = calls r \<Longrightarrow> closed r' = closed r \<Longrightarrow> calls_step r (handle_close r')"
  by (simp add: calls_step_def handle_close_def)

lemma calls_step_enqueue_write:
  assumes "id_S r' = id_S r" "calls r' = calls r" "closed r' = closed r"
  shows "calls_step r (enqueue_write f r')"
  using assms
  by (auto simp: calls_step_def enqueue_write_def enqueue_frame_def handler_defs Let_def split: list.split)

lemma calls_step_later:
  "calls_step r r' \<Longrightarrow> id_S r'' = id_S r' \<Longrightarrow> calls r'' = calls r' \<Longrightarrow> closed r'' = closed r' \<Longrightarrow> calls_step r r''"
  by (simp add: calls_step_def)

lemma calls_step_on_heartbeat: "calls_step r (on_heartbeat ec r)"
proof -
  have "calls_step r (start_heartbeat (send_keepalive (r\<lparr>heartbeat_timer := None\<rparr>)))"
    by (rule calls_step_later [of _ "send_keepalive (r\<lparr>heartbeat_timer := None\<rparr>)"])
       (auto simp: send_keepalive_def start_heartbeat_def intro: calls_step_same
         calls_step_enqueue_write split: option.split)
  then show ?thesis
    by (auto simp: on_heartbeat_def Let_def intro: calls_step_same calls_step_handle_close)
qed

lemma calls_step_on_header_read:
  assumes "id_S r' = id_S r" "calls r' = calls r" "closed r' = closed r"
  shows "calls_step r (on_header_read ec bs r')"
  using assms
  by (simp add: on_header_read_def do_read_header_def do_read_body_def Let_def
      calls_step_same calls_step_handle_close split: sum.split)

lemma calls_step_on_body_read:
  assumes "id_S r' = id_S r" "calls r' = calls r" "closed r' = closed r"
  shows "calls_step r (on_body_read ec bs r')"
proof (cases ec)
  case True
  then show ?thesis
    using assms by (simp add: on_body_read_def Let_def calls_step_handle_close)
next
  case False
  then show ?thesis
    using assms
    by (auto simp: on_body_read_def do_read_header_def Let_def calls_step_def split: option.split prod.split)
qed

lemma calls_step_on_written:
  assumes "id_S r' = id_S r" "calls r' = calls r" "closed r' = closed r"
  shows "calls_step r (on_written ec r')"
proof (cases "write_queue r'")
  case (Cons f fs)
  then show ?thesis
    using assms
    by (cases ec; cases fs)
       (simp_all add: on_written_def do_write_def Let_def calls_step_same calls_step_handle_close)
qed (use assms in \<open>simp add: on_written_def Let_def calls_step_same\<close>)

lemma calls_step_run_task:
  "id_S r' = id_S r \<Longrightarrow> calls r' = calls r \<Longrightarrow> closed r' = closed r \<Longrightarrow> calls_step r (run_task t r')"
  by (cases t) (auto intro: calls_step_enqueue_write calls_step_handle_close)

lemma calls_step_send: "calls_step r (send p r)"
  by (simp add: send_def calls_step_same split: option.split prod.split)

lemma calls_step_fire: "calls_step c (fire e c)"
proof (cases e)
  case (Send p)
  then show ?thesis
    by (auto intro: calls_step_later [OF calls_step_send])
qed (auto simp: close_def enqueue_raw_frame_def Let_def split: list.split option.split
    intro: calls_step_same calls_step_on_heartbeat calls_step_on_header_read calls_step_on_body_read
      calls_step_on_written calls_step_run_task)

end
