(* ===== verification/Transport_Properties.thy ===== *)
theory Transport_Properties
  imports Net_Session
begin

text \<open>
  The properties of the wire format and of a connection.  The witnesses use a small example: a
  session that sends two payloads, and one that reads what the first has put on the network.
\<close>

section \<open>Example\<close>

text \<open>Two sends, an idle heartbeat, all writes done.\<close>

definition example_sender :: conn where
  "example_sender =
     fold attempt
       [Send [1, 2, 3], RunTask, Advance 5000000000, HeartbeatFired, SendRaw [4], RunTask,
        Written, Written, Written]
       (started 7 100 [])"

definition example_receiver :: conn where
  "example_receiver =
     fold attempt [HeaderRead, BodyRead, HeaderRead, HeaderRead, BodyRead]
       (started 8 200 (frame_of [1, 2, 3] @ keepalive_bytes @ frame_of [4]))"

lemmas run_simps =
  attempt_def started_def start_def Session_init_def Session.extend_def SessionRun.extend_def
  handler_defs enqueue_write_def enqueue_frame_def on_header_read_def on_written_def
  on_heartbeat_def send_keepalive_def send_eq build_keepalive_frame_eq sendable_payload_def
  MAX_PENDING_WRITE_FRAMES_def MAX_PAYLOAD_SIZE_def HEADER_SIZE_def HEARTBEAT_TIMEOUT_def
  HEARTBEAT_INTERVAL_def Let_def

lemma example_sender_run:
  "outbox example_sender = frame_of [1, 2, 3] @ keepalive_bytes @ frame_of [4]"
  "sent example_sender = [[1, 2, 3], [4]]"
  "\<not> closed example_sender" "strand example_sender = []" "write_queue example_sender = []"
  by (simp_all add: example_sender_def run_simps release_def)

lemma example_receiver_run:
  "received (calls example_receiver) = [[1, 2, 3], [4]]"
  "inbox example_receiver = []" "read_pending example_receiver = ReadHeader True"
proof -
  let ?c = "started 8 200 (frame_of [1, 2, 3] @ keepalive_bytes @ frame_of [4])"
  have p: "sendable_payload [1, 2, 3]" "sendable_payload [4]"
    by (simp_all add: sendable_payload_def MAX_PAYLOAD_SIZE_def)
  have i: "session_inv ?c" using started_invs by simp
  have c: "read_pending ?c = ReadHeader True" "socket_open ?c" "calls ?c = []"
      "inbox ?c = frame_of [1, 2, 3] @ keepalive_bytes @ frame_of [4]"
    by (simp_all add: run_simps)
  note d = frame_delivered [OF i c(1,2,4) p(1)]
  note k = keepalive_consumed [OF d(7,5,6,4)]
  note e = frame_delivered [OF k(6,4,5) _ p(2), of "[]"]
  show "received (calls example_receiver) = [[1, 2, 3], [4]]"
      "inbox example_receiver = []" "read_pending example_receiver = ReadHeader True"
    using d(3) k(2,3) e(3-5) c(3) by (simp_all add: example_receiver_def)
qed

lemma example_reach:
  "conn_reach (started 7 100 []) example_sender"
  "conn_reach (started 8 200 (frame_of [1, 2, 3] @ keepalive_bytes @ frame_of [4])) example_receiver"
  unfolding example_sender_def example_receiver_def by (rule reach_attempts [OF conn_reach.here])+

section \<open>Wire format\<close>

text \<open>
  C15: \<^verbatim>\<open>decode_header\<close> accepts exactly the headers a sender writes: the keepalive header, and
  for a payload size from 1 to 2048 the data header of that size.  In each case it returns the
  flags and the size that were written.
\<close>

theorem decode_header_exact:
  assumes "length s = HEADER_SIZE"
  shows "decode_header s = Inr h \<longleftrightarrow>
    write_header (replicate HEADER_SIZE 0) (flags h) (payload_size h) = Some s
    \<and> magic h = MAGIC \<and> version h = VERSION
    \<and> (flags h = FLAG_KEEPALIVE \<and> payload_size h = 0
       \<or> flags h = 0 \<and> 1 \<le> unat (payload_size h) \<and> unat (payload_size h) \<le> MAX_PAYLOAD_SIZE)"
    (is "?L \<longleftrightarrow> ?R")
proof -
  have len: "length s = 8" using assms by (simp add: HEADER_SIZE_def)
  have w: "write_header (replicate HEADER_SIZE 0) fl n = Some s \<longleftrightarrow> s = header_bytes fl n" for fl n
    by (auto simp: write_header_eq HEADER_SIZE_def)
  show ?thesis
  proof
    assume L: ?L
    have "s = header_bytes (flags h) (payload_size h)"
      using decode_header_Inr(1) [OF _ L] len by simp
    with L decode_header_Inr(2) [OF _ L] len show ?R
      unfolding w by (cases h) (auto simp: decode_header_bytes_only Suc_le_eq)
  next
    assume R: ?R
    then have "decode_header s =
        Inr \<lparr>magic = MAGIC, version = VERSION, flags = flags h, payload_size = payload_size h\<rparr>"
      unfolding w by (auto simp: decode_header_bytes_only Suc_le_eq)
    with R show ?L by (cases h) simp
  qed
qed

theorem decode_header_exact_witness:
  "decode_header [0x4E, 0x4E, 1, 0, 0, 0, 1, 2] =
     Inr \<lparr>magic = MAGIC, version = VERSION, flags = 0, payload_size = 258\<rparr>"
  by (subst decode_header_exact)
     (simp_all add: write_header_eq header_bytes_def HEADER_SIZE_def MAX_PAYLOAD_SIZE_def drop_bit_eq_div)

text \<open>
  C16: \<^verbatim>\<open>build_data_frame\<close>, for every payload shorter than four gigabytes and a pool in order: a
  payload of 1 to 2048 bytes becomes its frame, in one block of the fixed capacity with nothing
  after the payload; an empty or a longer one becomes the empty vector and takes no block.  No
  write leaves the block.
\<close>

theorem build_data_frame_cases:
  assumes "pool_ok pl" and "length payload < 2 ^ 32"
  shows "build_data_frame pl payload =
    Some (if 1 \<le> length payload \<and> length payload \<le> MAX_PAYLOAD_SIZE
          then (\<lparr>buf_data = header_bytes 0 (of_nat (length payload)) @ payload,
                 buf_capacity = BLOCK_SIZE\<rparr>, butlast pl)
          else (empty_vector, pl))"
proof (cases "sendable_payload payload")
  case True
  then show ?thesis
    using build_data_frame_eq [OF assms(1) True]
    by (auto simp: sendable_payload_def frame_of_def Suc_le_eq)
next
  case False
  have "unat (of_nat (length payload) :: u32) = length payload"
    using assms(2) by (simp add: unat_of_nat take_bit_nat_eq_self)
  then show ?thesis
    using False
    by (auto simp: build_data_frame_def build_frame_def sendable_payload_def acquire_refuses
        BLOCK_SIZE_def Let_def empty_vector_def)
qed

theorem build_data_frame_cases_witness:
  "build_data_frame [] [9, 8] =
     Some (\<lparr>buf_data = [0x4E, 0x4E, 1, 0, 0, 0, 0, 2, 9, 8], buf_capacity = 2056\<rparr>, [])"
  using build_data_frame_cases [of "[]" "[9, 8]"]
  by (simp add: header_bytes_def MAX_PAYLOAD_SIZE_def BLOCK_SIZE_def HEADER_SIZE_def drop_bit_eq_div)

section \<open>A connection\<close>

text \<open>
  C17: In every state a started session can reach, whatever the network, the peer and the callers
  do, nothing undefined has happened: no access left a buffer, no frame was taken from an empty
  queue, and no read or write was ever started while one of its kind was pending.  At most 1024
  frames wait and the received body fits its 2048 reserved bytes; a pending write is that of the
  front of the queue, and while the session is open \<^verbatim>\<open>writing_\<close> says whether there is one and no
  frame waits without a write; an open session has a read and an uncancelled heartbeat pending;
  \<^verbatim>\<open>on_close_\<close> was called exactly once if the session is closed and not at all if it is open.
\<close>

theorem session_keeps_invariant:
  assumes "conn_reach (started i t stream) c"
  shows "\<not> fault c
    \<and> length (write_queue c) \<le> 1024 \<and> length (buf_data (body_buf c)) \<le> 2048
    \<and> buf_capacity (body_buf c) = 2048
    \<and> (write_pending c \<noteq> None \<longrightarrow>
         write_queue c \<noteq> [] \<and> snd (the (write_pending c)) = buf_data (hd (write_queue c)))
    \<and> (\<not> closed c \<longrightarrow>
         (writing c \<longleftrightarrow> write_pending c \<noteq> None) \<and> (write_queue c \<noteq> [] \<longrightarrow> writing c)
         \<and> read_pending c \<noteq> NoRead \<and> heartbeat_timer c \<noteq> None)
    \<and> filter is_OnClose (calls c) = (if closed c then [OnClose (id_S c)] else [])"
proof -
  have "session_inv c" using reach_invs [OF assms] by simp
  then show ?thesis
    by (auto simp: session_inv_defs MAX_PENDING_WRITE_FRAMES_def MAX_PAYLOAD_SIZE_def)
qed

theorem session_keeps_invariant_witness:
  "filter is_OnClose (calls (fold attempt [Close, RunTask, HeaderFailed] (started 7 100 []))) = [OnClose 7]"
proof -
  let ?c = "fold attempt [Close, RunTask, HeaderFailed] (started 7 100 [])"
  have "closed ?c" "id_S ?c = 7" by (simp_all add: run_simps)
  moreover have "conn_reach (started 7 100 []) ?c"
    by (rule reach_attempts [OF conn_reach.here])
  ultimately show ?thesis
    using session_keeps_invariant [of 7 100 "[]" ?c] by simp
qed

text \<open>
  C18: Whatever bytes the peer sends, the payloads handed to the server are, in order and
  unchanged, the first payloads of that byte stream as the wire format divides it, and each has 1
  to 2048 bytes.  When the session waits for a header and has read everything, it has handed up
  all of them.
\<close>

theorem session_receives_stream:
  assumes "conn_reach (started i t stream) c"
  shows "prefix (received (calls c)) (stream_payloads stream)
    \<and> (\<forall>p \<in> set (received (calls c)). 1 \<le> length p \<and> length p \<le> 2048)
    \<and> (read_pending c = ReadHeader True \<and> inbox c = [] \<longrightarrow> received (calls c) = stream_payloads stream)"
proof -
  obtain rest where "read_rel stream c rest"
    using reach_invs [OF assms] by (auto simp: read_inv_def)
  then have rel: "received (calls c) @ rest = stream_payloads stream"
      "read_pending c = ReadHeader True \<and> inbox c = [] \<longrightarrow> rest = []"
    by (auto simp: read_rel_def stream_payloads_short)
  have "sendable_payload p" if "p \<in> set (received (calls c))" for p
    using stream_payloads_sizes [of p stream] rel(1) that by (metis in_set_conv_decomp append_assoc append_Cons)
  moreover have "prefix (received (calls c)) (stream_payloads stream)"
    using rel(1) by (metis prefixI)
  ultimately show ?thesis
    using rel by (auto simp: sendable_payload_def MAX_PAYLOAD_SIZE_def Suc_le_eq)
qed

theorem session_receives_stream_witness:
  "received (calls example_receiver) =
     stream_payloads (frame_of [1, 2, 3] @ keepalive_bytes @ frame_of [4])"
  using session_receives_stream [OF example_reach(2)] example_receiver_run by simp

text \<open>
  C19: End to end: if a receiver's stream is what a sender has put on the network so far, or any
  initial part of it, the receiver has handed up an initial part of the payloads the sender was
  asked to send: no payload is lost in the middle, reordered, duplicated or altered.  If the
  sender is open with nothing waiting, the stream is complete and the receiver has read it all,
  then everything that was sent has arrived.
\<close>

theorem sent_payloads_arrive:
  assumes "conn_reach (started i t stream) c" and "conn_reach (started j u stream') d"
    and "prefix stream' (outbox c)"
  shows "prefix (received (calls d)) (sent c)
    \<and> (\<not> closed c \<and> strand c = [] \<and> write_queue c = [] \<and> stream' = outbox c
       \<and> read_pending d = ReadHeader True \<and> inbox d = [] \<longrightarrow> received (calls d) = sent c)"
  using payloads_arrive [OF assms] by blast

theorem sent_payloads_arrive_witness:
  "received (calls example_receiver) = sent example_sender \<and> sent example_sender = [[1, 2, 3], [4]]"
  using sent_payloads_arrive [OF example_reach] by (simp add: example_sender_run example_receiver_run)

text \<open>
  Runs in which the heartbeat timer is served on time: the clock does not pass the deadline of a
  running timer before its handler is called.
\<close>

fun on_time :: "conn_event \<Rightarrow> conn \<Rightarrow> bool" where
  "on_time (Advance n) c =
     (case heartbeat_timer c of
        None \<Rightarrow> True
      | Some w \<Rightarrow> cancelled_at w = None \<longrightarrow> now c + int n \<le> deadline w)"
| "on_time _ c = True"

inductive prompt_reach :: "conn \<Rightarrow> conn \<Rightarrow> bool" for c0 where
  here: "prompt_reach c0 c0"
| there: "prompt_reach c0 c \<Longrightarrow> enabled e c \<Longrightarrow> on_time e c \<Longrightarrow> prompt_reach c0 (fire e c)"

lemma prompt_conn_reach: "prompt_reach c0 c \<Longrightarrow> conn_reach c0 c"
  by (induction rule: prompt_reach.induct) (auto intro: conn_reach.intros)






text \<open>What a write that is under way can still send.\<close>

definition in_flight :: "conn \<Rightarrow> bytes" where
  "in_flight c = (case write_pending c of Some (True, d) \<Rightarrow> d | _ \<Rightarrow> [])"

definition closing_step :: "conn \<Rightarrow> conn \<Rightarrow> bool" where
  "closing_step c c' \<longleftrightarrow>
     (closed c \<longrightarrow> closed c' \<and> prefix (outbox c' @ in_flight c') (outbox c @ in_flight c))"

lemma closing_step_other:
  assumes "calls_step c c'" and "outbox c' = outbox c" and "write_pending c' = write_pending c"
  shows "closing_step c c'"
  using assms by (simp add: closing_step_def calls_step_def in_flight_def)

lemma closed_enqueue [simp]:
  "closed r \<Longrightarrow> write_pending (enqueue_write f r) = write_pending r"
  "closed r \<Longrightarrow> outbox (enqueue_write f (r :: conn)) = outbox r"
  by (simp_all add: enqueue_write_def)

lemma closed_handle_close [simp]: "closed r \<Longrightarrow> handle_close r = r"
  by (simp add: handle_close_def)

lemma closing_step_written:
  assumes inv: "session_inv c" and w: "write_pending c = Some (b, d)" and cl: "closed c"
    and e: "prefix e (in_flight c)"
  shows "prefix (outbox (on_written ec (c\<lparr>outbox := outbox c @ e\<rparr>))
      @ in_flight (on_written ec (c\<lparr>outbox := outbox c @ e\<rparr>))) (outbox c @ in_flight c)"
proof -
  let ?c = "on_written ec (c\<lparr>outbox := outbox c @ e\<rparr>)"
  obtain f fs where q: "write_queue c = f # fs"
    using inv w by (auto simp: session_inv_defs)
  have "\<not> socket_open c" using inv cl by (simp add: session_inv_defs)
  then have "outbox ?c = outbox c @ e" "in_flight ?c = []"
    using q cl by (auto simp: on_written_def do_write_def handle_close_def in_flight_def Let_def split: list.split)
  then show ?thesis using e by simp
qed

lemma closing_step_attempt:
  assumes inv: "session_inv c"
  shows "closing_step c (attempt e c)"
proof (cases "enabled e c \<and> closed c")
  case False
  then show ?thesis by (auto simp: attempt_def closing_step_def)
next
  case True
  have calls: "calls_step c (fire e c)" by (rule calls_step_fire)
  show ?thesis
  proof (cases "\<exists>b d. write_pending c = Some (b, d) \<and> (e = Written \<or> (\<exists>n. e = WriteFailed n))")
    case written: True
    then obtain b d where w: "write_pending c = Some (b, d)" by blast
    have "prefix (take n d) (in_flight c)" if "b \<or> n = 0" for n
      using that w by (cases b) (auto simp: in_flight_def take_is_prefix)
    then have "prefix (outbox (fire e c) @ in_flight (fire e c)) (outbox c @ in_flight c)"
      using written True w closing_step_written [OF inv w, of "take _ d"]
        closing_step_written [OF inv w, of d] by (auto simp: in_flight_def)
    then show ?thesis
      using True calls by (simp add: closing_step_def attempt_def calls_step_def)
  next
    case other: False
    have pool: "pool_ok (pool c)" using inv by (simp add: session_inv_defs)
    have "outbox (fire e c) = outbox c \<and> write_pending (fire e c) = write_pending c"
    proof (cases e)
      case RunTask
      then obtain t ts where "strand c = t # ts" using True by (cases "strand c") auto
      with RunTask True show ?thesis by (cases t) simp_all
    next
      case HeartbeatFired
      then show ?thesis
        using True by (simp add: on_heartbeat_def send_keepalive_def build_keepalive_frame_eq [OF pool]
            start_heartbeat_def Let_def)
    qed (use True other pool in \<open>auto simp: send_eq enqueue_raw_frame_def close_def on_heartbeat_def
          on_header_read_def on_body_read_def do_read_header_def do_read_body_def Let_def
          split: sum.split option.split prod.split\<close>)
    then show ?thesis
      using True closing_step_other [OF calls] by (simp add: attempt_def)
  qed
qed

text \<open>
  C21: Closing is not graceful: from the moment a session is closed, nothing reaches the network any
  more but the rest of the one write that was under way; frames that wait in the queue, and
  everything sent later, are discarded.
\<close>

theorem close_discards_queue:
  assumes "conn_reach (started i t stream) c" and "closed c"
  shows "closed (fold attempt es c) \<and> prefix (outbox (fold attempt es c)) (outbox c @ in_flight c)"
proof -
  have inv: "session_inv c \<and> wire_inv c \<and> read_inv stream c" by (rule reach_invs [OF assms(1)])
  have "closing_step c (fold attempt es c)"
  proof (rule cn.run_rel [OF _ _ _ inv])
    show "closing_step s s" for s by (simp add: closing_step_def)
    show "closing_step a b \<Longrightarrow> closing_step b d \<Longrightarrow> closing_step a d" for a b d
      by (auto simp: closing_step_def intro: prefix_order.trans)
    show "session_inv s \<and> wire_inv s \<and> read_inv stream s \<Longrightarrow> closing_step s (attempt e s)" for s e
      by (simp add: closing_step_attempt)
  qed
  then show ?thesis
    using assms(2) by (auto simp: closing_step_def intro: append_prefixD)
qed

theorem close_discards_queue_witness:
  "prefix (outbox (fold attempt [Written, WriteFailed 0]
       (fold attempt [Send [1], Send [2], RunTask, RunTask, Close, RunTask] (started 7 100 [])))) (frame_of [1])"
proof -
  let ?c = "fold attempt [Send [1], Send [2], RunTask, RunTask, Close, RunTask] (started 7 100 [])"
  have "closed ?c" "outbox ?c = []" "in_flight ?c = frame_of [1]"
    by (simp_all add: run_simps in_flight_def)
  moreover have "conn_reach (started 7 100 []) ?c" by (rule reach_attempts [OF conn_reach.here])
  ultimately show ?thesis
    using close_discards_queue [of 7 100 "[]" ?c "[Written, WriteFailed 0]"] by (simp del: fold_simps)
qed

end
