(* ===== verification/Net_Server.thy ===== *)
theory Net_Server
  imports Net_Session
begin

text \<open>
  The transport server (\<^verbatim>\<open>Server.h\<close>, \<^verbatim>\<open>Server.cpp\<close>, \<^verbatim>\<open>Packet.h\<close>): \<^verbatim>\<open>Server::Impl\<close> with the accept
  loop, the session table, the queue of packets for the game thread, and the functions the game
  thread calls.

  A \<^verbatim>\<open>std::shared_ptr<Session>\<close> is an index into \<open>heap\<close>, the list of all session objects that were
  started; an object stays there after its entry in the table is erased, as its pending handlers
  keep it alive.  \<open>server_strand\<close> is the list of functions posted to the server strand and not yet
  run.  The lock-free packet queue is Boost's: \<open>push_ok n\<close> says whether it takes one more packet
  when it holds \<open>n\<close>.  The fields \<open>issued\<close>, \<open>lost\<close> and \<open>polled\<close> are history variables no operation
  reads: how many session ids were given out, how many packets the full queue refused, and the
  packets the game thread has taken.
\<close>

section \<open>Packet.h\<close>

datatype PacketType = Connect | Disconnect | Data

record Packet =
  packet_type :: PacketType
  packet_session_id :: u32
  packet_data :: bytes

section \<open>Server::Impl\<close>

datatype server_task =
    SendFrame u32 Buffer
  | BroadcastFrame Buffer
  | DisconnectSession u32
  | EraseSession u32
  | CloseAll

record server_env =
  push_ok :: "nat \<Rightarrow> bool"
  hardware_concurrency :: nat
  table_order :: "u32 list \<Rightarrow> u32 list"

record Impl =
  next_id :: u32
  session_table :: "(u32, nat) umap"
  packet_queue :: "Packet list"
  dropped_packets :: u64
  shutting_down :: bool
  io_threads :: nat
  acceptor_open :: bool
  accept_pending :: bool
  server_strand :: "server_task list"
  heap :: "conn list"
  server_pool :: "Buffer list"
  shutdown_done :: bool
  io_stopped :: bool
  server_fault :: bool
  issued :: nat
  lost :: nat
  polled :: "Packet list"

text \<open>The constructor of \<^verbatim>\<open>Impl\<close>.\<close>

definition Impl_init :: Impl where
  "Impl_init =
     \<lparr>next_id = 1, session_table = [], packet_queue = [], dropped_packets = 0, shutting_down = False,
      io_threads = 0, acceptor_open = False, accept_pending = False, server_strand = [], heap = [], server_pool = [],
      shutdown_done = False, io_stopped = False, server_fault = False,
      issued = 0, lost = 0, polled = []\<rparr>"

text \<open>
  What the operating system answers when the acceptor is opened, configured, bound to a port and
  set to listen: nothing, or the message of an error code.
\<close>

record listen_results =
  open_ec :: "string option"
  option_ec :: "string option"
  bind_ec :: "u16 \<Rightarrow> string option"
  listen_ec :: "string option"

definition text_open_failed :: string where
  "text_open_failed = map char_of [0x5B, 0xEC, 0x97, 0x90, 0xEB, 0x9F, 0xAC, 0x5D, 0x20, 0xEC, 0x86, 0x8C, 0xEC, 0xBC, 0x93,
     0x20, 0xEC, 0x97, 0xB4, 0xEA, 0xB8, 0xB0, 0x20, 0xEC, 0x8B, 0xA4, 0xED, 0x8C, 0xA8,
     0x3A, 0x20 :: nat]"

definition text_option_failed :: string where
  "text_option_failed = map char_of [0x5B, 0xEC, 0x97, 0x90, 0xEB, 0x9F, 0xAC, 0x5D, 0x20, 0xEC, 0x98, 0xB5, 0xEC, 0x85, 0x98,
     0x20, 0xEC, 0x84, 0xA4, 0xEC, 0xA0, 0x95, 0x20, 0xEC, 0x8B, 0xA4, 0xED, 0x8C, 0xA8,
     0x3A, 0x20 :: nat]"

definition text_bind_failed :: string where
  "text_bind_failed = map char_of [0x5B, 0xEC, 0x97, 0x90, 0xEB, 0x9F, 0xAC, 0x5D, 0x20, 0xEB, 0xB0, 0x94, 0xEC, 0x9D, 0xB8,
     0xEB, 0x93, 0x9C, 0x20, 0xEC, 0x8B, 0xA4, 0xED, 0x8C, 0xA8, 0x3A, 0x20 :: nat]"

definition text_listen_failed :: string where
  "text_listen_failed = map char_of [0x5B, 0xEC, 0x97, 0x90, 0xEB, 0x9F, 0xAC, 0x5D, 0x20, 0xEB, 0xA6, 0xAC, 0xEC, 0x8A, 0xA8,
     0x20, 0xEC, 0x8B, 0xA4, 0xED, 0x8C, 0xA8, 0x3A, 0x20 :: nat]"

definition listen :: "u16 \<Rightarrow> listen_results \<Rightarrow> Impl \<Rightarrow> string + Impl" where
  "listen port os s =
     (case open_ec os of Some m \<Rightarrow> Inl (text_open_failed @ m)
      | None \<Rightarrow>
          (case option_ec os of Some m \<Rightarrow> Inl (text_option_failed @ m)
           | None \<Rightarrow>
               (case bind_ec os port of Some m \<Rightarrow> Inl (text_bind_failed @ m)
                | None \<Rightarrow>
                    (case listen_ec os of Some m \<Rightarrow> Inl (text_listen_failed @ m)
                     | None \<Rightarrow> Inr (s\<lparr>acceptor_open := True\<rparr>)))))"

text \<open>
  The I/O threads load \<^verbatim>\<open>shutting_down\<close> and act on it later, without a lock; the game thread can set
  it in between.  A handler is one step of the model, at the time of its last effect.  It is given
  the number \<open>early\<close> of its loads that came before the flag was set: load number \<open>i\<close> of the handler
  does not see the flag when \<open>i < early\<close>.
\<close>

definition load_flag :: "nat \<Rightarrow> nat \<Rightarrow> Impl \<Rightarrow> bool" where
  "load_flag early i s \<longleftrightarrow> shutting_down s \<and> early \<le> i"

text \<open>\<open>down\<close> is what the load of the flag gives.\<close>

definition push_packet :: "server_env \<Rightarrow> bool \<Rightarrow> Packet \<Rightarrow> Impl \<Rightarrow> bool \<times> Impl" where
  "push_packet E down pkt s =
     (if down then (False, s)
      else if push_ok E (length (packet_queue s)) then (True, s\<lparr>packet_queue := packet_queue s @ [pkt]\<rparr>)
      else (False, s\<lparr>dropped_packets := dropped_packets s + 1, lost := Suc (lost s)\<rparr>))"

text \<open>The two callbacks a session is made with.\<close>

fun on_callback :: "server_env \<Rightarrow> nat \<Rightarrow> callback \<Rightarrow> Impl \<Rightarrow> Impl" where
  "on_callback E early (OnReceive sid d) s =
     snd (push_packet E (load_flag early 0 s)
       \<lparr>packet_type = Data, packet_session_id = sid, packet_data = d\<rparr> s)"
| "on_callback E early (OnClose sid) s =
     (let s1 = snd (push_packet E (load_flag early 0 s)
            \<lparr>packet_type = Disconnect, packet_session_id = sid, packet_data = []\<rparr> s)
      in s1\<lparr>server_strand := server_strand s1 @ [EraseSession sid]\<rparr>)"

definition do_accept :: "Impl \<Rightarrow> Impl" where
  "do_accept s = s\<lparr>accept_pending := True\<rparr>"

text \<open>
  The completion handler of \<^verbatim>\<open>do_accept\<close>, at time \<open>t\<close>; \<open>stream\<close> is what the new peer will send.
  The session object is made before the packet is pushed and is started only if that succeeds.
\<close>

definition on_accept :: "server_env \<Rightarrow> nat \<Rightarrow> bool \<Rightarrow> int \<Rightarrow> bytes \<Rightarrow> Impl \<Rightarrow> Impl" where
  "on_accept E early ec t stream s0 =
     (let s = s0\<lparr>accept_pending := False\<rparr>;
          s1 =
            (if \<not> ec \<and> \<not> load_flag early 0 s then
               let sid = next_id s;
                   (ok, s2) = push_packet E (load_flag early 1 s)
                     \<lparr>packet_type = Connect, packet_session_id = sid, packet_data = []\<rparr>
                     (s\<lparr>next_id := next_id s + 1, issued := Suc (issued s)\<rparr>)
               in if ok then
                    s2\<lparr>session_table :=
                         um_emplace (table_order E) sid (length (heap s2)) (session_table s2),
                       heap := heap s2 @ [started sid t stream]\<rparr>
                  else s2
             else s)
      in if \<not> load_flag early 2 s1 then do_accept s1 else s1)"

text \<open>A call of \<^verbatim>\<open>enqueue_raw_frame\<close> or \<^verbatim>\<open>close\<close> through a session pointer.\<close>

definition hand_over :: "Buffer \<Rightarrow> conn \<Rightarrow> conn" where
  "hand_over frame c =
     (enqueue_raw_frame frame c)\<lparr>sent := sent c @ [drop HEADER_SIZE (buf_data frame)]\<rparr>"

definition on_session :: "nat \<Rightarrow> (conn \<Rightarrow> conn) \<Rightarrow> Impl \<Rightarrow> Impl" where
  "on_session a f s = s\<lparr>heap := (heap s)[a := f (heap s ! a)]\<rparr>"

definition release_frame :: "Buffer \<Rightarrow> Impl \<Rightarrow> Impl" where
  "release_frame frame s = s\<lparr>server_pool := release max_size_per_thread frame (server_pool s)\<rparr>"

text \<open>One round of the loop of \<^verbatim>\<open>broadcast\<close>.\<close>

definition broadcast_one :: "bytes \<Rightarrow> nat \<Rightarrow> Impl \<Rightarrow> Impl" where
  "broadcast_one template a s =
     (case clone_frame (server_pool s) template of
        None \<Rightarrow> s\<lparr>server_fault := True\<rparr>
      | Some (frame, pool') \<Rightarrow> on_session a (hand_over frame) (s\<lparr>server_pool := pool'\<rparr>))"

text \<open>
  What the functions posted to the server strand do.  What such a function does after its load of
  the flag has nothing to do with what the game thread does when it sets the flag, so a function
  that the flag overtakes counts as run before the flag was set.
\<close>

fun run_server_task :: "server_task \<Rightarrow> Impl \<Rightarrow> Impl" where
  "run_server_task (SendFrame sid frame) s =
     (if shutting_down s then release_frame frame s
      else case um_find (session_table s) sid of
          Some a \<Rightarrow> on_session a (hand_over frame) s
        | None \<Rightarrow> release_frame frame s)"
| "run_server_task (BroadcastFrame template) s =
     (if shutting_down s then release_frame template s
      else release_frame template
             (fold (\<lambda>(_, a). broadcast_one (buf_data template) a) (session_table s) s))"
| "run_server_task (DisconnectSession sid) s =
     (if shutting_down s then s
      else case um_find (session_table s) sid of
          Some a \<Rightarrow> on_session a close s
        | None \<Rightarrow> s)"
| "run_server_task (EraseSession sid) s = s\<lparr>session_table := um_erase sid (session_table s)\<rparr>"
| "run_server_task CloseAll s =
     (fold (\<lambda>(_, a). on_session a close) (session_table s) (s\<lparr>acceptor_open := False\<rparr>))
       \<lparr>shutdown_done := True\<rparr>"

section \<open>Server\<close>

definition poll_packet :: "Impl \<Rightarrow> Packet option \<times> Impl" where
  "poll_packet s =
     (case packet_queue s of
        [] \<Rightarrow> (None, s)
      | pkt # rest \<Rightarrow> (Some pkt, s\<lparr>packet_queue := rest, polled := polled s @ [pkt]\<rparr>))"

definition dropped_packet_count :: "Impl \<Rightarrow> u64" where
  "dropped_packet_count s = dropped_packets s"

definition Server_send :: "u32 \<Rightarrow> bytes \<Rightarrow> Impl \<Rightarrow> Impl" where
  "Server_send sid data s =
     (if data = [] \<or> MAX_PAYLOAD_SIZE < length data then s
      else if shutting_down s then s
      else case build_data_frame (server_pool s) data of
          None \<Rightarrow> s\<lparr>server_fault := True\<rparr>
        | Some (frame, pool') \<Rightarrow>
            let s1 = s\<lparr>server_pool := pool'\<rparr>
            in if buf_data frame = [] then s1
               else s1\<lparr>server_strand := server_strand s1 @ [SendFrame sid frame]\<rparr>)"

definition broadcast :: "bytes \<Rightarrow> Impl \<Rightarrow> Impl" where
  "broadcast data s =
     (if data = [] \<or> MAX_PAYLOAD_SIZE < length data then s
      else if shutting_down s then s
      else case build_data_frame (server_pool s) data of
          None \<Rightarrow> s\<lparr>server_fault := True\<rparr>
        | Some (frame, pool') \<Rightarrow>
            let s1 = s\<lparr>server_pool := pool'\<rparr>
            in if buf_data frame = [] then s1
               else s1\<lparr>server_strand := server_strand s1 @ [BroadcastFrame frame]\<rparr>)"

definition disconnect :: "u32 \<Rightarrow> Impl \<Rightarrow> Impl" where
  "disconnect sid s =
     (if shutting_down s then s
      else s\<lparr>server_strand := server_strand s @ [DisconnectSession sid]\<rparr>)"

text \<open>
  \<^verbatim>\<open>shutdown\<close> in two parts: up to the wait for the posted function, and after it, when the I/O
  context is stopped and the threads have ended.  A server without threads, one that failed to
  listen, does both at once.
\<close>

definition shutdown_end :: "Impl \<Rightarrow> Impl" where
  "shutdown_end s = s\<lparr>io_stopped := True\<rparr>"

definition shutdown_begin :: "Impl \<Rightarrow> Impl" where
  "shutdown_begin s =
     (if shutting_down s then s
      else
        let s1 = s\<lparr>shutting_down := True\<rparr>
        in if \<not> io_stopped s1 \<and> 0 < io_threads s1
           then s1\<lparr>server_strand := server_strand s1 @ [CloseAll]\<rparr>
           else shutdown_end (s1\<lparr>acceptor_open := False\<rparr>))"

text \<open>The destructor of \<^verbatim>\<open>Impl\<close>, for a server whose threads have ended or never ran.\<close>

definition Impl_destructor_S :: "Impl \<Rightarrow> Impl" where
  "Impl_destructor_S s = (shutdown_begin s)\<lparr>packet_queue := []\<rparr>"

section \<open>Runs of the server\<close>

text \<open>
  What can happen next: an accept completes, a handler of a session runs, a posted function runs,
  the game thread calls.  A session event of the caller's kind (\<open>Send\<close>, \<open>SendRaw\<close>, \<open>Close\<close>) is not
  among them: those calls come from the server's own code.  The last argument of the first two is
  the number of loads of the flag the handler made before the flag was set.  The accept handler
  and the function that closes the acceptor run on the same strand, so none of its loads is early
  any more once that function has run.
\<close>

datatype server_event =
    AcceptDone bool int bytes nat
  | SessionStep nat conn_event nat
  | RunServerTask
  | ApiSend u32 bytes
  | ApiBroadcast bytes
  | ApiDisconnect u32
  | ApiPoll
  | ShutdownBegin
  | ShutdownEnd
  | ServerThread "Buffer list"

fun handler_event :: "conn_event \<Rightarrow> bool" where
  "handler_event (Send _) = False"
| "handler_event (SendRaw _) = False"
| "handler_event Close = False"
| "handler_event _ = True"

definition session_step :: "server_env \<Rightarrow> nat \<Rightarrow> nat \<Rightarrow> conn_event \<Rightarrow> Impl \<Rightarrow> Impl" where
  "session_step E early a e s =
     (let c = heap s ! a; c' = fire e c
      in fold (on_callback E early) (drop (length (calls c)) (calls c')) (s\<lparr>heap := (heap s)[a := c']\<rparr>))"

fun server_enabled :: "server_event \<Rightarrow> Impl \<Rightarrow> bool" where
  "server_enabled (AcceptDone ec t stream early) s =
     (\<not> io_stopped s \<and> accept_pending s \<and> (acceptor_open s \<or> early = 0))"
| "server_enabled (SessionStep a e early) s =
     (\<not> io_stopped s \<and> a < length (heap s) \<and> handler_event e \<and> enabled e (heap s ! a))"
| "server_enabled RunServerTask s = (\<not> io_stopped s \<and> server_strand s \<noteq> [])"
| "server_enabled ShutdownEnd s = shutdown_done s"
| "server_enabled (ServerThread p) s = pool_ok p"
| "server_enabled _ s = True"

fun server_fire :: "server_env \<Rightarrow> server_event \<Rightarrow> Impl \<Rightarrow> Impl" where
  "server_fire E (AcceptDone ec t stream early) s = on_accept E early ec t stream s"
| "server_fire E (SessionStep a e early) s = session_step E early a e s"
| "server_fire E RunServerTask s =
     (case server_strand s of [] \<Rightarrow> s | t # ts \<Rightarrow> run_server_task t (s\<lparr>server_strand := ts\<rparr>))"
| "server_fire E (ApiSend sid data) s = Server_send sid data s"
| "server_fire E (ApiBroadcast data) s = broadcast data s"
| "server_fire E (ApiDisconnect sid) s = disconnect sid s"
| "server_fire E ApiPoll s = snd (poll_packet s)"
| "server_fire E ShutdownBegin s = shutdown_begin s"
| "server_fire E ShutdownEnd s = shutdown_end s"
| "server_fire E (ServerThread p) s = s\<lparr>server_pool := p\<rparr>"

definition server_attempt :: "server_env \<Rightarrow> server_event \<Rightarrow> Impl \<Rightarrow> Impl" where
  "server_attempt E e s = (if server_enabled e s then server_fire E e s else s)"

text \<open>The server as \<^verbatim>\<open>Server::create\<close> returns it, and a run of it.\<close>

definition start_threads :: "server_env \<Rightarrow> Impl \<Rightarrow> Impl" where
  "start_threads E s = s\<lparr>io_threads := max 1 (hardware_concurrency E)\<rparr>"

definition create :: "server_env \<Rightarrow> u16 \<Rightarrow> listen_results \<Rightarrow> string + Impl" where
  "create E port os =
     (case listen port os Impl_init of
        Inl e \<Rightarrow> Inl e
      | Inr s \<Rightarrow> Inr (start_threads E (do_accept s)))"

definition server_start :: "server_env \<Rightarrow> Impl" where
  "server_start E = start_threads E (do_accept (Impl_init\<lparr>acceptor_open := True\<rparr>))"

definition server_run :: "server_env \<Rightarrow> server_event list \<Rightarrow> Impl" where
  "server_run E es = fold (server_attempt E) es (server_start E)"

section \<open>Invariant\<close>

definition conn_ok :: "conn \<Rightarrow> bool" where
  "conn_ok c \<longleftrightarrow>
     session_inv c \<and> wire_inv c \<and> (\<exists>stream. read_inv stream c)
     \<and> (\<forall>cb \<in> set (calls c). callback_id cb = id_S c)"

fun server_task_ok :: "server_task \<Rightarrow> bool" where
  "server_task_ok (SendFrame _ f) = task_ok (EnqueueWrite f)"
| "server_task_ok (BroadcastFrame f) = task_ok (EnqueueWrite f)"
| "server_task_ok _ = True"

text \<open>
  Memory and pointers: every session object is in order, every entry of the table points to the
  session object with its id.
\<close>

definition server_inv :: "Impl \<Rightarrow> bool" where
  "server_inv s \<longleftrightarrow>
     \<not> server_fault s \<and> pool_ok (server_pool s)
     \<and> (\<forall>c \<in> set (heap s). conn_ok c)
     \<and> (\<forall>t \<in> set (server_strand s). server_task_ok t)
     \<and> um_distinct (session_table s)
     \<and> (\<forall>sid a. um_find (session_table s) sid = Some a \<longrightarrow>
          a < length (heap s) \<and> id_S (heap s ! a) = sid)"

lemma create_succeeds_iff:
  "create E port os = Inr s \<longleftrightarrow>
     open_ec os = None \<and> option_ec os = None \<and> bind_ec os port = None \<and> listen_ec os = None
     \<and> s = server_start E"
  by (auto simp: create_def listen_def server_start_def split: option.splits sum.splits)

text \<open>A server that could not listen is destroyed at once; nothing is left to wait for.\<close>

lemma destroyed_unstarted:
  "shutting_down (Impl_destructor_S Impl_init) \<and> io_stopped (Impl_destructor_S Impl_init)
   \<and> \<not> acceptor_open (Impl_destructor_S Impl_init) \<and> server_strand (Impl_destructor_S Impl_init) = []"
  by (simp add: Impl_destructor_S_def shutdown_begin_def shutdown_end_def Impl_init_def)

lemma conn_ok_started [simp]: "conn_ok (started i t stream)"
proof -
  have "calls (started i t stream) = []"
    by (simp add: started_def start_def handler_defs Session.extend_def SessionRun.extend_def)
  then show ?thesis using started_invs by (auto simp: conn_ok_def)
qed

lemma id_started [simp]: "id_S (started i t stream) = i" "\<not> closed (started i t stream)"
    "calls (started i t stream) = []"
  by (simp_all add: started_def start_def handler_defs Session.extend_def SessionRun.extend_def
      Session_init_def)

lemma conn_ok_fire:
  assumes "conn_ok c" and "enabled e c"
  shows "conn_ok (fire e c)"
proof -
  have "\<forall>cb \<in> set (calls (fire e c)). callback_id cb = id_S (fire e c)"
    using calls_step_fire [of c e] assms(1) by (auto simp: calls_step_def conn_ok_def)
  then show ?thesis
    using assms session_inv_fire wire_inv_fire read_inv_fire unfolding conn_ok_def by blast
qed

lemma hand_over_fire:
  assumes "task_ok (EnqueueWrite f)"
  shows "hand_over f c = fire (SendRaw (drop HEADER_SIZE (buf_data f))) c"
    and "enabled (SendRaw (drop HEADER_SIZE (buf_data f))) c"
  using assms by (cases f, auto simp: hand_over_def)+

lemma conn_ok_hand_over [simp]: "conn_ok c \<Longrightarrow> task_ok (EnqueueWrite f) \<Longrightarrow> conn_ok (hand_over f c)"
  using conn_ok_fire hand_over_fire by metis

lemma conn_ok_close [simp]: "conn_ok c \<Longrightarrow> conn_ok (close c)"
  using conn_ok_fire [of c Close] by simp

text \<open>The calls through a pointer leave id, callbacks and state of the session alone.\<close>

lemma quiet_calls [simp]:
  "id_S (hand_over f c) = id_S c" "calls (hand_over f c) = calls c" "closed (hand_over f c) = closed c"
  "id_S (close c) = id_S c" "calls (close c) = calls c" "closed (close c) = closed c"
  by (simp_all add: hand_over_def enqueue_raw_frame_def close_def)

lemma server_inv_on_session:
  assumes "server_inv s" and "a < length (heap s)"
    and "conn_ok (f (heap s ! a))" and "id_S (f (heap s ! a)) = id_S (heap s ! a)"
  shows "server_inv (on_session a f s)"
  using assms by (auto simp: server_inv_def on_session_def nth_list_update dest: set_update_subset_insert [THEN subsetD])

lemma server_inv_release [simp]: "server_inv s \<Longrightarrow> server_inv (release_frame f s)"
  by (simp add: server_inv_def release_frame_def)

lemma server_inv_push:
  "server_inv (snd (push_packet E down pkt s)) = server_inv s"
  by (simp add: server_inv_def push_packet_def)

lemma server_inv_callback [simp]: "server_inv s \<Longrightarrow> server_inv (on_callback E early cb s)"
proof (cases cb)
  case (OnClose sid)
  assume "server_inv s"
  then have "server_inv (snd (push_packet E (load_flag early 0 s) \<lparr>packet_type = Disconnect, packet_session_id = sid, packet_data = []\<rparr> s))"
    by (simp add: server_inv_push)
  then show ?thesis
    unfolding OnClose on_callback.simps Let_def by (simp add: server_inv_def)
qed (simp add: server_inv_push)

lemma server_inv_callbacks: "server_inv s \<Longrightarrow> server_inv (fold (on_callback E early) cbs s)"
  by (induction cbs arbitrary: s) simp_all

lemma server_inv_broadcast_one:
  assumes inv: "server_inv s" and a: "a < length (heap s)"
    and t: "sendable_payload p" "template = frame_of p"
  shows "server_inv (broadcast_one template a s) \<and> length (heap (broadcast_one template a s)) = length (heap s)"
proof -
  let ?f = "\<lparr>buf_data = template, buf_capacity = BLOCK_SIZE\<rparr>"
  have "pool_ok (server_pool s)" using inv by (simp add: server_inv_def)
  then have "clone_frame (server_pool s) template = Some (?f, butlast (server_pool s))"
    using t by (intro clone_frame_eq) (auto simp: sendable_payload_def BLOCK_SIZE_def HEADER_SIZE_def)
  moreover have "conn_ok (hand_over ?f (heap s ! a))"
    using inv a t by (intro conn_ok_hand_over) (auto simp: server_inv_def)
  then have "server_inv (on_session a (hand_over ?f) (s\<lparr>server_pool := butlast (server_pool s)\<rparr>))"
    using inv a by (intro server_inv_on_session) (auto simp: server_inv_def)
  ultimately show ?thesis
    by (simp add: broadcast_one_def) (simp add: on_session_def)
qed

lemma server_inv_fold:
  assumes "server_inv s"
    and "\<And>s' a. server_inv s' \<Longrightarrow> a < length (heap s') \<Longrightarrow> server_inv (f a s') \<and> length (heap (f a s')) = length (heap s')"
    and "\<forall>(k, a) \<in> set tab. a < length (heap s)"
  shows "server_inv (fold (\<lambda>(_, a). f a) tab s)"
  using assms(1,3)
proof (induction tab arbitrary: s)
  case (Cons x tab)
  then show ?case using assms(2) [of s "snd x"] by (auto split: prod.splits)
qed simp

lemma table_entries:
  assumes "server_inv s"
  shows "\<forall>(k, a) \<in> set (session_table s). a < length (heap s)"
  using assms um_find_in_set by (fastforce simp: server_inv_def)

lemma server_inv_task:
  assumes inv: "server_inv s" and t: "server_task_ok t"
  shows "server_inv (run_server_task t s)"
proof (cases t)
  case (SendFrame sid f)
  then show ?thesis
    using inv t
    by (auto split: option.split intro!: server_inv_on_session simp del: task_ok.simps)
       (auto simp: server_inv_def)
next
  case (BroadcastFrame f)
  then obtain p where "sendable_payload p" "buf_data f = frame_of p" using t by auto
  then have "server_inv (fold (\<lambda>(_, a). broadcast_one (buf_data f) a) (session_table s) s)"
    using inv by (intro server_inv_fold server_inv_broadcast_one table_entries)
  then show ?thesis using inv BroadcastFrame by simp
next
  case (DisconnectSession sid)
  then show ?thesis
    using inv by (auto split: option.split intro!: server_inv_on_session) (auto simp: server_inv_def)
next
  case (EraseSession sid)
  then show ?thesis using inv by (auto simp: server_inv_def um_finds split: if_splits)
next
  case CloseAll
  have "server_inv (s\<lparr>acceptor_open := False\<rparr>)" using inv by (simp add: server_inv_def)
  then have "server_inv (fold (\<lambda>(_, a). on_session a close) (session_table s) (s\<lparr>acceptor_open := False\<rparr>))"
    using inv
    by (intro server_inv_fold conjI server_inv_on_session)
       (auto simp: on_session_def server_inv_def dest: table_entries [OF inv, THEN bspec])
  then show ?thesis
    using CloseAll by (simp add: server_inv_def)
qed

lemma server_inv_accept:
  assumes "server_inv s"
  shows "server_inv (on_accept E early ec t stream s)"
  using assms
  by (auto simp: server_inv_def on_accept_def push_packet_def do_accept_def Let_def um_finds nth_append
      less_Suc_eq split: if_splits)

lemma server_inv_session_step:
  assumes "server_inv s" and "a < length (heap s)" and "enabled e (heap s ! a)"
  shows "server_inv (session_step E early a e s)"
proof -
  have "id_S (fire e (heap s ! a)) = id_S (heap s ! a)"
    using calls_step_fire by (simp add: calls_step_def)
  then have "server_inv (on_session a (fire e) s)"
    using assms by (intro server_inv_on_session conn_ok_fire) (auto simp: server_inv_def)
  then show ?thesis
    by (simp add: session_step_def Let_def on_session_def server_inv_callbacks)
qed

lemma server_inv_api:
  assumes "server_inv s"
  shows "server_inv (Server_send sid data s)" and "server_inv (broadcast data s)"
    and "server_inv (disconnect sid s)"
proof -
  have "pool_ok (server_pool s)" using assms by (simp add: server_inv_def)
  note frame = build_data_frame_eq [OF this, of data]
  show "server_inv (Server_send sid data s)" "server_inv (broadcast data s)"
    using frame assms
    by (auto simp: server_inv_def Server_send_def broadcast_def sendable_payload_def Let_def)
  show "server_inv (disconnect sid s)"
    using assms by (auto simp: server_inv_def disconnect_def)
qed

lemma server_inv_fire:
  assumes inv: "server_inv s" and en: "server_enabled e s"
  shows "server_inv (server_fire E e s)"
proof (cases e)
  case RunServerTask
  then obtain t ts where "server_strand s = t # ts" using en by (cases "server_strand s") auto
  moreover from this inv have "server_inv (s\<lparr>server_strand := ts\<rparr>)" "server_task_ok t"
    by (auto simp: server_inv_def)
  ultimately show ?thesis using RunServerTask server_inv_task by simp
qed (use inv en in \<open>auto simp: server_inv_accept server_inv_session_step server_inv_api\<close>,
     auto simp: server_inv_def poll_packet_def shutdown_begin_def shutdown_end_def Let_def split: list.split)

section \<open>Bookkeeping\<close>

text \<open>
  The part of the state that says who is connected and what the game thread is told: for each
  session object its id, its callbacks and whether it is closed; the ids; the table; the packets
  pushed so far; the entries still to be erased.
\<close>

definition ident :: "conn \<Rightarrow> u32 \<times> callback list \<times> bool" where
  "ident c = (id_S c, calls c, closed c)"

fun erases :: "server_task list \<Rightarrow> u32 list" where
  "erases [] = []"
| "erases (EraseSession sid # ts) = sid # erases ts"
| "erases (_ # ts) = erases ts"

definition pushed :: "Impl \<Rightarrow> Packet list" where
  "pushed s = polled s @ packet_queue s"

fun packet_of :: "callback \<Rightarrow> Packet" where
  "packet_of (OnReceive sid d) = \<lparr>packet_type = Data, packet_session_id = sid, packet_data = d\<rparr>"
| "packet_of (OnClose sid) = \<lparr>packet_type = Disconnect, packet_session_id = sid, packet_data = []\<rparr>"

definition connect_packet :: "u32 \<Rightarrow> Packet" where
  "connect_packet sid = \<lparr>packet_type = Connect, packet_session_id = sid, packet_data = []\<rparr>"

definition packets_of :: "u32 \<Rightarrow> Packet list \<Rightarrow> Packet list" where
  "packets_of sid log = filter (\<lambda>p. packet_session_id p = sid) log"

text \<open>
  While fewer than \<open>2 ^ 32 - 1\<close> ids were given out: ids are unique; a session has its entry in the
  table from its start until the entry is erased after it closed, and never again; its packets
  are its connection followed by those of its callbacks, all of them if none was lost.
\<close>

definition session_book ::
    "bool \<Rightarrow> (u32, nat) umap \<Rightarrow> Packet list \<Rightarrow> u32 list \<Rightarrow> nat \<Rightarrow> u32 \<times> callback list \<times> bool \<Rightarrow> bool" where
  "session_book complete tab log er a x \<longleftrightarrow>
     (case x of (i, cs, cl) \<Rightarrow>
        um_find tab i = (if \<not> cl \<or> i \<in> set er then Some a else None)
        \<and> (i \<in> set er \<longrightarrow> cl)
        \<and> (\<exists>tl. packets_of i log = connect_packet i # tl
             \<and> subseq tl (map packet_of cs) \<and> (complete \<longrightarrow> tl = map packet_of cs)))"

definition book_rel ::
    "bool \<Rightarrow> (u32 \<times> callback list \<times> bool) list \<Rightarrow> u32 \<Rightarrow> nat \<Rightarrow> (u32, nat) umap \<Rightarrow> Packet list
      \<Rightarrow> u32 list \<Rightarrow> bool" where
  "book_rel complete H nx n tab log er \<longleftrightarrow>
     unat nx = Suc n
     \<and> (\<forall>i \<in> fst ` set H. unat i \<le> n)
     \<and> distinct (map fst H)
     \<and> distinct er \<and> set er \<subseteq> fst ` set H
     \<and> packet_session_id ` set log \<subseteq> fst ` set H
     \<and> (\<forall>a < length H. session_book complete tab log er a (H ! a))"

definition book_inv :: "Impl \<Rightarrow> bool" where
  "book_inv s \<longleftrightarrow>
     (issued s < 2 ^ 32 - 1 \<longrightarrow>
        book_rel (lost s = 0 \<and> \<not> shutting_down s) (map ident (heap s)) (next_id s) (issued s)
          (session_table s) (pushed s) (erases (server_strand s)))"

text \<open>Steps that touch none of this.\<close>

definition quiet :: "Impl \<Rightarrow> Impl \<Rightarrow> bool" where
  "quiet s s' \<longleftrightarrow>
     map ident (heap s') = map ident (heap s) \<and> next_id s' = next_id s \<and> issued s' = issued s
     \<and> session_table s' = session_table s \<and> pushed s' = pushed s
     \<and> erases (server_strand s') = erases (server_strand s) \<and> lost s' = lost s
     \<and> (shutting_down s \<longrightarrow> shutting_down s')"

lemma session_book_weaken:
  "session_book c tab log er a x \<Longrightarrow> (c' \<longrightarrow> c) \<Longrightarrow> session_book c' tab log er a x"
  by (cases x) (auto simp: session_book_def)

lemma book_rel_weaken:
  "book_rel c H nx n tab log er \<Longrightarrow> (c' \<longrightarrow> c) \<Longrightarrow> book_rel c' H nx n tab log er"
  by (auto simp: book_rel_def intro: session_book_weaken)

lemma book_inv_quiet:
  assumes "book_inv s" and "quiet s s'"
  shows "book_inv s'"
  using assms by (auto simp: book_inv_def quiet_def elim!: book_rel_weaken)

lemma erases_append [simp]: "erases (ts @ us) = erases ts @ erases us"
  by (induction ts rule: erases.induct) simp_all

lemma packets_of_append [simp]: "packets_of i (log @ log') = packets_of i log @ packets_of i log'"
  by (simp add: packets_of_def)

lemma packets_of_other:
  "packet_session_id ` set log \<subseteq> {j} \<Longrightarrow> packets_of i log = (if i = j then log else [])"
  by (induction log) (auto simp: packets_of_def)

lemma book_erase:
  assumes rel: "book_rel c H nx n tab log (i # er)"
  shows "book_rel c H nx n (um_erase i tab) log er"
proof -
  have "session_book c (um_erase i tab) log er a (H ! a)" if a: "a < length H" for a
  proof -
    obtain j cs cl where x: "H ! a = (j, cs, cl)" by (cases "H ! a") auto
    have "session_book c tab log (i # er) a (j, cs, cl)" "i \<notin> set er"
      using rel a x by (auto simp: book_rel_def)
    then show ?thesis by (auto simp: session_book_def um_finds x)
  qed
  then show ?thesis using rel by (auto simp: book_rel_def)
qed

lemma unat_next: "unat (nx :: u32) = Suc n \<Longrightarrow> Suc n < 2 ^ 32 - 1 \<Longrightarrow> unat (nx + 1) = Suc (Suc n)"
  by (simp add: unat_word_ariths)

lemma book_refused:
  assumes rel: "book_rel c H nx n tab log er" and n: "Suc n < 2 ^ 32 - 1"
  shows "book_rel c H (nx + 1) (Suc n) tab log er"
  using rel n by (auto simp: book_rel_def unat_next)

lemma book_accept:
  assumes rel: "book_rel c H nx n tab log er" and n: "Suc n < 2 ^ 32 - 1"
    and free: "um_find tab nx = None"
  shows "book_rel c (H @ [(nx, [], False)]) (nx + 1) (Suc n) (um_emplace rh nx (length H) tab)
           (log @ [connect_packet nx]) er"
proof -
  let ?tab = "um_emplace rh nx (length H) tab" and ?log = "log @ [connect_packet nx]"
  have fresh: "nx \<notin> fst ` set H"
    using rel by (auto simp: book_rel_def)
  then have new: "nx \<notin> set er" "packets_of nx log = []"
    using rel by (auto simp: book_rel_def packets_of_def filter_empty_conv)
  have "session_book c ?tab ?log er a ((H @ [(nx, [], False)]) ! a)" if a: "a < Suc (length H)" for a
  proof (cases "a < length H")
    case True
    obtain j cs cl where x: "H ! a = (j, cs, cl)" by (cases "H ! a") auto
    then have "j \<noteq> nx" using fresh True by (metis fst_conv image_eqI nth_mem)
    moreover have "session_book c tab log er a (j, cs, cl)"
      using rel True x by (auto simp: book_rel_def)
    ultimately show ?thesis
      using True by (auto simp: session_book_def um_finds x nth_append packets_of_def connect_packet_def)
  next
    case False
    then have "a = length H" using a by simp
    then show ?thesis
      using new free by (simp add: session_book_def um_finds packets_of_def connect_packet_def)
  qed
  then show ?thesis
    using rel n fresh by (auto simp: book_rel_def unat_next connect_packet_def)
qed

lemma subseq_append_mono: "subseq a b \<Longrightarrow> subseq c d \<Longrightarrow> subseq (a @ c) (b @ d)"
  by (rule list_emb_append_mono)

lemma book_step:
  assumes rel: "book_rel c H nx n tab log er" and a: "a < length H" and x: "H ! a = (i, cs, cl)"
    and cl: "cl \<longrightarrow> cl'" and new: "\<forall>cb \<in> set new. callback_id cb = i"
    and ps: "subseq ps (map packet_of new)" and c': "c' \<longrightarrow> c \<and> ps = map packet_of new"
  shows "book_rel c' (H[a := (i, cs @ new, cl')]) nx n tab (log @ ps)
           (er @ (if cl' \<and> \<not> cl then [i] else []))"
proof -
  let ?H = "H[a := (i, cs @ new, cl')]" and ?er = "er @ (if cl' \<and> \<not> cl then [i] else [])"
  have ids: "map fst ?H = map fst H"
    using a x by (simp add: map_update list_update_same_conv)
  then have idset: "fst ` set ?H = fst ` set H" by (metis set_map)
  have dist: "distinct (map fst H)" using rel by (simp add: book_rel_def)
  have "packet_session_id (packet_of cb) = callback_id cb" for cb by (cases cb) simp_all
  moreover have "p \<in> packet_of ` set new" if "p \<in> set ps" for p
    using list_emb_set [OF ps that] by auto
  ultimately have psid: "packet_session_id ` set ps \<subseteq> {i}"
    using new by fastforce
  have i: "i \<in> fst ` set H" using a x by (metis fst_conv image_eqI nth_mem)
  have "session_book c' tab (log @ ps) ?er b (?H ! b)" if b: "b < length H" for b
  proof -
    obtain j ds dl where y: "H ! b = (j, ds, dl)" by (cases "H ! b") auto
    have "session_book c tab log er b (j, ds, dl)" using rel b y by (auto simp: book_rel_def)
    moreover have "j = i \<longleftrightarrow> b = a"
      using nth_eq_iff_index_eq [OF dist, of b a] a b x y by simp
    ultimately show ?thesis
      using a b x y cl c' ps packets_of_other [OF psid]
      by (auto simp: session_book_def nth_list_update intro: subseq_append_mono)
  qed
  moreover have "distinct ?er"
  proof -
    have "session_book c tab log er a (i, cs, cl)" using rel a x by (auto simp: book_rel_def)
    then show ?thesis using rel by (auto simp: book_rel_def session_book_def)
  qed
  ultimately show ?thesis
    using rel psid i unfolding book_rel_def ids idset by (auto simp: idset)
qed

text \<open>What a list of callbacks does.\<close>

definition callbacks_done :: "callback list \<Rightarrow> Impl \<Rightarrow> Impl \<Rightarrow> bool" where
  "callbacks_done cbs s s' \<longleftrightarrow>
     (\<exists>ps. pushed s' = pushed s @ ps \<and> subseq ps (map packet_of cbs)
        \<and> (lost s' = 0 \<and> \<not> shutting_down s' \<longrightarrow> lost s = 0 \<and> ps = map packet_of cbs))
     \<and> erases (server_strand s') = erases (server_strand s) @ map callback_id (filter is_OnClose cbs)
     \<and> heap s' = heap s \<and> next_id s' = next_id s \<and> issued s' = issued s
     \<and> session_table s' = session_table s \<and> shutting_down s' = shutting_down s"

lemma push_packet_pushed:
  "pushed (snd (push_packet E down p s)) = pushed s @ (if fst (push_packet E down p s) then [p] else [])"
  "lost (snd (push_packet E down p s)) = 0 \<and> \<not> down \<longrightarrow> lost s = 0 \<and> fst (push_packet E down p s)"
  by (simp_all add: push_packet_def pushed_def)

lemma push_packet_frame:
  "heap (snd (push_packet E down p s)) = heap s" "next_id (snd (push_packet E down p s)) = next_id s"
  "issued (snd (push_packet E down p s)) = issued s" "session_table (snd (push_packet E down p s)) = session_table s"
  "shutting_down (snd (push_packet E down p s)) = shutting_down s"
  "server_strand (snd (push_packet E down p s)) = server_strand s"
  by (simp_all add: push_packet_def)

lemma callbacks_done_one: "callbacks_done [cb] s (on_callback E early cb s)"
proof -
  let ?ps = "if fst (push_packet E (load_flag early 0 s) (packet_of cb) s) then [packet_of cb] else []"
  have s: "snd (push_packet E (load_flag early 0 s) (packet_of cb) s) =
      (on_callback E early cb s)\<lparr>server_strand := server_strand s\<rparr>"
    by (cases cb) (simp_all add: Let_def push_packet_def)
  have "pushed (on_callback E early cb s) = pushed s @ ?ps"
    using push_packet_pushed(1) [of E "load_flag early 0 s" "packet_of cb" s] unfolding s by (simp add: pushed_def)
  moreover have "lost (on_callback E early cb s) = 0 \<and> \<not> shutting_down s \<longrightarrow> lost s = 0 \<and> ?ps = [packet_of cb]"
    using push_packet_pushed(2) [of E "load_flag early 0 s" "packet_of cb" s] unfolding s by (auto simp: load_flag_def)
  moreover have "shutting_down (on_callback E early cb s) = shutting_down s"
    using push_packet_frame [of E "load_flag early 0 s" "packet_of cb" s] unfolding s by simp
  moreover have "erases (server_strand (on_callback E early cb s)) =
      erases (server_strand s) @ map callback_id (filter is_OnClose [cb])"
    by (cases cb) (simp_all add: push_packet_frame Let_def)
  ultimately show ?thesis
    using push_packet_frame [of E "load_flag early 0 s" "packet_of cb" s] unfolding s callbacks_done_def
    by (intro conjI exI [of _ ?ps]) auto
qed

lemma callbacks_done_trans:
  assumes "callbacks_done xs s s'" and "callbacks_done ys s' s''"
  shows "callbacks_done (xs @ ys) s s''"
proof -
  from assms(1) obtain ps where
    "pushed s' = pushed s @ ps" "subseq ps (map packet_of xs)"
    "lost s' = 0 \<and> \<not> shutting_down s' \<longrightarrow> lost s = 0 \<and> ps = map packet_of xs"
    unfolding callbacks_done_def by blast
  moreover from assms(2) obtain qs where
    "pushed s'' = pushed s' @ qs" "subseq qs (map packet_of ys)"
    "lost s'' = 0 \<and> \<not> shutting_down s'' \<longrightarrow> lost s' = 0 \<and> qs = map packet_of ys"
    unfolding callbacks_done_def by blast
  ultimately show ?thesis
    using assms unfolding callbacks_done_def
    by (intro conjI exI [of _ "ps @ qs"]) (auto intro: subseq_append_mono)
qed

lemma callbacks_done_fold: "callbacks_done cbs s (fold (on_callback E early) cbs s)"
proof (induction cbs arbitrary: s)
  case Nil
  then show ?case by (simp add: callbacks_done_def)
next
  case (Cons cb cbs)
  show ?case
    using callbacks_done_trans [OF callbacks_done_one Cons.IH] by simp
qed

text \<open>
  A handler of session \<open>a\<close> makes the callbacks \<open>new\<close>, of which the queue takes the packets \<open>ps\<close>.
\<close>

definition stepped :: "nat \<Rightarrow> conn \<Rightarrow> callback list \<Rightarrow> Packet list \<Rightarrow> Impl \<Rightarrow> Impl \<Rightarrow> bool" where
  "stepped a c' new ps s s' \<longleftrightarrow>
     calls c' = calls (heap s ! a) @ new
     \<and> (\<forall>cb \<in> set new. callback_id cb = id_S (heap s ! a))
     \<and> filter is_OnClose new =
         (if closed c' \<and> \<not> closed (heap s ! a) then [OnClose (id_S (heap s ! a))] else [])
     \<and> pushed s' = pushed s @ ps \<and> subseq ps (map packet_of new)
     \<and> (lost s' = 0 \<and> \<not> shutting_down s \<longrightarrow> lost s = 0 \<and> ps = map packet_of new)
     \<and> heap s' = (heap s)[a := c'] \<and> next_id s' = next_id s \<and> issued s' = issued s
     \<and> session_table s' = session_table s \<and> shutting_down s' = shutting_down s
     \<and> erases (server_strand s') = erases (server_strand s) @
         (if closed c' \<and> \<not> closed (heap s ! a) then [id_S (heap s ! a)] else [])"

lemma session_step_stepped:
  "\<exists>new ps. stepped a (fire e (heap s ! a)) new ps s (session_step E early a e s)"
proof -
  let ?c = "heap s ! a" and ?c' = "fire e (heap s ! a)"
  let ?s0 = "s\<lparr>heap := (heap s)[a := ?c']\<rparr>" and ?s' = "session_step E early a e s"
  obtain new where step: "calls ?c' = calls ?c @ new" "\<forall>cb \<in> set new. callback_id cb = id_S ?c"
      "filter is_OnClose new = (if closed ?c' \<and> \<not> closed ?c then [OnClose (id_S ?c)] else [])"
    using calls_step_fire [of ?c e] by (auto simp: calls_step_def)
  have cd: "callbacks_done new ?s0 ?s'"
    using callbacks_done_fold [of new ?s0 E early] by (simp add: session_step_def Let_def step(1))
  then obtain ps where "pushed ?s' = pushed s @ ps" "subseq ps (map packet_of new)"
      "lost ?s' = 0 \<and> \<not> shutting_down s \<longrightarrow> lost s = 0 \<and> ps = map packet_of new"
    by (auto simp: callbacks_done_def pushed_def)
  with step cd have "stepped a ?c' new ps s ?s'"
    unfolding stepped_def callbacks_done_def by simp
  then show ?thesis by blast
qed

lemma book_session_step:
  assumes book: "book_inv s" and a: "a < length (heap s)"
  shows "book_inv (session_step E early a e s)"
proof -
  let ?c = "heap s ! a" and ?c' = "fire e (heap s ! a)" and ?s' = "session_step E early a e s"
  obtain new ps where "stepped a ?c' new ps s ?s'" using session_step_stepped by blast
  then have f: "calls ?c' = calls ?c @ new" "\<forall>cb \<in> set new. callback_id cb = id_S ?c"
      "pushed ?s' = pushed s @ ps" "subseq ps (map packet_of new)"
      "lost ?s' = 0 \<and> \<not> shutting_down s \<longrightarrow> lost s = 0 \<and> ps = map packet_of new"
      "heap ?s' = (heap s)[a := ?c']"
    and rest: "next_id ?s' = next_id s" "issued ?s' = issued s" "session_table ?s' = session_table s"
      "shutting_down ?s' = shutting_down s"
      "erases (server_strand ?s') =
         erases (server_strand s) @ (if closed ?c' \<and> \<not> closed ?c then [id_S ?c] else [])"
    by (simp_all add: stepped_def)
  have c': "id_S ?c' = id_S ?c" "closed ?c \<longrightarrow> closed ?c'"
    using calls_step_fire [of ?c e] by (auto simp: calls_step_def)
  have H: "map ident (heap ?s') =
      (map ident (heap s))[a := (id_S ?c, calls ?c @ new, closed ?c')]"
    by (simp add: f map_update ident_def c')
  have "book_rel (lost ?s' = 0 \<and> \<not> shutting_down s)
      ((map ident (heap s))[a := (id_S ?c, calls ?c @ new, closed ?c')])
      (next_id s) (issued s) (session_table s) (pushed s @ ps)
      (erases (server_strand s) @ (if closed ?c' \<and> \<not> closed ?c then [id_S ?c] else []))"
    if n: "issued s < 2 ^ 32 - 1"
  proof (rule book_step)
    show "book_rel (lost s = 0 \<and> \<not> shutting_down s) (map ident (heap s)) (next_id s) (issued s)
        (session_table s) (pushed s) (erases (server_strand s))"
      using book n by (simp add: book_inv_def)
    show "lost ?s' = 0 \<and> \<not> shutting_down s \<longrightarrow> (lost s = 0 \<and> \<not> shutting_down s) \<and> ps = map packet_of new"
      using f(5) by simp
  qed (use a c' f in \<open>simp_all add: ident_def\<close>)
  then show ?thesis
    unfolding book_inv_def H rest f(3) by blast
qed

lemma quiet_on_session:
  assumes "\<And>c. ident (f c) = ident c"
  shows "quiet s (on_session a f s)"
  using assms by (simp add: quiet_def on_session_def map_update pushed_def list_update_same_conv)
     (metis list_update_id map_update nth_map list_update_beyond not_le)

lemma quiet_refl [simp]: "quiet s s"
  by (simp add: quiet_def)

lemma quiet_trans: "quiet a b \<Longrightarrow> quiet b c \<Longrightarrow> quiet a c"
  by (simp add: quiet_def)

lemma quiet_then_on_session:
  "quiet s s' \<Longrightarrow> (\<And>c. ident (f c) = ident c) \<Longrightarrow> quiet s (on_session a f s')"
  by (rule quiet_trans [OF _ quiet_on_session])

lemma ident_quiet [simp]: "ident (hand_over f c) = ident c" "ident (close c) = ident c"
  by (simp_all add: ident_def)

lemma quiet_release [simp]: "quiet s (release_frame f s)"
  by (simp add: quiet_def release_frame_def pushed_def)

lemma quiet_broadcast_one: "quiet s (broadcast_one t a s)"
proof (cases "clone_frame (server_pool s) t")
  case (Some fp)
  have "quiet s (s\<lparr>server_pool := snd fp\<rparr>)" by (simp add: quiet_def pushed_def)
  with Some show ?thesis
    by (auto simp: broadcast_one_def split: prod.split intro: quiet_then_on_session)
qed (simp add: broadcast_one_def quiet_def pushed_def)

lemma quiet_fold:
  assumes "\<And>x s. quiet s (f x s)"
  shows "quiet s (fold f xs s)"
proof (induction xs arbitrary: s)
  case (Cons x xs)
  show ?case using quiet_trans [OF assms Cons.IH] by simp
qed simp

lemma quiet_task:
  assumes t: "server_strand s = t # ts" and ne: "\<nexists>sid. t = EraseSession sid"
  shows "quiet s (run_server_task t (s\<lparr>server_strand := ts\<rparr>))"
proof -
  let ?s = "s\<lparr>server_strand := ts\<rparr>"
  have q: "quiet s ?s" using t ne by (cases t) (auto simp: quiet_def pushed_def)
  show ?thesis
  proof (cases t)
    case (BroadcastFrame f)
    then show ?thesis
      using q
      by (auto intro!: quiet_trans [OF _ quiet_release] quiet_trans [OF _ quiet_fold] quiet_broadcast_one
          split: prod.split)
  next
    case CloseAll
    have "quiet s (?s\<lparr>acceptor_open := False\<rparr>)" using q by (simp add: quiet_def pushed_def)
    then have "quiet s (fold (\<lambda>(_, a). on_session a close) (session_table s) (?s\<lparr>acceptor_open := False\<rparr>))"
      by (rule quiet_trans) (auto intro!: quiet_fold quiet_on_session split: prod.split)
    then show ?thesis
      using CloseAll by (simp add: quiet_def pushed_def)
  qed (use q ne in \<open>auto split: option.split intro: quiet_then_on_session quiet_trans [OF _ quiet_release]\<close>)
qed

lemma book_task:
  assumes book: "book_inv s" and t: "server_strand s = t # ts"
  shows "book_inv (run_server_task t (s\<lparr>server_strand := ts\<rparr>))"
proof (cases "\<exists>sid. t = EraseSession sid")
  case True
  then obtain sid where sid: "t = EraseSession sid" ..
  have "book_rel c (map ident (heap s)) (next_id s) (issued s) (session_table s) (pushed s) (sid # erases ts)
      \<longrightarrow> book_rel c (map ident (heap s)) (next_id s) (issued s) (um_erase sid (session_table s)) (pushed s) (erases ts)" for c
    using book_erase by blast
  then show ?thesis
    using book t sid by (simp add: book_inv_def pushed_def)
next
  case False
  then show ?thesis using book_inv_quiet [OF book quiet_task [OF t]] by blast
qed

text \<open>The counter of an identifier not yet handed out is not a key of the session table.\<close>
lemma next_id_unregistered:
  assumes inv: "server_inv s" and rel: "book_rel c (map ident (heap s)) (next_id s) n (session_table s) p es"
  shows "um_find (session_table s) (next_id s) = None"
proof (rule ccontr)
  assume "um_find (session_table s) (next_id s) \<noteq> None"
  then obtain a where "um_find (session_table s) (next_id s) = Some a" by auto
  then have "a < length (heap s)" "id_S (heap s ! a) = next_id s"
    using inv by (simp_all add: server_inv_def)
  then have "next_id s \<in> fst ` set (map ident (heap s))"
    by (auto simp: ident_def image_image intro!: image_eqI [of _ _ "heap s ! a"])
  then show False using rel by (auto simp: book_rel_def)
qed

lemma book_accept_announced:
  assumes book: "book_inv s" and inv: "server_inv s"
    and go: "\<not> (ec \<or> load_flag early 0 s)" and ok: "\<not> load_flag early 1 s \<and> push_ok E (length (packet_queue s))"
  shows "book_inv (on_accept E early ec t stream s)"
proof -
  let ?sid = "next_id s" and ?s' = "on_accept E early ec t stream s"
  have parts: "map ident (heap ?s') = map ident (heap s) @ [(?sid, [], False)]" "next_id ?s' = ?sid + 1"
      "issued ?s' = Suc (issued s)" "lost ?s' = lost s" "shutting_down ?s' = shutting_down s"
      "session_table ?s' = um_emplace (table_order E) ?sid (length (map ident (heap s))) (session_table s)"
      "pushed ?s' = pushed s @ [connect_packet ?sid]" "server_strand ?s' = server_strand s"
    using ok go
    by (auto simp: on_accept_def push_packet_def do_accept_def pushed_def connect_packet_def
        ident_def load_flag_def Let_def)
  show ?thesis
    unfolding book_inv_def parts
  proof
    assume n: "Suc (issued s) < 2 ^ 32 - 1"
    then have rel: "book_rel (lost s = 0 \<and> \<not> shutting_down s) (map ident (heap s)) ?sid (issued s)
        (session_table s) (pushed s) (erases (server_strand s))"
      using book by (simp add: book_inv_def)
    from rel n next_id_unregistered [OF inv rel]
    show "book_rel (lost s = 0 \<and> \<not> shutting_down s) (map ident (heap s) @ [(?sid, [], False)])
        (?sid + 1) (Suc (issued s))
        (um_emplace (table_order E) ?sid (length (map ident (heap s))) (session_table s))
        (pushed s @ [connect_packet ?sid]) (erases (server_strand s))"
      by (rule book_accept)
  qed
qed

lemma book_accept_dropped:
  assumes book: "book_inv s"
    and go: "\<not> (ec \<or> load_flag early 0 s)" and no: "\<not> (\<not> load_flag early 1 s \<and> push_ok E (length (packet_queue s)))"
  shows "book_inv (on_accept E early ec t stream s)"
proof -
  let ?sid = "next_id s" and ?s' = "on_accept E early ec t stream s"
  have parts: "heap ?s' = heap s" "next_id ?s' = ?sid + 1" "issued ?s' = Suc (issued s)"
      "(lost ?s' = 0 \<and> \<not> shutting_down ?s') = False" "session_table ?s' = session_table s" "pushed ?s' = pushed s"
      "server_strand ?s' = server_strand s"
    using no go by (auto simp: on_accept_def push_packet_def do_accept_def pushed_def load_flag_def Let_def)
  have "book_rel False (map ident (heap s)) (?sid + 1) (Suc (issued s)) (session_table s) (pushed s)
      (erases (server_strand s))" if n: "Suc (issued s) < 2 ^ 32 - 1"
  proof (rule book_refused [OF _ n])
    show "book_rel False (map ident (heap s)) ?sid (issued s) (session_table s) (pushed s)
        (erases (server_strand s))"
      using book n by (auto simp: book_inv_def intro: book_rel_weaken)
  qed
  then show ?thesis
    unfolding book_inv_def parts by simp
qed

lemma book_accept_done:
  assumes book: "book_inv s" and inv: "server_inv s"
  shows "book_inv (on_accept E early ec t stream s)"
proof (cases "ec \<or> load_flag early 0 s")
  case True
  then have "quiet s (on_accept E early ec t stream s)"
    by (auto simp: load_flag_def on_accept_def do_accept_def quiet_def pushed_def Let_def)
  with book show ?thesis by (rule book_inv_quiet)
next
  case False
  then show ?thesis
    using book_accept_announced [OF book inv] book_accept_dropped [OF book] by blast
qed

lemma quiet_api:
  "quiet s (Server_send sid data s)" "quiet s (broadcast data s)" "quiet s (disconnect sid s)"
  "quiet s (snd (poll_packet s))" "quiet s (shutdown_begin s)" "quiet s (shutdown_end s)"
  "quiet s (s\<lparr>server_pool := p\<rparr>)"
  by (auto simp: quiet_def Server_send_def broadcast_def disconnect_def poll_packet_def shutdown_begin_def
      shutdown_end_def pushed_def Let_def split: option.split list.split)

lemma book_fire:
  assumes book: "book_inv s" and inv: "server_inv s" and en: "server_enabled e s"
  shows "book_inv (server_fire E e s)"
proof (cases e)
  case RunServerTask
  then show ?thesis
    using book_task [OF book] en by (cases "server_strand s") simp_all
qed (use assms in \<open>auto intro: book_accept_done book_session_step book_inv_quiet quiet_api\<close>)

interpretation sv: event_machine "server_attempt E" "\<lambda>s. server_inv s \<and> book_inv s" for E
  by unfold_locales (auto simp: server_attempt_def server_inv_fire book_fire)

lemma server_run_invs: "server_inv (server_run E es) \<and> book_inv (server_run E es)"
  unfolding server_run_def
proof (rule sv.run_invar)
  show "server_inv (server_start E) \<and> book_inv (server_start E)"
    by (simp add: server_inv_def book_inv_def book_rel_def server_start_def start_threads_def Impl_init_def
        do_accept_def pushed_def)
qed

text \<open>The I/O threads neither take packets nor shut the server down.\<close>

lemma push_packet_polled: "polled (snd (push_packet E down p s)) = polled s"
  by (simp add: push_packet_def)

lemma callbacks_frame:
  "shutting_down (fold (on_callback E early) cbs s) = shutting_down s \<and> polled (fold (on_callback E early) cbs s) = polled s"
proof (induction cbs arbitrary: s)
  case (Cons cb cbs)
  have "shutting_down (on_callback E early cb s) = shutting_down s \<and> polled (on_callback E early cb s) = polled s"
    by (cases cb) (simp_all add: push_packet_frame push_packet_polled Let_def)
  with Cons.IH [of "on_callback E early cb s"] show ?case by simp
qed simp

lemma fold_frame:
  assumes "\<And>x s. F (f x s) = F s"
  shows "F (fold f xs s) = F s"
  by (induction xs arbitrary: s) (simp_all add: assms)

lemma on_session_frame [simp]:
  "shutting_down (on_session a f s) = shutting_down s" "polled (on_session a f s) = polled s"
  by (simp_all add: on_session_def)

lemma broadcast_one_frame:
  "shutting_down (broadcast_one t a s) = shutting_down s \<and> polled (broadcast_one t a s) = polled s"
  by (auto simp: broadcast_one_def split: option.split)

lemma table_loop_frame [simp]:
  "shutting_down (fold (\<lambda>(_, a). on_session a f) tab s) = shutting_down s"
  "polled (fold (\<lambda>(_, a). on_session a f) tab s) = polled s"
  "shutting_down (fold (\<lambda>(_, a). broadcast_one tm a) tab s) = shutting_down s"
  "polled (fold (\<lambda>(_, a). broadcast_one tm a) tab s) = polled s"
  by (rule fold_frame, simp add: broadcast_one_frame split: prod.split)+

lemma task_frame:
  "shutting_down (run_server_task t s) = shutting_down s" "polled (run_server_task t s) = polled s"
  by (cases t; auto simp: release_frame_def split: option.split)+

lemma accept_frame:
  "shutting_down (on_accept E early ec t stream s) = shutting_down s" "polled (on_accept E early ec t stream s) = polled s"
  by (auto simp: on_accept_def push_packet_def do_accept_def Let_def)

section \<open>A refused Disconnect\<close>

text \<open>
  A closed session makes no second call of \<^verbatim>\<open>on_close_\<close>, so a Disconnect that was not pushed when
  it closed is never pushed.
\<close>

definition disconnect_packet :: "u32 \<Rightarrow> Packet" where
  "disconnect_packet i = \<lparr>packet_type = Disconnect, packet_session_id = i, packet_data = []\<rparr>"

definition silent_end :: "nat \<Rightarrow> u32 \<Rightarrow> Impl \<Rightarrow> bool" where
  "silent_end a i s \<longleftrightarrow>
     a < length (heap s) \<and> id_S (heap s ! a) = i \<and> closed (heap s ! a)
     \<and> (issued s < 2 ^ 32 - 1 \<longrightarrow> disconnect_packet i \<notin> set (pushed s))"

lemma silent_end_quiet:
  assumes "silent_end a i s" and "quiet s s'"
  shows "silent_end a i s'"
proof -
  have eq: "map ident (heap s') = map ident (heap s)" using assms(2) by (simp add: quiet_def)
  from arg_cong [OF eq, of length] have len: "length (heap s') = length (heap s)" by simp
  from arg_cong [OF eq, of "\<lambda>xs. xs ! a"] have "ident (heap s' ! a) = ident (heap s ! a)"
    using assms(1) len by (simp add: silent_end_def)
  with len show ?thesis
    using assms by (auto simp: silent_end_def quiet_def ident_def)
qed

lemma book_ids_distinct:
  assumes "book_inv s" and "issued s < 2 ^ 32 - 1" and "a < length (heap s)" and "b < length (heap s)"
    and "id_S (heap s ! a) = id_S (heap s ! b)"
  shows "a = b"
proof -
  have "distinct (map fst (map ident (heap s)))"
    using assms(1,2) by (simp add: book_inv_def book_rel_def)
  then have "distinct (map id_S (heap s))" by (simp add: comp_def ident_def)
  then show ?thesis
    using nth_eq_iff_index_eq [of "map id_S (heap s)" a b] assms(3-5) by simp
qed

lemma disconnect_packet_of:
  "packet_of cb = disconnect_packet i \<longleftrightarrow> cb = OnClose i"
  by (cases cb) (auto simp: disconnect_packet_def)

lemma silent_end_session_step:
  assumes J: "silent_end a i s" and book: "book_inv s" and b: "b < length (heap s)"
  shows "silent_end a i (session_step E early b e s)"
proof -
  let ?s' = "session_step E early b e s"
  obtain new ps where "stepped b (fire e (heap s ! b)) new ps s ?s'" using session_step_stepped by blast
  then have f: "\<forall>cb \<in> set new. callback_id cb = id_S (heap s ! b)"
      "filter is_OnClose new = (if closed (fire e (heap s ! b)) \<and> \<not> closed (heap s ! b)
         then [OnClose (id_S (heap s ! b))] else [])"
      "pushed ?s' = pushed s @ ps" "subseq ps (map packet_of new)"
      "heap ?s' = (heap s)[b := fire e (heap s ! b)]" "issued ?s' = issued s"
    by (simp_all add: stepped_def)
  have "disconnect_packet i \<notin> set ps" if n: "issued s < 2 ^ 32 - 1"
  proof
    assume "disconnect_packet i \<in> set ps"
    then have "disconnect_packet i \<in> packet_of ` set new"
      using list_emb_set [OF f(4)] by auto
    then have "OnClose i \<in> set new" by (metis disconnect_packet_of imageE)
    moreover from this have "id_S (heap s ! b) = i" using f(1) by auto
    then have "b = a" using book_ids_distinct [OF book n] b J by (simp add: silent_end_def)
    moreover have "OnClose i \<in> set (filter is_OnClose new)" using calculation by simp
    ultimately show False using f(2) J by (simp add: silent_end_def)
  qed
  moreover have "id_S (fire e (heap s ! b)) = id_S (heap s ! b)" "closed (heap s ! b) \<longrightarrow> closed (fire e (heap s ! b))"
    using calls_step_fire by (auto simp: calls_step_def)
  ultimately show ?thesis
    using J b by (auto simp: silent_end_def f nth_list_update)
qed

lemma silent_end_fire:
  assumes J: "silent_end a i s" and inv: "server_inv s" and book: "book_inv s" and en: "server_enabled e s"
  shows "silent_end a i (server_fire E e s)"
proof (cases e)
  case (AcceptDone ec t stream early)
  let ?s' = "on_accept E early ec t stream s"
  have "\<exists>H qs. heap ?s' = heap s @ H \<and> pushed ?s' = pushed s @ qs \<and> disconnect_packet i \<notin> set qs
      \<and> issued s \<le> issued ?s'"
    by (auto simp: on_accept_def push_packet_def do_accept_def pushed_def disconnect_packet_def Let_def)
  then show ?thesis
    using J AcceptDone by (auto simp: silent_end_def nth_append)
next
  case (SessionStep b ev early)
  then show ?thesis using silent_end_session_step [OF J book] en by simp
next
  case RunServerTask
  then obtain t ts where t: "server_strand s = t # ts" using en by (cases "server_strand s") auto
  show ?thesis
  proof (cases "\<exists>sid. t = EraseSession sid")
    case True
    then show ?thesis using J t RunServerTask by (auto simp: silent_end_def pushed_def)
  next
    case False
    then show ?thesis
      using silent_end_quiet [OF J quiet_task [OF t]] RunServerTask t by auto
  qed
qed (use J in \<open>auto intro: silent_end_quiet quiet_api\<close>)

interpretation se: event_machine "server_attempt E"
    "\<lambda>s. (server_inv s \<and> book_inv s) \<and> silent_end a i s" for E a i
  by unfold_locales (auto simp: server_attempt_def server_inv_fire book_fire silent_end_fire)

end
