(* ===== verification/Server_Shutdown.thy ===== *)
theory Server_Shutdown
  imports Net_Server
begin

text \<open>
  What follows once \<^verbatim>\<open>Server::Impl::shutdown\<close> has set its flag, whatever the I/O threads do in between:
  the function it posts is reached, it leaves every session closed or with its closing posted, and
  only a handler that had loaded the flag before still pushes a packet.
\<close>

section \<open>The flag and the queue\<close>

text \<open>No load of the handler came before the flag was set.\<close>

fun fresh_loads :: "server_event \<Rightarrow> bool" where
  "fresh_loads (AcceptDone _ _ _ early) = (early = 0)"
| "fresh_loads (SessionStep _ _ early) = (early = 0)"
| "fresh_loads _ = True"

lemma callbacks_fields:
  "acceptor_open (fold (on_callback E early) cbs s) = acceptor_open s
   \<and> shutdown_done (fold (on_callback E early) cbs s) = shutdown_done s
   \<and> io_stopped (fold (on_callback E early) cbs s) = io_stopped s
   \<and> (\<exists>xs. server_strand (fold (on_callback E early) cbs s) = server_strand s @ xs \<and> CloseAll \<notin> set xs)"
proof (induction cbs arbitrary: s)
  case (Cons cb cbs)
  have "acceptor_open (on_callback E early cb s) = acceptor_open s
      \<and> shutdown_done (on_callback E early cb s) = shutdown_done s
      \<and> io_stopped (on_callback E early cb s) = io_stopped s
      \<and> (\<exists>xs. server_strand (on_callback E early cb s) = server_strand s @ xs \<and> CloseAll \<notin> set xs)"
    by (cases cb) (auto simp: push_packet_def Let_def)
  with Cons.IH [of "on_callback E early cb s"] show ?case by (auto simp: append_assoc)
qed simp

lemma callbacks_unpushed:
  assumes "shutting_down s"
  shows "pushed (fold (on_callback E 0) cbs s) = pushed s"
  using assms
proof (induction cbs arbitrary: s)
  case (Cons cb cbs)
  have "pushed (on_callback E 0 cb s) = pushed s" "shutting_down (on_callback E 0 cb s)"
    using Cons.prems by (cases cb; simp add: push_packet_def load_flag_def pushed_def Let_def)+
  with Cons.IH [of "on_callback E 0 cb s"] show ?case by simp
qed simp

lemma accept_fields:
  "acceptor_open (on_accept E early ec t stream s) = acceptor_open s"
  "shutdown_done (on_accept E early ec t stream s) = shutdown_done s"
  "io_stopped (on_accept E early ec t stream s) = io_stopped s"
  "server_strand (on_accept E early ec t stream s) = server_strand s"
  by (auto simp: on_accept_def push_packet_def do_accept_def Let_def)

lemma task_fields:
  "server_strand (run_server_task t s) = server_strand s" "io_stopped (run_server_task t s) = io_stopped s"
  "shutdown_done (run_server_task t s) \<longleftrightarrow> t = CloseAll \<or> shutdown_done s"
  "acceptor_open (run_server_task t s) \<longleftrightarrow> t \<noteq> CloseAll \<and> acceptor_open s"
proof -
  let ?F = "\<lambda>s. (server_strand s, io_stopped s, shutdown_done s, acceptor_open s)"
  have one: "?F (on_session a f s) = ?F s" "?F (broadcast_one tm a s) = ?F s" for a f tm s
    by (auto simp: on_session_def broadcast_one_def split: option.split)
  have "?F (fold (\<lambda>(_, a). on_session a close) tab s) = ?F s" for tab :: "(u32, nat) umap" and s
    using one(1) by (intro fold_frame) (simp split: prod.split)
  moreover have "?F (fold (\<lambda>(_, a). broadcast_one tm a) tab s) = ?F s" for tab :: "(u32, nat) umap" and tm s
    using one(2) by (intro fold_frame) (simp split: prod.split)
  ultimately show "server_strand (run_server_task t s) = server_strand s"
      "io_stopped (run_server_task t s) = io_stopped s"
      "shutdown_done (run_server_task t s) \<longleftrightarrow> t = CloseAll \<or> shutdown_done s"
      "acceptor_open (run_server_task t s) \<longleftrightarrow> t \<noteq> CloseAll \<and> acceptor_open s"
    using one by (cases t; auto simp: release_frame_def split: option.split)+
qed

lemmas server_call_defs =
  Server_send_def broadcast_def disconnect_def poll_packet_def shutdown_begin_def shutdown_end_def

lemma flag_stays:
  assumes "shutting_down s"
  shows "shutting_down (server_attempt E e s)"
  using assms
  by (cases e) (auto simp: server_attempt_def accept_frame task_frame session_step_def callbacks_frame
      server_call_defs Let_def split: list.split option.split)

lemma done_stays:
  assumes "shutdown_done s"
  shows "shutdown_done (server_attempt E e s)"
  using assms
  by (cases e) (auto simp: server_attempt_def accept_fields task_fields session_step_def callbacks_fields
      server_call_defs Let_def split: list.split option.split)

lemma strand_grows:
  assumes "e \<noteq> RunServerTask"
  shows "\<exists>xs. server_strand (server_attempt E e s) = server_strand s @ xs
    \<and> (CloseAll \<in> set xs \<longrightarrow> e = ShutdownBegin)"
proof (cases e)
  case (SessionStep a ev early)
  then show ?thesis
    using callbacks_fields [of E early "drop (length (calls (heap s ! a))) (calls (fire ev (heap s ! a)))"
        "s\<lparr>heap := (heap s)[a := fire ev (heap s ! a)]\<rparr>"]
    by (auto simp: server_attempt_def session_step_def Let_def)
qed (use assms in \<open>auto simp: server_attempt_def accept_fields server_call_defs Let_def
       split: list.split option.split\<close>)

lemma queue_closed:
  assumes "shutting_down s" and "fresh_loads e"
  shows "pushed (server_attempt E e s) = pushed s"
proof (cases e)
  case (AcceptDone ec t stream early)
  then show ?thesis
    using assms by (auto simp: server_attempt_def on_accept_def load_flag_def pushed_def Let_def)
next
  case (SessionStep a ev early)
  then show ?thesis
    using assms callbacks_unpushed [of "s\<lparr>heap := (heap s)[a := fire ev (heap s ! a)]\<rparr>" E]
    by (simp add: server_attempt_def session_step_def Let_def pushed_def)
next
  case RunServerTask
  show ?thesis
  proof (cases "server_strand s")
    case (Cons t ts)
    show ?thesis
    proof (cases "\<exists>sid. t = EraseSession sid")
      case True
      then show ?thesis using RunServerTask Cons by (auto simp: server_attempt_def pushed_def)
    next
      case False
      then show ?thesis
        using quiet_task [OF Cons] RunServerTask Cons by (simp add: server_attempt_def quiet_def)
    qed
  qed (simp add: RunServerTask server_attempt_def)
qed (use quiet_api in \<open>simp_all add: server_attempt_def quiet_def\<close>)

text \<open>Once the I/O threads have ended, only the game thread acts.\<close>

lemma stopped_stays:
  assumes "io_stopped s"
  shows "io_stopped (server_attempt E e s) \<and> pushed (server_attempt E e s) = pushed s"
  using assms quiet_api
  by (cases e) (auto simp: server_attempt_def quiet_def server_call_defs Let_def split: list.split option.split)

section \<open>The posted function is reached\<close>

text \<open>It has run, or exactly \<open>k\<close> functions are before it in the strand.\<close>

definition waits :: "nat \<Rightarrow> Impl \<Rightarrow> bool" where
  "waits k s \<longleftrightarrow>
     shutdown_done s \<or> (\<not> io_stopped s \<and> k < length (server_strand s) \<and> server_strand s ! k = CloseAll)"

lemma waits_other:
  assumes "waits k s" and "e \<noteq> RunServerTask" and "shutting_down s"
  shows "waits k (server_attempt E e s)"
proof (cases "shutdown_done s")
  case True
  then show ?thesis using done_stays by (simp add: waits_def)
next
  case False
  have "\<not> io_stopped (server_attempt E e s)"
    using assms False
    by (cases e) (auto simp: waits_def server_attempt_def accept_fields session_step_def callbacks_fields
        server_call_defs Let_def split: list.split option.split)
  moreover obtain xs where "server_strand (server_attempt E e s) = server_strand s @ xs"
    using strand_grows [OF assms(2)] by blast
  ultimately show ?thesis
    using assms(1) False by (auto simp: waits_def nth_append)
qed

lemma waits_task:
  assumes "waits k s"
  shows "if k = 0 then shutdown_done (server_attempt E RunServerTask s)
    else waits (k - 1) (server_attempt E RunServerTask s)"
proof (cases "shutdown_done s")
  case True
  then show ?thesis using done_stays by (simp add: waits_def)
next
  case False
  then obtain t ts where "server_strand s = t # ts" "\<not> io_stopped s" "k = 0 \<longrightarrow> t = CloseAll"
      "0 < k \<longrightarrow> k - 1 < length ts \<and> ts ! (k - 1) = CloseAll"
    using assms by (cases "server_strand s"; cases k) (auto simp: waits_def)
  then show ?thesis
    by (auto simp: server_attempt_def task_fields waits_def)
qed

lemma waits_run:
  assumes "waits k s" and "shutting_down s" and "k < count_list es RunServerTask"
  shows "shutdown_done (fold (server_attempt E) es s)"
  using assms
proof (induction es arbitrary: k s)
  case (Cons e es)
  have d: "shutdown_done (fold (server_attempt E) es s')" if "shutdown_done s'" for s'
    using that by (induction es arbitrary: s') (simp_all add: done_stays)
  note flag = flag_stays [OF Cons.prems(2)]
  show ?case
  proof (cases "e = RunServerTask")
    case True
    then show ?thesis
      using waits_task [OF Cons.prems(1), of E] d Cons.IH [OF _ flag] Cons.prems(3)
      by (cases k) auto
  next
    case False
    then show ?thesis
      using Cons.IH [OF waits_other [OF Cons.prems(1) False Cons.prems(2)] flag] Cons.prems(3) by simp
  qed
qed simp

section \<open>Every session ends\<close>

definition ending :: "conn \<Rightarrow> bool" where
  "ending c \<longleftrightarrow> closed c \<or> HandleClose \<in> set (strand c)"

lemma strand_send: "\<exists>xs. strand (send p c) = strand c @ xs"
  by (auto simp: send_def split: option.split)

lemma ending_fire:
  assumes "ending c"
  shows "ending (fire e c)"
proof (cases "closed c")
  case True
  then show ?thesis using calls_step_fire [of c e] by (simp add: ending_def calls_step_def)
next
  case False
  then have posted: "HandleClose \<in> set (strand c)" using assms by (simp add: ending_def)
  show ?thesis
  proof (cases e)
    case (Send p)
    then show ?thesis using posted strand_send [of p c] by (auto simp: ending_def)
  next
    case RunTask
    then show ?thesis
      using posted by (cases "strand c"; cases "hd (strand c)") (auto simp: ending_def state_simps handle_close_def)
  qed (use posted in \<open>auto simp: ending_def state_simps close_def enqueue_raw_frame_def Let_def split: option.split\<close>)
qed

lemma ending_calls [simp]:
  "ending c \<Longrightarrow> ending (hand_over f c)" "ending (close c)"
  by (auto simp: ending_def hand_over_def enqueue_raw_frame_def close_def)

definition all_ending :: "Impl \<Rightarrow> bool" where
  "all_ending s \<longleftrightarrow> (\<forall>c \<in> set (heap s). ending c)"

lemma all_ending_on_session:
  assumes "all_ending s" and "\<And>c. ending c \<Longrightarrow> ending (f c)"
  shows "all_ending (on_session a f s)"
proof (cases "a < length (heap s)")
  case True
  then show ?thesis
    using assms by (auto simp: all_ending_def on_session_def dest!: set_update_subset_insert [THEN subsetD])
qed (use assms in \<open>simp add: all_ending_def on_session_def list_update_beyond\<close>)

lemma all_ending_broadcast_one: "all_ending s \<Longrightarrow> all_ending (broadcast_one tm a s)"
proof (cases "clone_frame (server_pool s) tm")
  case (Some fp)
  assume "all_ending s"
  then have "all_ending (s\<lparr>server_pool := snd fp\<rparr>)" by (simp add: all_ending_def)
  then show ?thesis using Some by (cases fp) (auto simp: broadcast_one_def intro: all_ending_on_session)
qed (simp add: broadcast_one_def all_ending_def)

lemma all_ending_fold:
  assumes "\<And>x s. all_ending s \<Longrightarrow> all_ending (f x s)"
  shows "all_ending s \<Longrightarrow> all_ending (fold f xs s)"
  by (induction xs arbitrary: s) (simp_all add: assms)

lemma all_ending_task:
  assumes "all_ending s"
  shows "all_ending (run_server_task t s)"
proof -
  have "all_ending (fold (\<lambda>(_, a). broadcast_one tm a) tab s)" for tab :: "(u32, nat) umap" and tm
    using assms by (intro all_ending_fold) (auto intro: all_ending_broadcast_one)
  moreover have "all_ending (fold (\<lambda>(_, a). on_session a close) tab (s\<lparr>acceptor_open := False\<rparr>))" for tab :: "(u32, nat) umap"
  proof (rule all_ending_fold)
    show "all_ending (s\<lparr>acceptor_open := False\<rparr>)" using assms by (simp add: all_ending_def)
  qed (auto intro: all_ending_on_session)
  moreover have "all_ending (on_session a (hand_over f) s)" "all_ending (on_session a close s)" for a f
    using assms by (auto intro: all_ending_on_session)
  moreover have "all_ending (release_frame f s') = all_ending s'" "all_ending (s'\<lparr>shutdown_done := b\<rparr>) = all_ending s'"
      "all_ending (s'\<lparr>session_table := tab\<rparr>) = all_ending s'" for f b tab s'
    by (simp_all add: all_ending_def release_frame_def)
  ultimately show ?thesis
    using assms by (cases t) (simp_all split: option.split)
qed

text \<open>What the posted function does to the sessions.\<close>

lemma close_loop:
  "heap (fold (\<lambda>(_, a). on_session a close) tab s) =
     map (\<lambda>a. (close ^^ length (filter (\<lambda>x. snd x = a) tab)) (heap s ! a)) [0 ..< length (heap s)]"
proof (induction tab arbitrary: s)
  case Nil
  then show ?case by (simp add: map_nth)
next
  case (Cons x tab)
  obtain k a where x: "x = (k, a)" by (cases x)
  show ?case
    using Cons.IH [of "on_session a close s"]
    by (auto simp: x on_session_def nth_list_update funpow_swap1 intro!: nth_equalityI)
qed

lemma all_ending_CloseAll:
  assumes "book_inv s" and "issued s < 2 ^ 32 - 1"
  shows "all_ending (run_server_task CloseAll (s\<lparr>server_strand := ts\<rparr>))"
proof -
  let ?tab = "session_table s"
  have "ending ((close ^^ length (filter (\<lambda>x. snd x = a) ?tab)) (heap s ! a))" if a: "a < length (heap s)" for a
  proof (cases "closed (heap s ! a)")
    case True
    have "closed ((close ^^ n) c)" if "closed c" for n and c :: conn
      using that by (induction n) simp_all
    then show ?thesis using True by (simp add: ending_def)
  next
    case False
    have "session_book (lost s = 0 \<and> \<not> shutting_down s) ?tab (pushed s) (erases (server_strand s)) a (ident (heap s ! a))"
      using assms a by (simp add: book_inv_def book_rel_def)
    then have "um_find ?tab (id_S (heap s ! a)) = Some a" using False by (simp add: session_book_def ident_def)
    then have "(id_S (heap s ! a), a) \<in> set ?tab" by (auto simp: um_find_def dest: map_of_SomeD)
    then have "filter (\<lambda>x. snd x = a) ?tab \<noteq> []" by (force simp: filter_empty_conv)
    then obtain n where "length (filter (\<lambda>x. snd x = a) ?tab) = Suc n" by (cases "filter (\<lambda>x. snd x = a) ?tab") auto
    then show ?thesis by simp
  qed
  then show ?thesis by (auto simp: all_ending_def close_loop)
qed

text \<open>
  The state of the shutdown: the posted function is there only after the flag was set, and after it
  has run the acceptor is closed and every session ends.
\<close>

definition ended :: "Impl \<Rightarrow> bool" where
  "ended s \<longleftrightarrow>
     (CloseAll \<in> set (server_strand s) \<or> shutdown_done s \<longrightarrow> shutting_down s)
     \<and> (shutdown_done s \<longrightarrow> \<not> acceptor_open s \<and> (issued s < 2 ^ 32 - 1 \<longrightarrow> all_ending s))"

lemma ended_quiet:
  assumes "ended s" and "shutting_down s \<longrightarrow> shutting_down s'" and "shutdown_done s' = shutdown_done s"
    and "acceptor_open s' = acceptor_open s" and "issued s' = issued s" and "heap s' = heap s"
    and "CloseAll \<in> set (server_strand s') \<longrightarrow> CloseAll \<in> set (server_strand s) \<or> shutting_down s'"
  shows "ended s'"
  using assms by (auto simp: ended_def all_ending_def)

lemma ended_accept:
  assumes "ended s" and "acceptor_open s \<or> early = 0"
  shows "ended (on_accept E early ec t stream s)"
proof (cases "shutdown_done s")
  case True
  then have "shutting_down s" "early = 0" using assms by (auto simp: ended_def)
  then have "on_accept E early ec t stream s = s\<lparr>accept_pending := False\<rparr>"
    by (simp add: on_accept_def load_flag_def)
  then show ?thesis using assms(1) by (simp add: ended_def all_ending_def)
next
  case False
  then show ?thesis using assms(1) by (simp add: ended_def accept_fields accept_frame)
qed

lemma ended_session_step:
  assumes "ended s" and "a < length (heap s)"
  shows "ended (session_step E early a e s)"
proof -
  obtain new ps where st: "stepped a (fire e (heap s ! a)) new ps s (session_step E early a e s)"
    using session_step_stepped by blast
  obtain xs where xs: "server_strand (session_step E early a e s) = server_strand s @ xs" "CloseAll \<notin> set xs"
      "acceptor_open (session_step E early a e s) = acceptor_open s"
      "shutdown_done (session_step E early a e s) = shutdown_done s"
    using callbacks_fields [of E early "drop (length (calls (heap s ! a))) (calls (fire e (heap s ! a)))"
        "s\<lparr>heap := (heap s)[a := fire e (heap s ! a)]\<rparr>"]
    by (auto simp: session_step_def Let_def)
  have "all_ending (session_step E early a e s)" if "all_ending s"
    using that assms(2) st ending_fire
    by (auto simp: all_ending_def stepped_def dest!: set_update_subset_insert [THEN subsetD])
  then show ?thesis
    using assms(1) st xs by (auto simp: ended_def stepped_def)
qed

lemma ended_task:
  assumes ended: "ended s" and book: "book_inv s" and t: "server_strand s = t # ts"
  shows "ended (run_server_task t (s\<lparr>server_strand := ts\<rparr>))"
proof -
  let ?s = "s\<lparr>server_strand := ts\<rparr>"
  have iss: "issued (run_server_task t ?s) = issued s"
    using quiet_task [OF t] by (cases "\<exists>sid. t = EraseSession sid") (auto simp: quiet_def)
  have all: "all_ending (run_server_task t ?s)" if "all_ending s"
    using that by (intro all_ending_task) (simp add: all_ending_def)
  show ?thesis
  proof (cases "t = CloseAll")
    case True
    then have "shutting_down s" using ended t by (simp add: ended_def)
    then show ?thesis
      using True iss all_ending_CloseAll [OF book, of ts] task_frame [of t ?s]
      unfolding ended_def task_fields by simp
  next
    case False
    then show ?thesis
      using ended t iss all task_frame [of t ?s] unfolding ended_def by (auto simp: task_fields)
  qed
qed

lemma ended_attempt:
  assumes "ended s" and "book_inv s"
  shows "ended (server_attempt E e s)"
proof (cases "server_enabled e s")
  case en: True
  show ?thesis
  proof (cases e)
    case RunServerTask
    then show ?thesis
      using ended_task [OF assms] en by (cases "server_strand s") (simp_all add: server_attempt_def)
  next
    case ShutdownBegin
    then show ?thesis
      using assms(1) by (auto simp: server_attempt_def shutdown_begin_def shutdown_end_def ended_def all_ending_def Let_def)
  qed (use en assms(1) in \<open>auto simp: server_attempt_def ended_accept ended_session_step,
         auto simp: server_call_defs ended_def all_ending_def Let_def split: list.split option.split\<close>)
qed (use assms in \<open>simp add: server_attempt_def\<close>)

interpretation sd: event_machine "server_attempt E" "\<lambda>s. (server_inv s \<and> book_inv s) \<and> ended s" for E
  by unfold_locales (auto intro: ended_attempt dest: sv.step_invar [OF conjI])

lemma server_run_ended: "ended (server_run E es)"
proof -
  have "ended (server_start E)"
    by (simp add: ended_def server_start_def start_threads_def do_accept_def Impl_init_def)
  then show ?thesis
    using sd.run_invar [of "server_start E" E es] server_run_invs [of E "[]"] by (simp add: server_run_def)
qed

text \<open>The threads run from \<^verbatim>\<open>Server::create\<close> on.\<close>

lemma threads_running: "0 < io_threads (server_run E es)"
proof -
  have cb: "io_threads (fold (on_callback E early) cbs s) = io_threads s" for early cbs s
    by (rule fold_frame, case_tac x) (simp_all add: push_packet_def Let_def)
  have one: "io_threads (on_session a f s) = io_threads s" "io_threads (broadcast_one tm a s) = io_threads s" for a f tm s
    by (auto simp: on_session_def broadcast_one_def split: option.split)
  have loops: "io_threads (fold (\<lambda>(_, a). on_session a close) tab s) = io_threads s"
      "io_threads (fold (\<lambda>(_, a). broadcast_one tm a) tab s) = io_threads s" for tab :: "(u32, nat) umap" and tm s
    using one by (auto intro!: fold_frame split: prod.split)
  have "io_threads (run_server_task t s) = io_threads s" for t s
    using one loops by (cases t) (auto simp: release_frame_def split: option.split)
  then have "io_threads (server_attempt E e s) = io_threads s" for e s
    using cb by (cases e) (auto simp: server_attempt_def session_step_def on_accept_def push_packet_def do_accept_def
        server_call_defs Let_def split: list.split option.split)
  then have "io_threads (server_run E es) = io_threads (server_start E)"
    unfolding server_run_def by (rule fold_frame)
  then show ?thesis by (simp add: server_start_def start_threads_def)
qed

end
