(* ===== verification/Network_System.thy ===== *)
theory Network_System
  imports Game_Logic Net_Server
begin

text \<open>
  The bridge between the transport and the chat logic (\<^verbatim>\<open>NetworkSystem.h\<close>, \<^verbatim>\<open>NetworkSystem.cpp\<close>) and
  the main loop of the server (\<^verbatim>\<open>NightServer.cpp\<close>).

  \<open>Receive\<close>, \<open>Flush\<close> and \<open>tick\<close> are the functions of the code, run without interruption.  \<open>world\<close> is the
  running program, in which the I/O threads act between any two calls the game thread makes on the
  transport: \<open>game_step\<close> makes one poll, one send or one disconnection of a round of the main loop,
  and \<open>game_steps_tick\<close> shows that these steps alone make up \<open>tick\<close>.
\<close>

section \<open>NetworkSystem\<close>

definition text_not_message :: string where
  "text_not_message = map char_of [0xEC, 0x88, 0x98, 0xEC, 0x8B, 0xA0, 0x20, 0xEB, 0x8D, 0xB0, 0xEC, 0x9D, 0xB4, 0xED, 0x84, 0xB0,
     0xEA, 0xB0, 0x80, 0x20, 0x4D, 0x65, 0x73, 0x73, 0x61, 0x67, 0x65, 0x20, 0xEC, 0x8A, 0xA4,
     0xED, 0x82, 0xA4, 0xEB, 0xA7, 0x88, 0xEC, 0x99, 0x80, 0x20, 0xEC, 0x9D, 0xBC, 0xEC, 0xB9,
     0x98, 0xED, 0x95, 0x98, 0xEC, 0xA7, 0x80, 0x20, 0xEC, 0x95, 0x8A, 0xEC, 0x8A, 0xB5, 0xEB,
     0x8B, 0x88, 0xEB, 0x8B, 0xA4, 0x2E :: nat]"

definition text_no_root :: string where
  "text_no_root = map char_of [0xED, 0x94, 0x84, 0xEB, 0xA1, 0x9C, 0xED, 0x86, 0xA0, 0xEC, 0xBD, 0x9C, 0x20, 0xEB, 0xA9, 0x94,
     0xEC, 0x8B, 0x9C, 0xEC, 0xA7, 0x80, 0xEB, 0xA5, 0xBC, 0x20, 0xEC, 0x97, 0xAD, 0xEC, 0xA7,
     0x81, 0xEB, 0xA0, 0xAC, 0xED, 0x99, 0x94, 0xED, 0x95, 0x98, 0xEC, 0xA7, 0x80, 0x20, 0xEB,
     0xAA, 0xBB, 0xED, 0x96, 0x88, 0xEC, 0x8A, 0xB5, 0xEB, 0x8B, 0x88, 0xEB, 0x8B, 0xA4, 0x2E :: nat]"

definition text_unhandled :: string where
  "text_unhandled = map char_of [0xEC, 0x84, 0x9C, 0xEB, 0xB2, 0x84, 0xEA, 0xB0, 0x80, 0x20, 0xEC, 0xB2, 0x98, 0xEB, 0xA6, 0xAC,
     0xED, 0x95, 0x98, 0xEC, 0xA7, 0x80, 0x20, 0xEC, 0x95, 0x8A, 0xEB, 0x8A, 0x94, 0x20, 0x70,
     0x61, 0x79, 0x6C, 0x6F, 0x61, 0x64, 0x20, 0xED, 0x83, 0x80, 0xEC, 0x9E, 0x85, 0xEC, 0x9E,
     0x85, 0xEB, 0x8B, 0x88, 0xEB, 0x8B, 0xA4, 0x2E :: nat]"

definition DecodeProtocolPacket ::
    "flatbuffers \<Rightarrow> u32 \<Rightarrow> bytes \<Rightarrow> ServerEvent list \<Rightarrow> ServerEvent list" where
  "DecodeProtocolPacket f sid data events =
     (if \<not> fb_verify f data then events @ [InvalidPacketEvent sid text_not_message]
      else case fb_root f data of
          None \<Rightarrow> events @ [InvalidPacketEvent sid text_no_root]
        | Some message \<Rightarrow>
            if payload_type message = MessagePayload_LoginRequest then
              (case payload_as_LoginRequest message of
                 None \<Rightarrow> events
               | Some name \<Rightarrow> events @ [LoginRequestEvent sid (request_id message) (ToUtf8 name)])
            else if payload_type message = MessagePayload_RoomListRequest then
              events @ [RoomListRequestEvent sid (request_id message)]
            else if payload_type message = MessagePayload_JoinRoomRequest then
              (case payload_as_JoinRoomRequest message of
                 None \<Rightarrow> events
               | Some rid \<Rightarrow> events @ [JoinRoomRequestEvent sid (request_id message) rid])
            else if payload_type message = MessagePayload_ChatSendRequest then
              (case payload_as_ChatSendRequest message of
                 None \<Rightarrow> events
               | Some content \<Rightarrow>
                   events @ [ChatSendRequestEvent sid (request_id message) (ToUtf8 content)])
            else if payload_type message = MessagePayload_LeaveRoomRequest then
              events @ [LeaveRoomRequestEvent sid (request_id message)]
            else if payload_type message = MessagePayload_DisconnectRequest then
              events @ [DisconnectRequestEvent sid (request_id message)]
            else events @ [InvalidPacketEvent sid text_unhandled])"

text \<open>The \<^verbatim>\<open>switch\<close> of \<^verbatim>\<open>Receive\<close>.\<close>

definition receive_packet :: "flatbuffers \<Rightarrow> Packet \<Rightarrow> ServerEvent list \<Rightarrow> ServerEvent list" where
  "receive_packet f packet events =
     (case packet_type packet of
        Connect \<Rightarrow> events @ [SessionConnectedEvent (packet_session_id packet)]
      | Disconnect \<Rightarrow> events @ [SessionDisconnectedEvent (packet_session_id packet)]
      | Data \<Rightarrow> DecodeProtocolPacket f (packet_session_id packet) (packet_data packet) events)"

function receive_loop :: "flatbuffers \<Rightarrow> ServerEvent list \<Rightarrow> Impl \<Rightarrow> ServerEvent list \<times> Impl" where
  "receive_loop f events s =
     (case poll_packet s of
        (None, s') \<Rightarrow> (events, s')
      | (Some packet, s') \<Rightarrow> receive_loop f (receive_packet f packet events) s')"
  by pat_completeness auto
termination
  by (relation "measure (\<lambda>(_, _, s). length (packet_queue s))")
     (auto simp: poll_packet_def split: list.splits)

definition Receive :: "flatbuffers \<Rightarrow> Impl \<Rightarrow> ServerEvent list \<times> Impl" where
  "Receive f s = receive_loop f [] s"

definition Flush :: "OutgoingMessage list \<Rightarrow> u32 list \<Rightarrow> Impl \<Rightarrow> Impl" where
  "Flush msgs pending s =
     fold disconnect pending (fold (\<lambda>m. Server_send (session_id_O m) (payload_O m)) msgs s)"

section \<open>The main loop\<close>

text \<open>
  Where the game thread is in its round: polling, with the events made so far, or handing over
  the messages and disconnections it has taken.  \<open>seen\<close> is a history variable: the events given to
  \<^verbatim>\<open>Update\<close> so far.
\<close>

datatype phase = Receiving "ServerEvent list" | Flushing "OutgoingMessage list" "u32 list"

record world =
  network :: Impl
  game :: GameLogicSystem
  phase :: phase
  seen :: "ServerEvent list"

definition world_of :: "env \<Rightarrow> Impl \<Rightarrow> world" where
  "world_of E n =
     \<lparr>network = n, game = GameLogicSystem_init (RoomSystem_init (iter_order E)),
      phase = Receiving [], seen = []\<rparr>"

text \<open>\<^verbatim>\<open>main\<close> up to its loop: the text it prints to the error stream, or the program that starts.\<close>

definition server_port :: u16 where "server_port = 12345"

definition main_start :: "env \<Rightarrow> server_env \<Rightarrow> listen_results \<Rightarrow> string + world" where
  "main_start E S os =
     (case create S server_port os of Inl e \<Rightarrow> Inl e | Inr n \<Rightarrow> Inr (world_of E n))"

definition world_init :: "env \<Rightarrow> server_env \<Rightarrow> world" where
  "world_init E S = world_of E (server_start S)"

text \<open>One round of the loop; \<open>None\<close> stands for a null pointer dereferenced in \<^verbatim>\<open>Update\<close>.\<close>

definition tick :: "env \<Rightarrow> world \<Rightarrow> world option" where
  "tick E w =
     (let (events, n1) = Receive (fb E) (network w)
      in case Update E events (game w) of
          None \<Rightarrow> None
        | Some g1 \<Rightarrow>
            let (msgs, g2) = TakeOutgoingMessages g1;
                (pending, g3) = TakePendingDisconnects g2
            in Some (w\<lparr>network := Flush msgs pending n1, game := g3, seen := seen w @ events\<rparr>))"

text \<open>The same round, one call on the transport at a time.\<close>

definition game_step :: "env \<Rightarrow> world \<Rightarrow> world option" where
  "game_step E w =
     (case phase w of
        Receiving events \<Rightarrow>
          (case poll_packet (network w) of
             (Some packet, n) \<Rightarrow>
               Some (w\<lparr>network := n, phase := Receiving (receive_packet (fb E) packet events)\<rparr>)
           | (None, n) \<Rightarrow>
               (case Update E events (game w) of
                  None \<Rightarrow> None
                | Some g1 \<Rightarrow>
                    let (msgs, g2) = TakeOutgoingMessages g1;
                        (pending, g3) = TakePendingDisconnects g2
                    in Some (w\<lparr>network := n, game := g3, seen := seen w @ events,
                               phase := Flushing msgs pending\<rparr>)))
      | Flushing (m # msgs) pending \<Rightarrow>
          Some (w\<lparr>network := Server_send (session_id_O m) (payload_O m) (network w),
                  phase := Flushing msgs pending\<rparr>)
      | Flushing [] (sid # pending) \<Rightarrow>
          Some (w\<lparr>network := disconnect sid (network w), phase := Flushing [] pending\<rparr>)
      | Flushing [] [] \<Rightarrow> Some (w\<lparr>phase := Receiving []\<rparr>))"

text \<open>
  The game thread and the I/O threads take turns in any order.  The loop of \<^verbatim>\<open>main\<close> has no end, so
  the program never shuts the server down.
\<close>

datatype world_event = Game | Net server_event

fun io_event :: "server_event \<Rightarrow> bool" where
  "io_event (AcceptDone _ _ _ _) = True"
| "io_event (SessionStep _ _ _) = True"
| "io_event RunServerTask = True"
| "io_event (ServerThread _) = True"
| "io_event _ = False"

fun world_step :: "env \<Rightarrow> server_env \<Rightarrow> world_event \<Rightarrow> world \<Rightarrow> world option" where
  "world_step E S Game w = game_step E w"
| "world_step E S (Net e) w =
     Some (if io_event e then w\<lparr>network := server_attempt S e (network w)\<rparr> else w)"

fun world_run :: "env \<Rightarrow> server_env \<Rightarrow> world_event list \<Rightarrow> world \<Rightarrow> world option" where
  "world_run E S [] w = Some w"
| "world_run E S (e # es) w =
     (case world_step E S e w of None \<Rightarrow> None | Some w' \<Rightarrow> world_run E S es w')"

text \<open>The events the game thread has made in this round and not yet given to \<^verbatim>\<open>Update\<close>.\<close>

definition unhandled :: "world \<Rightarrow> ServerEvent list" where
  "unhandled w = (case phase w of Receiving events \<Rightarrow> events | Flushing _ _ \<Rightarrow> [])"

section \<open>Specifications\<close>

text \<open>The event a well-formed client message stands for.\<close>

fun request_event :: "u32 \<Rightarrow> u32 \<Rightarrow> payload_table \<Rightarrow> ServerEvent" where
  "request_event sid rq (LoginRequest name) = LoginRequestEvent sid rq (ToUtf8 name)"
| "request_event sid rq RoomListRequest = RoomListRequestEvent sid rq"
| "request_event sid rq (JoinRoomRequest rid) = JoinRoomRequestEvent sid rq rid"
| "request_event sid rq (ChatSendRequest content) = ChatSendRequestEvent sid rq (ToUtf8 content)"
| "request_event sid rq LeaveRoomRequest = LeaveRoomRequestEvent sid rq"
| "request_event sid rq DisconnectRequest = DisconnectRequestEvent sid rq"
| "request_event sid rq _ = InvalidPacketEvent sid text_unhandled"

text \<open>The events of one packet, none or one.\<close>

definition packet_events :: "flatbuffers \<Rightarrow> Packet \<Rightarrow> ServerEvent list" where
  "packet_events f packet = receive_packet f packet []"

section \<open>Lemmas\<close>

lemma DecodeProtocolPacket_append:
  "DecodeProtocolPacket f sid d events = events @ DecodeProtocolPacket f sid d []"
  by (auto simp: DecodeProtocolPacket_def split: option.split)

lemma DecodeProtocolPacket_built:
  assumes "fb_ok f" and "buildable p"
  shows "DecodeProtocolPacket f sid (BuildMessage f rq (MessagePayloadTraits p) p) events =
    events @ [request_event sid rq p]"
  using BuildMessage_ok(2,3) [OF assms(1) refl assms(2), of rq]
  by (cases p) (simp_all add: DecodeProtocolPacket_def payload_as_defs payload_tags)

lemma receive_packet_append: "receive_packet f p events = events @ packet_events f p"
  using DecodeProtocolPacket_append [of f "packet_session_id p" "packet_data p" events]
  by (cases "packet_type p") (simp_all add: receive_packet_def packet_events_def)

lemma decode_attribution:
  "length (DecodeProtocolPacket f sid d []) \<le> 1 \<and>
   (\<forall>e \<in> set (DecodeProtocolPacket f sid d []). event_session e = sid
      \<and> e \<noteq> SessionConnectedEvent sid \<and> e \<noteq> SessionDisconnectedEvent sid)"
  by (auto simp: DecodeProtocolPacket_def split: option.split)

declare receive_loop.simps [simp del]

lemma receive_loop_eq:
  "receive_loop f events s =
     (events @ concat (map (packet_events f) (packet_queue s)),
      s\<lparr>packet_queue := [], polled := polled s @ packet_queue s\<rparr>)"
proof (induction "packet_queue s" arbitrary: events s)
  case Nil
  then show ?case by (subst receive_loop.simps) (simp add: poll_packet_def flip: Nil)
next
  case (Cons p ps)
  have "receive_loop f events s =
      receive_loop f (events @ packet_events f p) (s\<lparr>packet_queue := ps, polled := polled s @ [p]\<rparr>)"
    by (subst receive_loop.simps) (simp add: poll_packet_def receive_packet_append flip: Cons.hyps(2))
  also have "\<dots> = (events @ packet_events f p @ concat (map (packet_events f) ps),
      s\<lparr>packet_queue := [], polled := polled s @ p # ps\<rparr>)"
    using Cons.hyps(1) [of "s\<lparr>packet_queue := ps, polled := polled s @ [p]\<rparr>"] by simp
  finally show ?case by (simp flip: Cons.hyps(2))
qed

lemma Receive_eq:
  "Receive f s = (concat (map (packet_events f) (packet_queue s)),
     s\<lparr>packet_queue := [], polled := polled s @ packet_queue s\<rparr>)"
  by (simp add: Receive_def receive_loop_eq)

text \<open>The effect of a tick: it always returns.\<close>

lemma tick_eq:
  fixes E w
  defines "events \<equiv> concat (map (packet_events (fb E)) (packet_queue (network w)))"
  defines "g \<equiv> fold (step E) events (game w)"
  shows "tick E w = Some (w
    \<lparr>network := Flush (outgoing_messages g) (pending_disconnects g)
        ((network w)\<lparr>packet_queue := [], polled := polled (network w) @ packet_queue (network w)\<rparr>),
     game := g\<lparr>outgoing_messages := [], pending_disconnects := []\<rparr>,
     seen := seen w @ events\<rparr>)"
  unfolding g_def events_def
  by (simp add: tick_def Receive_eq Update_run TakeOutgoingMessages_def TakePendingDisconnects_def)

lemma packet_queue_flush:
  "packet_queue (Flush msgs pending s) = packet_queue s" "polled (Flush msgs pending s) = polled s"
proof -
  have d: "packet_queue (fold disconnect xs s') = packet_queue s' \<and> polled (fold disconnect xs s') = polled s'" for xs s'
    by (induction xs arbitrary: s') (simp_all add: disconnect_def)
  have m: "packet_queue (fold (\<lambda>m. Server_send (session_id_O m) (payload_O m)) xs s') = packet_queue s'
      \<and> polled (fold (\<lambda>m. Server_send (session_id_O m) (payload_O m)) xs s') = polled s'" for xs :: "OutgoingMessage list" and s'
    by (induction xs arbitrary: s') (auto simp: Server_send_def Let_def split: option.split)
  show "packet_queue (Flush msgs pending s) = packet_queue s" "polled (Flush msgs pending s) = polled s"
    by (simp_all add: Flush_def d m)
qed

text \<open>The steps of the game thread alone make up a tick.\<close>

lemma world_run_append:
  "world_run E S (es @ es') w = (case world_run E S es w of None \<Rightarrow> None | Some w' \<Rightarrow> world_run E S es' w')"
  by (induction es arbitrary: w) (auto split: option.split)

lemma game_steps_receive:
  "phase w = Receiving events \<Longrightarrow>
   world_run E S (replicate (length (packet_queue (network w))) Game) w =
     Some (w\<lparr>network := (network w)\<lparr>packet_queue := [], polled := polled (network w) @ packet_queue (network w)\<rparr>,
             phase := Receiving (events @ concat (map (packet_events (fb E)) (packet_queue (network w))))\<rparr>)"
proof (induction "packet_queue (network w)" arbitrary: w events)
  case Nil
  then show ?case by (simp flip: Nil.hyps)
next
  case (Cons p ps)
  let ?n = "(network w)\<lparr>packet_queue := ps, polled := polled (network w) @ [p]\<rparr>"
  let ?w = "w\<lparr>network := ?n, phase := Receiving (events @ packet_events (fb E) p)\<rparr>"
  have "game_step E w = Some ?w"
    using Cons.prems
    by (simp add: game_step_def poll_packet_def receive_packet_append flip: Cons.hyps(2))
  moreover have "ps = packet_queue (network ?w)" "phase ?w = Receiving (events @ packet_events (fb E) p)"
    by simp_all
  note Cons.hyps(1) [OF this]
  ultimately show ?case by (simp flip: Cons.hyps(2))
qed

lemma game_steps_flush:
  "phase w = Flushing msgs pending \<Longrightarrow>
   world_run E S (replicate (length msgs + length pending) Game) w =
     Some (w\<lparr>network := Flush msgs pending (network w), phase := Flushing [] []\<rparr>)"
proof (induction msgs arbitrary: w)
  case Nil
  then show ?case
  proof (induction pending arbitrary: w)
    case (Cons sid pending)
    let ?w = "w\<lparr>network := disconnect sid (network w), phase := Flushing [] pending\<rparr>"
    have "game_step E w = Some ?w" using Cons.prems by (simp add: game_step_def)
    then show ?case using Cons.IH [of ?w] by (simp add: Flush_def)
  qed (simp add: Flush_def)
next
  case (Cons m msgs)
  let ?w = "w\<lparr>network := Server_send (session_id_O m) (payload_O m) (network w), phase := Flushing msgs pending\<rparr>"
  have "game_step E w = Some ?w" using Cons.prems by (simp add: game_step_def)
  then show ?case using Cons.IH [of ?w] by (simp add: Flush_def)
qed

lemma game_steps_tick:
  assumes "phase w = Receiving []"
  shows "\<exists>k. world_run E S (replicate k Game) w = tick E w"
proof -
  let ?q = "packet_queue (network w)"
  let ?events = "concat (map (packet_events (fb E)) ?q)"
  let ?g = "fold (step E) ?events (game w)"
  let ?n = "(network w)\<lparr>packet_queue := [], polled := polled (network w) @ ?q\<rparr>"
  let ?w1 = "w\<lparr>network := ?n, phase := Receiving ?events\<rparr>"
  let ?w2 = "?w1\<lparr>game := ?g\<lparr>outgoing_messages := [], pending_disconnects := []\<rparr>, seen := seen w @ ?events,
      phase := Flushing (outgoing_messages ?g) (pending_disconnects ?g)\<rparr>"
  have "game_step E ?w1 = Some ?w2"
    by (simp add: game_step_def poll_packet_def Update_run TakeOutgoingMessages_def TakePendingDisconnects_def)
  then have "world_run E S (replicate (length ?q) Game @ [Game]
      @ replicate (length (outgoing_messages ?g) + length (pending_disconnects ?g)) Game @ [Game]) w = tick E w"
    using game_steps_receive [OF assms, of E S]
      game_steps_flush [of ?w2 "outgoing_messages ?g" "pending_disconnects ?g" E S] assms
    by (simp add: world_run_append game_step_def tick_eq del: replicate_Suc)
  then show ?thesis by (metis replicate_Suc replicate_0 replicate_add append_Cons append_Nil)
qed

text \<open>
  The invariant of the program: both halves are in order, the chat logic's queues are empty
  between its calls, and the events it was given and will be given in this round are those of the
  packets taken.
\<close>

definition packets_events :: "flatbuffers \<Rightarrow> Packet list \<Rightarrow> ServerEvent list" where
  "packets_events f ps = concat (map (packet_events f) ps)"

definition world_inv :: "env \<Rightarrow> world \<Rightarrow> bool" where
  "world_inv E w \<longleftrightarrow>
     server_inv (network w) \<and> book_inv (network w) \<and> game_inv (game w)
     \<and> outgoing_messages (game w) = [] \<and> pending_disconnects (game w) = []
     \<and> rs_abs (room_system (game w)) = fold reg_step (seen w) Map.empty
     \<and> seen w @ unhandled w = packets_events (fb E) (polled (network w))
     \<and> \<not> shutting_down (network w)"

lemma io_frame:
  assumes "io_event e"
  shows "shutting_down (server_attempt S e s) = shutting_down s"
    and "polled (server_attempt S e s) = polled s"
  using assms
  by (cases e; auto simp: server_attempt_def accept_frame task_frame session_step_def callbacks_frame
      Let_def split: list.split)+

lemma packets_events_append [simp]:
  "packets_events f (ps @ qs) = packets_events f ps @ packets_events f qs"
  by (simp add: packets_events_def)

text \<open>The calls of the game thread are events of the transport that are always possible.\<close>

lemma api_attempts:
  "server_attempt S ApiPoll s = snd (poll_packet s)"
  "server_attempt S (ApiSend sid d) s = Server_send sid d s"
  "server_attempt S (ApiDisconnect sid) s = disconnect sid s"
  by (simp_all add: server_attempt_def)

lemma api_frame:
  "shutting_down (snd (poll_packet s)) = shutting_down s"
  "shutting_down (Server_send sid d s) = shutting_down s" "polled (Server_send sid d s) = polled s"
  "shutting_down (disconnect sid s) = shutting_down s" "polled (disconnect sid s) = polled s"
  by (auto simp: poll_packet_def Server_send_def disconnect_def Let_def split: list.split option.split)

lemma api_inv:
  assumes "server_inv s \<and> book_inv s"
  shows "server_inv (snd (poll_packet s)) \<and> book_inv (snd (poll_packet s))"
    and "server_inv (Server_send sid d s) \<and> book_inv (Server_send sid d s)"
    and "server_inv (disconnect sid s) \<and> book_inv (disconnect sid s)"
  using sv.step_invar [OF assms] unfolding api_attempts [of undefined, symmetric] by blast+

lemma world_inv_poll:
  assumes inv: "world_inv E w" and ph: "phase w = Receiving events"
    and poll: "poll_packet (network w) = (Some packet, n)"
  shows "world_inv E (w\<lparr>network := n, phase := Receiving (receive_packet (fb E) packet events)\<rparr>)"
proof -
  have "n = snd (poll_packet (network w))" "polled n = polled (network w) @ [packet]"
    using poll by (auto simp: poll_packet_def split: list.splits)
  then show ?thesis
    using inv ph api_inv(1) [of "network w"] api_frame(1) [of "network w"]
    by (auto simp: world_inv_def unhandled_def receive_packet_append packets_events_def simp flip: append_assoc)
qed

lemma world_inv_update:
  assumes inv: "world_inv E w" and ph: "phase w = Receiving events"
    and "g = fold (step E) events (game w)"
  shows "world_inv E (w\<lparr>game := g\<lparr>outgoing_messages := [], pending_disconnects := []\<rparr>,
    seen := seen w @ events, phase := Flushing msgs pending\<rparr>)"
proof -
  have "game_inv g" unfolding assms(3) using inv by (intro gl.run_invar) (simp add: world_inv_def)
  moreover have "rs_abs (room_system g) = fold reg_step events (rs_abs (room_system (game w)))"
    unfolding assms(3) using inv by (intro run_refines) (simp add: world_inv_def game_inv_def)
  moreover have "fold reg_step (seen w @ events) Map.empty = fold reg_step events (fold reg_step (seen w) Map.empty)"
    by simp
  ultimately show ?thesis
    using inv ph unfolding world_inv_def game_inv_def unhandled_def
    by (simp del: fold_append add: fold_append [symmetric])
qed

lemma world_inv_game_step:
  assumes inv: "world_inv E w"
  shows "\<exists>w'. game_step E w = Some w' \<and> world_inv E w'"
proof (cases "phase w")
  case (Receiving events)
  show ?thesis
  proof (cases "poll_packet (network w)")
    case (Pair r n)
    show ?thesis
    proof (cases r)
      case None
      then have "n = network w" using Pair by (auto simp: poll_packet_def split: list.splits)
      then show ?thesis
        using world_inv_update [OF inv Receiving refl] Receiving Pair None
        by (simp add: game_step_def Update_run TakeOutgoingMessages_def TakePendingDisconnects_def)
    next
      case (Some packet)
      then show ?thesis
        using world_inv_poll [OF inv Receiving] Receiving Pair by (simp add: game_step_def)
    qed
  qed
next
  case (Flushing msgs pending)
  have "server_inv (network w) \<and> book_inv (network w)" using inv by (simp add: world_inv_def)
  note api = api_inv(2,3) [OF this]
  show ?thesis
    using inv api Flushing
    by (cases msgs; cases pending) (simp_all add: game_step_def world_inv_def unhandled_def api_frame)
qed

lemma world_inv_step:
  assumes inv: "world_inv E w"
  shows "\<exists>w'. world_step E S e w = Some w' \<and> world_inv E w'"
proof (cases e)
  case Game
  then show ?thesis using world_inv_game_step [OF inv] by simp
next
  case (Net ev)
  have "server_inv (server_attempt S ev (network w)) \<and> book_inv (server_attempt S ev (network w))"
    using inv by (intro sv.step_invar) (simp add: world_inv_def)
  then show ?thesis
    using Net inv by (cases "io_event ev") (auto simp: world_inv_def io_frame unhandled_def)
qed

lemma world_inv_init: "world_inv E (world_init E S)"
  using server_run_invs [of S "[]"] game_inv_init [of "iter_order E"]
  by (simp add: world_inv_def world_init_def world_of_def server_run_def packets_events_def unhandled_def
      GameLogicSystem_init_def rs_abs_init server_start_def start_threads_def do_accept_def Impl_init_def)

lemma world_run_inv:
  assumes "world_inv E w"
  shows "\<exists>w'. world_run E S es w = Some w' \<and> world_inv E w'"
  using assms
proof (induction es arbitrary: w)
  case (Cons e es)
  from world_inv_step [OF Cons.prems, of S e] obtain w1 where "world_step E S e w = Some w1" "world_inv E w1"
    by blast
  then show ?case using Cons.IH by simp
qed simp

lemma main_start_eq:
  "main_start E S os = Inr w \<longleftrightarrow>
     open_ec os = None \<and> option_ec os = None \<and> bind_ec os 12345 = None \<and> listen_ec os = None
     \<and> w = world_init E S"
  by (auto simp: main_start_def world_init_def server_port_def create_def listen_def server_start_def
      split: sum.splits option.splits)

section \<open>Who the chat logic knows\<close>

text \<open>Whether a session is registered depends on its own events only.\<close>

fun present_step :: "u32 \<Rightarrow> ServerEvent \<Rightarrow> bool \<Rightarrow> bool" where
  "present_step sid (SessionConnectedEvent i) b = (b \<or> i = sid)"
| "present_step sid (SessionDisconnectedEvent i) b = (b \<and> i \<noteq> sid)"
| "present_step sid (DisconnectRequestEvent i _) b = (b \<and> i \<noteq> sid)"
| "present_step sid _ b = b"

definition leaves :: "u32 \<Rightarrow> ServerEvent \<Rightarrow> bool" where
  "leaves sid e \<longleftrightarrow> \<not> present_step sid e True"

lemma reg_step_present: "reg_step e a sid \<noteq> None \<longleftrightarrow> present_step sid e (a sid \<noteq> None)"
  by (cases e) (auto simp: reg_add_def reg_remove_def reg_leave_def reg_join_def reg_login_def
      split: option.splits prod.splits)

lemma reg_run_present: "fold reg_step es a sid \<noteq> None \<longleftrightarrow> fold (present_step sid) es (a sid \<noteq> None)"
proof (induction es arbitrary: a)
  case (Cons e es)
  show ?case unfolding fold_simps Cons.IH reg_step_present comp_apply ..
qed simp

lemma present_other: "event_session e \<noteq> sid \<Longrightarrow> present_step sid e b = b"
  by (cases e) auto

lemma present_filter:
  "fold (present_step sid) es b = fold (present_step sid) (filter (\<lambda>e. event_session e = sid) es) b"
  by (induction es arbitrary: b) (auto simp: present_other)

lemma present_no_connect:
  assumes "\<forall>e \<in> set es. e \<noteq> SessionConnectedEvent sid"
  shows "fold (present_step sid) es b \<longleftrightarrow> b \<and> (\<forall>e \<in> set es. \<not> leaves sid e)"
  using assms
proof (induction es arbitrary: b)
  case (Cons e es)
  moreover have "present_step sid e b \<longleftrightarrow> b \<and> \<not> leaves sid e"
    using Cons.prems by (cases e) (auto simp: leaves_def)
  ultimately show ?case by auto
qed simp

lemma packet_events_session: "e \<in> set (packet_events f p) \<Longrightarrow> event_session e = packet_session_id p"
  using decode_attribution [of f "packet_session_id p" "packet_data p"]
  by (cases "packet_type p") (auto simp: packet_events_def receive_packet_def)

lemma events_of_session:
  "filter (\<lambda>e. event_session e = sid) (packets_events f ps) = packets_events f (packets_of sid ps)"
proof (induction ps)
  case (Cons p ps)
  have "filter (\<lambda>e. event_session e = sid) (packet_events f p) =
      (if packet_session_id p = sid then packet_events f p else [])"
    using packet_events_session [of _ f p] by (auto simp: filter_id_conv filter_empty_conv)
  with Cons show ?case by (simp add: packets_events_def packets_of_def)
qed (simp add: packets_events_def packets_of_def)

text \<open>A payload that its sender means as a request to be disconnected.\<close>

definition asks_disconnect :: "flatbuffers \<Rightarrow> u32 \<Rightarrow> bytes \<Rightarrow> bool" where
  "asks_disconnect f sid p = list_ex (leaves sid) (DecodeProtocolPacket f sid p [])"

lemma callback_events:
  assumes "callback_id cb = sid"
  shows "SessionConnectedEvent sid \<notin> set (packet_events f (packet_of cb))"
    and "list_ex (leaves sid) (packet_events f (packet_of cb)) \<longleftrightarrow>
      is_OnClose cb \<or> (\<exists>p. cb = OnReceive sid p \<and> asks_disconnect f sid p)"
  using assms decode_attribution [of f sid]
  by (cases cb; auto simp: packet_events_def receive_packet_def asks_disconnect_def leaves_def)+

lemma received_iff: "p \<in> set (received cs) \<longleftrightarrow> (\<exists>i. OnReceive i p \<in> set cs)"
  by (induction cs rule: received.induct) auto

text \<open>After all packets of a session were processed and none was lost.\<close>

lemma present_after_calls:
  assumes ids: "\<forall>cb \<in> set cs. callback_id cb = sid"
  shows "fold (present_step sid) (packets_events f (connect_packet sid # map packet_of cs)) False \<longleftrightarrow>
    \<not> list_ex is_OnClose cs \<and> \<not> list_ex (asks_disconnect f sid) (received cs)"
proof -
  let ?es = "packets_events f (map packet_of cs)"
  have "fold (present_step sid) (packets_events f (connect_packet sid # map packet_of cs)) False =
      fold (present_step sid) ?es True"
    by (simp add: packets_events_def packet_events_def receive_packet_def connect_packet_def)
  also have "\<dots> \<longleftrightarrow> (\<forall>e \<in> set ?es. \<not> leaves sid e)"
    using present_no_connect [of ?es sid True] callback_events(1) ids by (fastforce simp: packets_events_def)
  also have "\<dots> \<longleftrightarrow> (\<forall>cb \<in> set cs. \<not> list_ex (leaves sid) (packet_events f (packet_of cb)))"
    by (auto simp: packets_events_def list_ex_iff)
  also have "\<dots> \<longleftrightarrow> (\<forall>cb \<in> set cs. \<not> is_OnClose cb \<and> \<not> (\<exists>p. cb = OnReceive sid p \<and> asks_disconnect f sid p))"
    using callback_events(2) ids by auto
  also have "\<dots> \<longleftrightarrow> \<not> list_ex is_OnClose cs \<and> \<not> list_ex (asks_disconnect f sid) (received cs)"
    using ids by (fastforce simp: list_ex_iff received_iff)
  finally show ?thesis .
qed

end
