(* ===== verification/Server_Properties.thy ===== *)
theory Server_Properties
  imports Network_System Server_Shutdown Example_Codec
begin

text \<open>
  The properties of the transport server, of the bridge to the chat logic and of the whole server
  program, with a small example run: a client connects, sends a login request and goes away.
\<close>

section \<open>Example\<close>

definition example_server_env :: server_env where
  "example_server_env = \<lparr>push_ok = (\<lambda>n. n < 8192), hardware_concurrency = 8, table_order = rev\<rparr>"

definition example_net_env :: env where
  "example_net_env = \<lparr>fb = example_fb, now_ms = of_nat, iter_order = rev\<rparr>"

text \<open>A server that has accepted one connection, whose peer then broke it off.\<close>

definition example_net_events :: "server_event list" where
  "example_net_events = [AcceptDone False 100 [] 0, SessionStep 0 HeaderFailed 0]"

lemma example_server_run:
  "packet_queue (server_run example_server_env example_net_events) =
     [connect_packet 1, \<lparr>packet_type = Disconnect, packet_session_id = 1, packet_data = []\<rparr>]"
  "length (heap (server_run example_server_env example_net_events)) = 1"
  "closed (heap (server_run example_server_env example_net_events) ! 0)"
  "id_S (heap (server_run example_server_env example_net_events) ! 0) = 1"
  "calls (heap (server_run example_server_env example_net_events) ! 0) = [OnClose 1]"
  "issued (server_run example_server_env example_net_events) = 1"
  "lost (server_run example_server_env example_net_events) = 0"
  "polled (server_run example_server_env example_net_events) = []"
  "shutting_down (server_run example_server_env example_net_events) = False"
  "server_strand (server_run example_server_env example_net_events) = [EraseSession 1]"
  by (simp_all add: server_run_def example_net_events_def example_server_env_def server_attempt_def
      server_start_def start_threads_def do_accept_def Impl_init_def on_accept_def load_flag_def push_packet_def session_step_def
      started_def start_def Session_init_def Session.extend_def SessionRun.extend_def handler_defs
      on_header_read_def connect_packet_def Let_def)

section \<open>The transport server\<close>

lemma run_session_inv:
  assumes "c \<in> set (heap (server_run E es))"
  shows "session_inv c"
  using server_run_invs [of E es] assms by (simp add: server_inv_def conn_ok_def)

lemma run_book:
  assumes "issued (server_run E es) < 2 ^ 32 - 1" and "a < length (heap (server_run E es))"
  shows "session_book (lost (server_run E es) = 0 \<and> \<not> shutting_down (server_run E es))
    (session_table (server_run E es)) (pushed (server_run E es))
    (erases (server_strand (server_run E es))) a (ident (heap (server_run E es) ! a))"
  using server_run_invs [of E es] assms by (simp add: book_inv_def book_rel_def)

text \<open>
  C22: In every state the server can reach, whatever clients, network and game thread do, no frame
  was built or copied outside its buffer, no session has made an undefined memory access, and
  every entry of the session table points to the session object that has that id; no id has two
  entries.
\<close>

theorem server_keeps_invariant:
  "\<not> server_fault (server_run E es)
   \<and> list_all (\<lambda>c. \<not> fault c \<and> length (write_queue c) \<le> 1024) (heap (server_run E es))
   \<and> list_all (\<lambda>(sid, a). a < length (heap (server_run E es)) \<and> id_S (heap (server_run E es) ! a) = sid)
       (session_table (server_run E es))
   \<and> distinct (um_keys (session_table (server_run E es)))"
proof -
  let ?s = "server_run E es"
  have inv: "server_inv ?s" using server_run_invs by simp
  then have "list_all (\<lambda>(sid, a). a < length (heap ?s) \<and> id_S (heap ?s ! a) = sid) (session_table ?s)"
    by (auto simp: list_all_iff server_inv_def um_find_in_set [symmetric])
  moreover have "list_all (\<lambda>c. \<not> fault c \<and> length (write_queue c) \<le> 1024) (heap ?s)"
    using run_session_inv
    by (auto simp: list_all_iff session_inv_defs MAX_PENDING_WRITE_FRAMES_def)
  ultimately show ?thesis
    using inv by (simp add: server_inv_def um_distinct_def)
qed

text \<open>
  C23: What the game thread is told about a session: first its connection, then its payloads in the
  order they arrived and its disconnection at the point it closed, each at most once and nothing
  else; and all of it, if the queue was never full and the server is not shutting down.  A
  payload may follow the disconnection, when it had been read before the session closed.
\<close>

theorem session_packets_in_order:
  assumes "issued (server_run E es) < 2 ^ 32 - 1" and "a < length (heap (server_run E es))"
  shows "\<exists>ps. packets_of (id_S (heap (server_run E es) ! a)) (pushed (server_run E es)) =
      connect_packet (id_S (heap (server_run E es) ! a)) # ps
    \<and> subseq ps (map packet_of (calls (heap (server_run E es) ! a)))
    \<and> (lost (server_run E es) = 0 \<and> \<not> shutting_down (server_run E es) \<longrightarrow>
         ps = map packet_of (calls (heap (server_run E es) ! a)))"
  using run_book [OF assms] by (auto simp: session_book_def ident_def)

theorem session_packets_in_order_witness:
  "packets_of 1 (pushed (server_run example_server_env example_net_events)) =
     [connect_packet 1, \<lparr>packet_type = Disconnect, packet_session_id = 1, packet_data = []\<rparr>]"
  using session_packets_in_order [of example_server_env example_net_events 0]
  by (simp add: example_server_run)

text \<open>
  C24: As long as the 32-bit ids have not run out, two session objects never have the same id, and
  the table maps an id to its session exactly while the session is open or the removal of its
  entry is still waiting in the strand.
\<close>

theorem table_tracks_sessions:
  assumes "issued (server_run E es) < 2 ^ 32 - 1" and "a < length (heap (server_run E es))"
  shows "um_find (session_table (server_run E es)) (id_S (heap (server_run E es) ! a)) =
      (if \<not> closed (heap (server_run E es) ! a)
          \<or> EraseSession (id_S (heap (server_run E es) ! a)) \<in> set (server_strand (server_run E es))
       then Some a else None)
    \<and> (\<forall>b < length (heap (server_run E es)).
         id_S (heap (server_run E es) ! b) = id_S (heap (server_run E es) ! a) \<longrightarrow> b = a)"
proof -
  have "i \<in> set (erases ts) \<longleftrightarrow> EraseSession i \<in> set ts" for i ts
    by (induction ts rule: erases.induct) auto
  then show ?thesis
    using run_book [OF assms] book_ids_distinct [OF _ assms(1) _ assms(2)] server_run_invs
    by (auto simp: session_book_def ident_def)
qed

theorem table_tracks_sessions_witness:
  "um_find (session_table (server_run example_server_env example_net_events)) 1 = Some 0"
  using table_tracks_sessions [of example_server_env example_net_events 0]
  by (simp add: example_server_run)

section \<open>Calls of the game thread\<close>

lemma Server_send_eq:
  assumes "pool_ok (server_pool s)" and "sendable_payload p" and "\<not> shutting_down s"
  shows "Server_send sid p s = s\<lparr>server_pool := butlast (server_pool s),
    server_strand := server_strand s @ [SendFrame sid \<lparr>buf_data = frame_of p, buf_capacity = BLOCK_SIZE\<rparr>]\<rparr>"
  using assms(2,3) build_data_frame_eq [OF assms(1,2)]
  by (simp add: Server_send_def sendable_payload_def not_less Let_def)

text \<open>
  C25: \<^verbatim>\<open>Server::send\<close> followed by the function it posts: a payload of 1 to 2048 bytes is handed, as
  its frame, to the session with that id and to no other; with no such session nothing happens
  to any session; any other payload is ignored at once.
\<close>

theorem send_reaches_session:
  assumes "s = server_run E es" and "\<not> shutting_down s" and "\<not> io_stopped s" and "server_strand s = []"
  shows "(if 1 \<le> length p \<and> length p \<le> 2048
     then heap (server_attempt E RunServerTask (Server_send sid p s)) =
       (case um_find (session_table s) sid of
          None \<Rightarrow> heap s
        | Some a \<Rightarrow> (heap s)[a := (heap s ! a)
            \<lparr>strand := strand (heap s ! a)
                 @ [EnqueueWrite \<lparr>buf_data = frame_of p, buf_capacity = BLOCK_SIZE\<rparr>],
             sent := sent (heap s ! a) @ [p]\<rparr>])
     else Server_send sid p s = s)"
proof (cases "sendable_payload p")
  case True
  have "pool_ok (server_pool s)" using server_run_invs assms(1) by (simp add: server_inv_def)
  note eq = Server_send_eq [OF this True assms(2), of sid]
  show ?thesis
    using True assms(2-4)
    by (auto simp: eq server_attempt_def release_frame_def on_session_def hand_over_def
        enqueue_raw_frame_def sendable_payload_def MAX_PAYLOAD_SIZE_def Suc_le_eq split: option.split)
qed (auto simp: Server_send_def sendable_payload_def MAX_PAYLOAD_SIZE_def)

theorem send_reaches_session_witness:
  "sent (heap (server_attempt example_server_env RunServerTask
      (Server_send 1 [5] (server_run example_server_env [AcceptDone False 100 [] 0]))) ! 0) = [[5]]"
proof -
  let ?s = "server_run example_server_env [AcceptDone False 100 [] 0]"
  have "\<not> shutting_down ?s" "\<not> io_stopped ?s" "server_strand ?s = []" "um_find (session_table ?s) 1 = Some 0"
      "length (heap ?s) = 1" "sent (heap ?s ! 0) = []"
    by (simp_all add: server_run_def example_server_env_def server_attempt_def server_start_def start_threads_def
        do_accept_def Impl_init_def on_accept_def load_flag_def push_packet_def um_finds started_def start_def
        handler_defs Session.extend_def SessionRun.extend_def Let_def)
  then show ?thesis
    using send_reaches_session [of ?s example_server_env "[AcceptDone False 100 [] 0]" "[5]" 1] by simp
qed

lemma broadcast_loop:
  assumes "pool_ok (server_pool s)" and "sendable_payload p" and "distinct (map snd tab)"
    and "\<forall>a \<in> snd ` set tab. a < length (heap s)"
  shows "length (heap (fold (\<lambda>(_, a). broadcast_one (frame_of p) a) tab s)) = length (heap s)
    \<and> (\<forall>b < length (heap s). heap (fold (\<lambda>(_, a). broadcast_one (frame_of p) a) tab s) ! b =
        (if b \<in> snd ` set tab
         then hand_over \<lparr>buf_data = frame_of p, buf_capacity = BLOCK_SIZE\<rparr> (heap s ! b) else heap s ! b))"
  using assms
proof (induction tab arbitrary: s)
  case (Cons x tab)
  obtain k a where x: "x = (k, a)" by (cases x)
  let ?f = "\<lparr>buf_data = frame_of p, buf_capacity = BLOCK_SIZE\<rparr>"
  let ?s = "broadcast_one (frame_of p) a s"
  have "clone_frame (server_pool s) (frame_of p) = Some (?f, butlast (server_pool s))"
    using Cons.prems(1,2)
    by (intro clone_frame_eq) (auto simp: sendable_payload_def BLOCK_SIZE_def HEADER_SIZE_def)
  then have s: "heap ?s = (heap s)[a := hand_over ?f (heap s ! a)]" "pool_ok (server_pool ?s)"
    using Cons.prems(1) by (simp_all add: broadcast_one_def on_session_def)
  have "a \<notin> snd ` set tab" "distinct (map snd tab)" "\<forall>b \<in> snd ` set tab. b < length (heap ?s)"
    using Cons.prems(3,4) by (auto simp: x s)
  with Cons.IH [OF s(2) Cons.prems(2)] show ?case
    by (auto simp: x s nth_list_update) (metis image_eqI snd_conv nth_list_update_neq)
qed simp

lemma table_pointers_distinct:
  assumes "server_inv s"
  shows "distinct (map snd (session_table s))"
proof -
  let ?t = "session_table s"
  have d: "um_distinct ?t" and own: "\<And>k a. (k, a) \<in> set ?t \<Longrightarrow> id_S (heap s ! a) = k"
    using assms by (auto simp: server_inv_def simp flip: um_find_in_set)
  have "distinct ?t" using d by (simp add: um_distinct_def um_keys_def distinct_map)
  moreover have "inj_on snd (set ?t)" 
    by (intro inj_onI) (metis own prod.collapse)
  ultimately show ?thesis by (simp add: distinct_map)
qed

text \<open>
  C3: \<^verbatim>\<open>Server::broadcast\<close> followed by the function it posts: every session of the table is handed
  its own copy of the frame exactly once, after what it was handed before, and no other session is
  touched; an empty or too long payload is ignored at once.
\<close>

theorem broadcast_reaches_all:
  assumes "s = server_run E es" and "\<not> shutting_down s" and "\<not> io_stopped s" and "server_strand s = []"
    and "b < length (heap s)"
  shows "if 1 \<le> length p \<and> length p \<le> 2048
    then length (heap (server_attempt E RunServerTask (broadcast p s))) = length (heap s)
      \<and> heap (server_attempt E RunServerTask (broadcast p s)) ! b =
          (if b \<in> snd ` set (session_table s)
           then (heap s ! b)
             \<lparr>strand := strand (heap s ! b)
                  @ [EnqueueWrite \<lparr>buf_data = frame_of p, buf_capacity = BLOCK_SIZE\<rparr>],
              sent := sent (heap s ! b) @ [p]\<rparr>
           else heap s ! b)
    else broadcast p s = s"
proof (cases "sendable_payload p")
  case p: True
  have inv: "server_inv s" using server_run_invs assms(1) by simp
  have pool: "pool_ok (server_pool s)" using inv by (simp add: server_inv_def)
  let ?f = "\<lparr>buf_data = frame_of p, buf_capacity = BLOCK_SIZE\<rparr>"
  let ?s1 = "s\<lparr>server_pool := butlast (server_pool s)\<rparr>"
  let ?s2 = "fold (\<lambda>(_, a). broadcast_one (frame_of p) a) (session_table s) (?s1\<lparr>server_strand := []\<rparr>)"
  have sb: "broadcast p s = s\<lparr>server_pool := butlast (server_pool s), server_strand := [BroadcastFrame ?f]\<rparr>"
    using p assms(2,4) build_data_frame_eq [OF pool p]
    by (simp add: broadcast_def sendable_payload_def not_less Let_def)
  have run: "server_attempt E RunServerTask (broadcast p s) = release_frame ?f ?s2"
    using assms(2,3) by (simp add: server_attempt_def sb)
  have "length (heap ?s2) = length (heap s)
      \<and> heap ?s2 ! b = (if b \<in> snd ` set (session_table s) then hand_over ?f (heap s ! b) else heap s ! b)"
    using broadcast_loop [of "?s1\<lparr>server_strand := []\<rparr>" p "session_table s"] pool p
      table_pointers_distinct [OF inv] table_entries [OF inv] assms(5) by fastforce
  then show ?thesis
    using p unfolding run
    by (simp add: release_frame_def hand_over_def enqueue_raw_frame_def sendable_payload_def MAX_PAYLOAD_SIZE_def Suc_le_eq)
qed (auto simp: broadcast_def sendable_payload_def MAX_PAYLOAD_SIZE_def)

theorem broadcast_reaches_all_witness:
  "sent (heap (server_attempt example_server_env RunServerTask
      (broadcast [5] (server_run example_server_env [AcceptDone False 100 [] 0, AcceptDone False 200 [] 0]))) ! 1) = [[5]]"
proof -
  let ?s = "server_run example_server_env [AcceptDone False 100 [] 0, AcceptDone False 200 [] 0]"
  have "\<not> shutting_down ?s" "\<not> io_stopped ?s" "server_strand ?s = []" "length (heap ?s) = 2" "sent (heap ?s ! 1) = []"
      "um_find (session_table ?s) 2 = Some 1"
    by (simp_all add: server_run_def example_server_env_def server_attempt_def server_start_def
        start_threads_def do_accept_def Impl_init_def on_accept_def load_flag_def push_packet_def um_finds started_def
        start_def handler_defs Session.extend_def SessionRun.extend_def Let_def)
  moreover from this(6) have "1 \<in> snd ` set (session_table ?s)"
    by (force simp: um_find_def dest: map_of_SomeD)
  ultimately show ?thesis
    using broadcast_reaches_all [of ?s example_server_env "[AcceptDone False 100 [] 0, AcceptDone False 200 [] 0]" 1 "[5]"]
    by simp
qed

text \<open>
  C33: \<^verbatim>\<open>shutdown\<close> does not hang and leaves nothing running.  From the moment it has set its flag, for
  every interleaving of the I/O threads and the game thread: the flag stays set; as soon as one
  more function of the strand has run than waited there, the promise it waits for is fulfilled, the
  acceptor is closed, and every session is closed or has its closing posted (while ids last); a
  packet can still enter the queue only from a handler that had loaded the flag before it was set;
  and once the I/O threads have ended, none can.
\<close>

theorem shutdown_completes:
  fixes E es later
  defines "s \<equiv> server_run E es"
  defines "s' \<equiv> fold (server_attempt E) later (shutdown_begin s)"
  assumes "\<not> shutting_down s" and "\<not> io_stopped s"
  shows "shutting_down s'
    \<and> (length (server_strand s) < count_list later RunServerTask \<longrightarrow>
         shutdown_done s' \<and> \<not> acceptor_open s'
         \<and> (issued s' < 2 ^ 32 - 1 \<longrightarrow>
              list_all (\<lambda>c. closed c \<or> HandleClose \<in> set (strand c)) (heap s')))
    \<and> (list_all fresh_loads later \<longrightarrow> pushed s' = pushed s)
    \<and> (io_stopped s' \<longrightarrow> pushed (fold (server_attempt E) afterwards s') = pushed s')"
proof -
  let ?b = "shutdown_begin s"
  have b: "shutting_down ?b" "server_strand ?b = server_strand s @ [CloseAll]" "\<not> io_stopped ?b" "pushed ?b = pushed s"
    using assms(3,4) threads_running [of E es] by (simp_all add: s_def shutdown_begin_def pushed_def)
  have run: "s' = server_run E (es @ ShutdownBegin # later)"
    by (simp add: s'_def s_def server_run_def server_attempt_def)
  have flag: "shutting_down (fold (server_attempt E) xs t)" if "shutting_down t" for xs t
    using that by (induction xs arbitrary: t) (simp_all add: flag_stays)
  have "shutdown_done s'" if "length (server_strand s) < count_list later RunServerTask"
    unfolding s'_def using that b by (intro waits_run [of "length (server_strand s)"]) (simp_all add: waits_def)
  moreover have "pushed (fold (server_attempt E) xs t) = pushed t" if "shutting_down t" "list_all fresh_loads xs" for xs t
    using that by (induction xs arbitrary: t) (simp_all add: flag_stays queue_closed)
  then have "list_all fresh_loads later \<longrightarrow> pushed s' = pushed s" unfolding s'_def using b by simp
  moreover have "pushed (fold (server_attempt E) xs t) = pushed t" if "io_stopped t" for xs t
    using that by (induction xs arbitrary: t) (simp_all add: stopped_stays)
  ultimately show ?thesis
    using flag [OF b(1), of later] server_run_ended [of E "es @ ShutdownBegin # later"]
    unfolding run [symmetric] by (auto simp: s'_def [symmetric] ended_def all_ending_def ending_def list_all_iff)
qed

theorem shutdown_completes_witness:
  "shutdown_done (fold (server_attempt example_server_env) [RunServerTask, RunServerTask]
     (shutdown_begin (server_run example_server_env example_net_events)))"
proof -
  have "\<not> io_stopped (server_run example_server_env example_net_events)"
    by (simp add: server_run_def example_net_events_def example_server_env_def server_attempt_def
      server_start_def start_threads_def do_accept_def Impl_init_def on_accept_def load_flag_def push_packet_def session_step_def
      started_def start_def Session_init_def Session.extend_def SessionRun.extend_def handler_defs
      on_header_read_def Let_def)
  then show ?thesis
    using shutdown_completes [of example_server_env example_net_events "[RunServerTask, RunServerTask]" "[]"]
    by (simp add: example_server_run)
qed

end
