(* ===== verification/World_Properties.thy ===== *)
theory World_Properties
  imports Server_Properties
begin

text \<open>
  The properties of the bridge between transport and chat logic and of the running server
  program: transport, bridge and chat logic together, driven by the steps of the game thread and
  the events of the I/O threads in any order.
\<close>

section \<open>Requests\<close>

text \<open>
  C27: A message a client builds for any payload table of the schema that a builder can make reaches the chat logic as the
  event of that request, with the request id, the room id and the texts the client gave (an absent
  text as the empty one); a table that is not a request is reported as an unhandled payload.
\<close>

theorem requests_decoded:
  assumes "fb_ok f" and "buildable p"
  shows "DecodeProtocolPacket f sid (BuildMessage f rq (MessagePayloadTraits p) p) events =
    events @ [request_event sid rq p]"
  using assms by (rule DecodeProtocolPacket_built)

theorem requests_decoded_witness:
  "DecodeProtocolPacket example_fb 7 (BuildMessage example_fb 3 MessagePayload_JoinRoomRequest (JoinRoomRequest 1002)) [] =
     [JoinRoomRequestEvent 7 3 1002]"
  using requests_decoded [OF example_fb_ok, of "JoinRoomRequest 1002" 7 3 "[]"] by simp

text \<open>
  C28: Whatever bytes a client sends, one packet makes at most one event, the event is attributed
  to the session the packet came from, and bytes from the network never make a connection or
  disconnection event.
\<close>

theorem packet_events_attributed:
  "length (packet_events f p) \<le> 1
   \<and> (\<forall>e \<in> set (packet_events f p). event_session e = packet_session_id p)
   \<and> (packet_type p = Data \<longrightarrow>
        SessionConnectedEvent (packet_session_id p) \<notin> set (packet_events f p)
        \<and> SessionDisconnectedEvent (packet_session_id p) \<notin> set (packet_events f p))"
proof -
  have "length (packet_events f p) \<le> 1"
    using decode_attribution [of f "packet_session_id p" "packet_data p"]
    by (cases "packet_type p") (simp_all add: packet_events_def receive_packet_def)
  moreover have "packet_type p = Data \<longrightarrow>
        SessionConnectedEvent (packet_session_id p) \<notin> set (packet_events f p)
        \<and> SessionDisconnectedEvent (packet_session_id p) \<notin> set (packet_events f p)"
    using decode_attribution [of f "packet_session_id p" "packet_data p"]
    by (auto simp: packet_events_def receive_packet_def)
  ultimately show ?thesis using packet_events_session by blast
qed

theorem packet_events_attributed_witness:
  "length (packet_events example_fb \<lparr>packet_type = Data, packet_session_id = 7, packet_data = [1, 2]\<rparr>) \<le> 1"
  using packet_events_attributed [of example_fb "\<lparr>packet_type = Data, packet_session_id = 7, packet_data = [1, 2]\<rparr>"]
  by simp

text \<open>What \<^verbatim>\<open>Flush\<close> posts to the transport.\<close>

lemma flush_sends:
  assumes "pool_ok (server_pool s)" and "\<not> shutting_down s" and "list_all sendable msgs"
  shows "pool_ok (server_pool (fold (\<lambda>m. Server_send (session_id_O m) (payload_O m)) msgs s))
    \<and> \<not> shutting_down (fold (\<lambda>m. Server_send (session_id_O m) (payload_O m)) msgs s)
    \<and> server_strand (fold (\<lambda>m. Server_send (session_id_O m) (payload_O m)) msgs s) = server_strand s @
        map (\<lambda>m. SendFrame (session_id_O m) \<lparr>buf_data = frame_of (payload_O m), buf_capacity = BLOCK_SIZE\<rparr>) msgs"
  using assms
proof (induction msgs arbitrary: s)
  case (Cons m msgs)
  then have "sendable_payload (payload_O m)"
    by (simp add: sendable_def sendable_payload_def MAX_PAYLOAD_SIZE_def)
  from Server_send_eq [OF Cons.prems(1) this Cons.prems(2)] Cons.IH Cons.prems show ?case by simp
qed simp

lemma flush_strand:
  assumes "game_inv g" and "server_inv s" and "\<not> shutting_down s"
  shows "server_strand (Flush (outgoing_messages g) (pending_disconnects g) s) = server_strand s
    @ map (\<lambda>m. SendFrame (session_id_O m) \<lparr>buf_data = frame_of (payload_O m), buf_capacity = BLOCK_SIZE\<rparr>)
        (outgoing_messages g)
    @ map DisconnectSession (pending_disconnects g)"
proof -
  have "server_strand (fold disconnect ds t) = server_strand t @ map DisconnectSession ds"
    if "\<not> shutting_down t" for ds t
    using that by (induction ds arbitrary: t) (simp_all add: disconnect_def)
  moreover have "list_all sendable (outgoing_messages g)" "pool_ok (server_pool s)"
    using assms by (simp_all add: game_inv_def server_inv_def)
  ultimately show ?thesis
    using flush_sends [of s "outgoing_messages g"] assms(3) by (simp add: Flush_def)
qed

text \<open>
  C29: A tick of the game loop moves everything.  It ends, takes every packet of the transport's queue,
  runs the chat logic on their events in the order of the queue, and posts every message the chat
  logic has queued, in order, as a frame for its session, and after them the disconnections.
  Nothing is left in any of the three queues.  The single steps of the game thread, when no other
  thread acts between them, make up exactly this tick.
\<close>

theorem tick_moves_everything:
  fixes E w
  defines "g \<equiv> fold (step E) (concat (map (packet_events (fb E)) (packet_queue (network w)))) (game w)"
  assumes "game_inv (game w)" and "server_inv (network w)" and "\<not> shutting_down (network w)"
  shows "\<exists>w'. tick E w = Some w'
    \<and> packet_queue (network w') = [] \<and> polled (network w') = polled (network w) @ packet_queue (network w)
    \<and> game w' = g\<lparr>outgoing_messages := [], pending_disconnects := []\<rparr>
    \<and> server_strand (network w') = server_strand (network w)
        @ map (\<lambda>m. SendFrame (session_id_O m) \<lparr>buf_data = frame_of (payload_O m), buf_capacity = BLOCK_SIZE\<rparr>)
            (outgoing_messages g)
        @ map DisconnectSession (pending_disconnects g)
    \<and> (phase w = Receiving [] \<longrightarrow> (\<exists>k. world_run E S (replicate k Game) w = Some w'))"
proof -
  let ?n = "(network w)\<lparr>packet_queue := [], polled := polled (network w) @ packet_queue (network w)\<rparr>"
  have "game_inv g" unfolding g_def by (rule gl.run_invar [OF assms(2)])
  moreover have "server_inv ?n" "\<not> shutting_down ?n" using assms(3,4) by (simp_all add: server_inv_def)
  moreover note game_steps_tick [of w E S]
  ultimately show ?thesis
    using flush_strand [of g ?n] packet_queue_flush [of "outgoing_messages g" "pending_disconnects g" ?n]
    unfolding tick_eq g_def [symmetric] by simp
qed

definition example_tick_world :: world where
  "example_tick_world =
     world_of example_net_env ((server_start example_server_env)\<lparr>packet_queue :=
        [\<lparr>packet_type = Connect, packet_session_id = 1, packet_data = []\<rparr>,
         \<lparr>packet_type = Data, packet_session_id = 1,
          packet_data = BuildMessage example_fb 4 (MessagePayloadTraits DisconnectRequest) DisconnectRequest\<rparr>]\<rparr>)"

theorem tick_moves_everything_witness:
  "\<exists>w'. tick example_net_env example_tick_world = Some w' \<and> DisconnectSession 1 \<in> set (server_strand (network w'))"
proof -
  have s: "server_inv (network example_tick_world)" "\<not> shutting_down (network example_tick_world)"
    using server_run_invs [of example_server_env "[]"]
    by (simp_all add: example_tick_world_def world_of_def server_run_def server_inv_def server_start_def
        start_threads_def do_accept_def Impl_init_def)
  have g: "game_inv (game example_tick_world)" by (simp add: example_tick_world_def world_of_def game_inv_init)
  have "concat (map (packet_events (fb example_net_env)) (packet_queue (network example_tick_world))) =
      [SessionConnectedEvent 1, DisconnectRequestEvent 1 4]"
    using DecodeProtocolPacket_built [OF example_fb_ok, of DisconnectRequest 1 4 "[]"]
    by (simp add: example_tick_world_def world_of_def packet_events_def receive_packet_def example_net_env_def)
  moreover have "pending_disconnects (fold (step example_net_env)
      [SessionConnectedEvent 1, DisconnectRequestEvent 1 4] (game example_tick_world)) = [1]"
    by (simp add: example_tick_world_def world_of_def step_simps HandleDisconnectRequest_eq HandleSessionConnected_def
        GameLogicSystem_init_def)
  ultimately show ?thesis
    using tick_moves_everything [OF g s, of example_net_env example_server_env] by auto
qed

section \<open>The program\<close>

text \<open>
  C30: The server program never fails: for every interleaving of the calls of the game thread with the
  events of the I/O threads the run has a next state (no null pointer is dereferenced and every
  loop ends), in which the chat logic and the transport satisfy their invariants and nothing is
  left in the chat logic's queues.  The events the chat logic was given, and those the game thread
  has ready for it, are exactly those of the packets taken so far, in order, and the registry of
  sessions, names and rooms is what the events given make of the empty one.
\<close>

theorem program_never_fails:
  "\<exists>w. world_run E S es (world_init E S) = Some w
     \<and> game_inv (game w) \<and> server_inv (network w)
     \<and> outgoing_messages (game w) = [] \<and> pending_disconnects (game w) = []
     \<and> seen w @ unhandled w = concat (map (packet_events (fb E)) (polled (network w)))
     \<and> rs_abs (room_system (game w)) = fold reg_step (seen w) Map.empty"
  using world_run_inv [OF world_inv_init [of E S], of S es] by (auto simp: world_inv_def packets_events_def)

lemma world_inv_run:
  assumes "world_run E S es (world_init E S) = Some w"
  shows "world_inv E w"
  using world_run_inv [OF world_inv_init [of E S], of S es] assms by simp

lemma world_inv_book: "world_inv E w \<Longrightarrow> book_inv (network w)"
  by (simp add: world_inv_def)

lemma known_iff_present:
  assumes "world_inv E w" and "unhandled w = []"
  shows "FindSession sid (room_system (game w)) \<noteq> None \<longleftrightarrow>
    fold (present_step sid) (packets_events (fb E) (packets_of sid (polled (network w)))) False"
proof -
  let ?es = "packets_events (fb E) (polled (network w))"
  have "FindSession sid (room_system (game w)) \<noteq> None \<longleftrightarrow> rs_abs (room_system (game w)) sid \<noteq> None"
    by simp
  also have "\<dots> \<longleftrightarrow> fold reg_step ?es Map.empty sid \<noteq> None"
    using assms by (simp add: world_inv_def)
  also have "\<dots> \<longleftrightarrow> fold (present_step sid) ?es False"
    using reg_run_present [of ?es Map.empty sid] by simp
  also have "\<dots> \<longleftrightarrow>
      fold (present_step sid) (packets_events (fb E) (packets_of sid (polled (network w)))) False"
    by (subst present_filter) (simp only: events_of_session)
  finally show ?thesis .
qed

lemma closed_iff_reported:
  assumes "conn_ok c"
  shows "list_ex is_OnClose (calls c) \<longleftrightarrow> closed c"
proof -
  have "filter is_OnClose (calls c) = (if closed c then [OnClose (id_S c)] else [])"
    using assms by (simp add: conn_ok_def session_inv_defs)
  then show ?thesis by (metis filter_empty_conv list_ex_iff not_Cons_self2)
qed

text \<open>
  C31: No ghosts and no one forgotten: when no packet was lost and all were taken from the queue and
  given to the chat logic, the chat logic knows exactly the sessions whose connection is open and
  who have not asked to be disconnected.
\<close>

theorem no_ghost_sessions:
  assumes "world_run E S es (world_init E S) = Some w"
    and "issued (network w) < 2 ^ 32 - 1" and "lost (network w) = 0" and "packet_queue (network w) = []"
    and "unhandled w = []"
  shows "FindSession sid (room_system (game w)) \<noteq> None \<longleftrightarrow>
    (\<exists>a < length (heap (network w)).
       id_S (heap (network w) ! a) = sid \<and> \<not> closed (heap (network w) ! a)
       \<and> \<not> list_ex (asks_disconnect (fb E) sid) (received (calls (heap (network w) ! a))))"
    (is "?L \<longleftrightarrow> ?R")
proof -
  let ?n = "network w"
  have inv: "world_inv E w" by (rule world_inv_run [OF assms(1)])
  then have book: "book_rel True (map ident (heap ?n)) (next_id ?n) (issued ?n) (session_table ?n)
      (polled ?n) (erases (server_strand ?n))" and sinv: "server_inv ?n"
    using assms(2-4) by (auto simp: world_inv_def book_inv_def pushed_def)
  note L = known_iff_present [OF inv assms(5), of sid]
  show ?thesis
  proof (cases "\<exists>a < length (heap ?n). id_S (heap ?n ! a) = sid")
    case False
    then have "sid \<notin> fst ` set (map ident (heap ?n))"
      by (auto simp: ident_def in_set_conv_nth)
    then have "packets_of sid (polled ?n) = []"
      using book by (auto simp: book_rel_def packets_of_def filter_empty_conv)
    with L False show ?thesis by (auto simp: packets_events_def)
  next
    case True
    then obtain a where a: "a < length (heap ?n)" "id_S (heap ?n ! a) = sid" by blast
    let ?c = "heap ?n ! a"
    have "session_book True (session_table ?n) (polled ?n) (erases (server_strand ?n)) a (ident ?c)"
      using book a(1) by (auto simp: book_rel_def)
    then have "packets_of sid (polled ?n) = connect_packet sid # map packet_of (calls ?c)"
      using a(2) by (auto simp: session_book_def ident_def)
    moreover have ok: "conn_ok ?c" using sinv a(1) by (simp add: server_inv_def)
    then have "\<forall>cb \<in> set (calls ?c). callback_id cb = sid" using a(2) by (simp add: conn_ok_def)
    ultimately have "?L \<longleftrightarrow> \<not> list_ex is_OnClose (calls ?c) \<and> \<not> list_ex (asks_disconnect (fb E) sid) (received (calls ?c))"
      using L present_after_calls by simp
    moreover note closed_iff_reported [OF ok]
    moreover have "b = a" if "b < length (heap ?n)" "id_S (heap ?n ! b) = sid" for b
      using book_ids_distinct [of ?n b a] that a inv assms(2) by (simp add: world_inv_def)
    ultimately show ?thesis using a by blast
  qed
qed

definition example_world_events :: "world_event list" where
  "example_world_events = [Net (AcceptDone False 100 [] 0), Game, Game, Game]"

definition example_world :: world where
  "example_world = the (world_run example_net_env example_server_env example_world_events
     (world_init example_net_env example_server_env))"

lemmas net_run_simps =
  server_run_def server_attempt_def server_start_def start_threads_def do_accept_def Impl_init_def on_accept_def
  load_flag_def push_packet_def session_step_def started_def start_def Session_init_def Session.extend_def
  SessionRun.extend_def handler_defs on_header_read_def connect_packet_def Let_def

lemmas world_run_simps =
  net_run_simps world_init_def world_of_def game_step_def poll_packet_def receive_packet_def Update_run
  TakeOutgoingMessages_def TakePendingDisconnects_def step_simps HandleSessionConnected_def
  GameLogicSystem_init_def unhandled_def

lemma example_world_run:
  "world_run example_net_env example_server_env example_world_events (world_init example_net_env example_server_env) =
     Some example_world"
  "network example_world =
     (server_run example_server_env [AcceptDone False 100 [] 0])\<lparr>packet_queue := [], polled := [connect_packet 1]\<rparr>"
  "unhandled example_world = []"
  by (simp_all add: example_world_def example_world_events_def world_run_simps example_server_env_def)

theorem no_ghost_sessions_witness:
  "FindSession 1 (room_system (game example_world)) \<noteq> None"
proof -
  let ?n = "server_run example_server_env [AcceptDone False 100 [] 0]"
  have "issued ?n = 1" "lost ?n = 0" "length (heap ?n) = 1" "id_S (heap ?n ! 0) = 1" "\<not> closed (heap ?n ! 0)"
      "calls (heap ?n ! 0) = []"
    by (simp_all add: net_run_simps example_server_env_def)
  then show ?thesis
    using no_ghost_sessions [OF example_world_run(1), of 1] by (auto simp: example_world_run(2,3))
qed

section \<open>A refused Disconnect\<close>

text \<open>A step of the program is at most one event of the transport.\<close>

lemma world_step_network:
  assumes "world_step E S e w = Some w'"
  shows "network w' = network w \<or> (\<exists>ev. network w' = server_attempt S ev (network w))"
proof (cases e)
  case Game
  then have g: "game_step E w = Some w'" using assms by simp
  show ?thesis
  proof (cases "phase w")
    case (Receiving events)
    then have "network w' = snd (poll_packet (network w))"
      using g by (auto simp: game_step_def Let_def split: option.splits prod.splits)
    then show ?thesis by (metis api_attempts(1))
  next
    case (Flushing msgs pending)
    then have "network w' = (case msgs of
        m # _ \<Rightarrow> server_attempt S (ApiSend (session_id_O m) (payload_O m)) (network w)
      | [] \<Rightarrow> (case pending of sid # _ \<Rightarrow> server_attempt S (ApiDisconnect sid) (network w) | [] \<Rightarrow> network w))"
      using g by (cases msgs; cases pending) (auto simp: game_step_def api_attempts)
    then show ?thesis by (auto split: list.splits)
  qed
next
  case (Net ev)
  then have "network w' = (if io_event ev then server_attempt S ev (network w) else network w)"
    using assms by auto
  then show ?thesis by metis
qed

lemma silent_end_world_run:
  assumes "world_inv E w" and "silent_end a i (network w)" and "world_run E S es w = Some w'"
  shows "silent_end a i (network w')"
  using assms
proof (induction es arbitrary: w)
  case (Cons e es)
  obtain w1 where w1: "world_step E S e w = Some w1" "world_inv E w1"
    using world_inv_step [OF Cons.prems(1)] by blast
  have "(server_inv (network w) \<and> book_inv (network w)) \<and> silent_end a i (network w)"
    using Cons.prems(1,2) by (simp add: world_inv_def)
  from se.step_invar [OF this, of S] have "silent_end a i (network w1)"
    using world_step_network [OF w1(1)] Cons.prems(2) by auto
  with Cons.IH [OF w1(2)] w1(1) Cons.prems(3) show ?case by simp
qed simp

lemma present_without_disconnect:
  assumes ids: "\<forall>cb \<in> set cs. callback_id cb = sid" and sub: "subseq ps (map packet_of cs)"
    and no: "disconnect_packet sid \<notin> set ps" "\<not> list_ex (asks_disconnect f sid) (received cs)"
  shows "fold (present_step sid) (packets_events f (connect_packet sid # ps)) False"
proof -
  have "SessionConnectedEvent sid \<notin> set (packet_events f p) \<and> \<not> list_ex (leaves sid) (packet_events f p)"
    if p: "p \<in> set ps" for p
  proof -
    obtain cb where cb: "cb \<in> set cs" "p = packet_of cb" using list_emb_set [OF sub p] by auto
    have id: "callback_id cb = sid" using ids cb(1) by blast
    have "\<not> is_OnClose cb" using no(1) p cb(2) id disconnect_packet_of [of cb sid] by (cases cb) auto
    moreover have "\<not> (\<exists>q. cb = OnReceive sid q \<and> asks_disconnect f sid q)"
      using no(2) cb(1) received_iff by (fastforce simp: list_ex_iff)
    ultimately show ?thesis using callback_events [OF id, of f] cb(2) by simp
  qed
  then have "\<forall>e \<in> set (packets_events f ps). e \<noteq> SessionConnectedEvent sid \<and> \<not> leaves sid e"
    by (fastforce simp: packets_events_def list_ex_iff)
  moreover have "fold (present_step sid) (packets_events f (connect_packet sid # ps)) False =
      fold (present_step sid) (packets_events f ps) True"
    by (simp add: packets_events_def packet_events_def receive_packet_def connect_packet_def)
  ultimately show ?thesis using present_no_connect [of "packets_events f ps" sid True] by blast
qed

text \<open>
  C32: A disconnection that the full packet queue refuses is lost for good.  If a session is closed and
  its Disconnect packet is not among the packets pushed, then no continuation of the run of the
  program ever pushes it; and unless the client had itself asked to be disconnected, the chat
  logic still has the session whenever it has handled everything it was sent.
\<close>

theorem refused_disconnect_is_lost:
  assumes "world_run E S es (world_init E S) = Some w"
    and "a < length (heap (network w))" and "closed (heap (network w) ! a)" and "id_S (heap (network w) ! a) = sid"
    and "disconnect_packet sid \<notin> set (pushed (network w))"
    and "world_run E S later w = Some w'" and "issued (network w') < 2 ^ 32 - 1"
  shows "disconnect_packet sid \<notin> set (pushed (network w'))
    \<and> (packet_queue (network w') = [] \<and> unhandled w' = []
       \<and> \<not> list_ex (asks_disconnect (fb E) sid) (received (calls (heap (network w') ! a))) \<longrightarrow>
       FindSession sid (room_system (game w')) \<noteq> None)"
proof -
  let ?n = "network w'"
  have inv: "world_inv E w" by (rule world_inv_run [OF assms(1)])
  have inv': "world_inv E w'" using world_run_inv [OF inv, of S later] assms(6) by simp
  have "silent_end a sid (network w)" using assms(2-5) by (simp add: silent_end_def)
  from silent_end_world_run [OF inv this assms(6)]
  have silent: "a < length (heap ?n)" "id_S (heap ?n ! a) = sid" "disconnect_packet sid \<notin> set (pushed ?n)"
    using assms(7) by (simp_all add: silent_end_def)
  have "FindSession sid (room_system (game w')) \<noteq> None"
    if q: "packet_queue ?n = []" and u: "unhandled w' = []"
      and stay: "\<not> list_ex (asks_disconnect (fb E) sid) (received (calls (heap ?n ! a)))"
  proof -
    have "session_book (lost ?n = 0 \<and> \<not> shutting_down ?n) (session_table ?n) (pushed ?n)
        (erases (server_strand ?n)) a (ident (heap ?n ! a))"
      using world_inv_book [OF inv'] silent(1) assms(7) by (simp add: book_inv_def book_rel_def)
    then obtain ps where ps: "packets_of sid (polled ?n) = connect_packet sid # ps"
        "subseq ps (map packet_of (calls (heap ?n ! a)))"
      using silent(2) q by (auto simp: session_book_def ident_def pushed_def)
    have "set ps \<subseteq> set (pushed ?n)"
      using ps(1) by (auto simp: packets_of_def pushed_def filter_eq_Cons_iff)
    moreover have "conn_ok (heap ?n ! a)" using inv' silent(1) by (simp add: world_inv_def server_inv_def)
    then have "\<forall>cb \<in> set (calls (heap ?n ! a)). callback_id cb = sid" using silent(2) by (simp add: conn_ok_def)
    ultimately show ?thesis
      using present_without_disconnect [OF _ ps(2) _ stay] silent(3) known_iff_present [OF inv' u, of sid] ps(1)
      by auto
  qed
  then show ?thesis using silent(3) by blast
qed

text \<open>A queue with room for one packet: the connection is announced, its end is not.\<close>

definition small_queue_env :: server_env where
  "small_queue_env = \<lparr>push_ok = (\<lambda>n. n < 1), hardware_concurrency = 1, table_order = rev\<rparr>"

definition refusal_world :: "world_event list \<Rightarrow> world" where
  "refusal_world es = the (world_run example_net_env small_queue_env
     ([Net (AcceptDone False 100 [] 0), Net (SessionStep 0 HeaderFailed 0)] @ es)
     (world_init example_net_env small_queue_env))"

lemma refusal_world_run:
  "world_run example_net_env small_queue_env [Net (AcceptDone False 100 [] 0), Net (SessionStep 0 HeaderFailed 0)]
     (world_init example_net_env small_queue_env) = Some (refusal_world [])"
  "world_run example_net_env small_queue_env [Game, Game, Net RunServerTask, Game] (refusal_world []) =
     Some (refusal_world [Game, Game, Net RunServerTask, Game])"
  by (simp_all add: refusal_world_def world_run_append world_run_simps small_queue_env_def)

lemma refusal_world_state:
  "length (heap (network (refusal_world []))) = 1" "closed (heap (network (refusal_world [])) ! 0)"
  "id_S (heap (network (refusal_world [])) ! 0) = 1" "pushed (network (refusal_world [])) = [connect_packet 1]"
  "issued (network (refusal_world [Game, Game, Net RunServerTask, Game])) = 1"
  "packet_queue (network (refusal_world [Game, Game, Net RunServerTask, Game])) = []"
  "unhandled (refusal_world [Game, Game, Net RunServerTask, Game]) = []"
  "calls (heap (network (refusal_world [Game, Game, Net RunServerTask, Game])) ! 0) = [OnClose 1]"
  by (simp_all add: refusal_world_def world_run_simps small_queue_env_def pushed_def)

theorem refused_disconnect_is_lost_witness:
  "FindSession 1 (room_system (game (refusal_world [Game, Game, Net RunServerTask, Game]))) \<noteq> None"
  using refused_disconnect_is_lost [OF refusal_world_run(1) _ _ _ _ refusal_world_run(2), of 0 1]
  by (simp add: refusal_world_state disconnect_packet_def connect_packet_def)

end
