(* ===== verification/Net_Client.thy ===== *)
theory Net_Client
  imports Net_Session
begin

text \<open>
  The transport client (\<^verbatim>\<open>Client.h\<close>, \<^verbatim>\<open>Client.cpp\<close>): one connection to the server, an I/O thread that
  runs every completion handler, and the functions the game thread calls.

  \<open>Client\<close> has the members of \<^verbatim>\<open>Client::Impl\<close> and, as for a session, the operation pending on each
  asio object; \<open>io_tasks_C\<close> are the functions posted to the I/O context, which its one thread runs
  in order.  Each of the two threads has its own buffers in the pool.  The lock-free receive queue
  is Boost's: \<open>push n\<close> says whether it takes one more packet when it holds \<open>n\<close>.  \<open>sent_C\<close>,
  \<open>arrivals_C\<close> and \<open>polled_C\<close> are history variables no operation reads: the payloads \<^verbatim>\<open>send\<close> has
  posted, the payloads that were pushed with the result of the push, and the payloads the game
  thread has taken.

  A handler runs as one step.  The game thread can set \<^verbatim>\<open>shutting_down\<close> while one runs; this only
  makes a difference between the two loads in the handler of \<^verbatim>\<open>do_read_body\<close>, where it is an
  argument of the step.  The last section shows that a client behaves like a session of the server.
\<close>

section \<open>State\<close>

definition max_size_per_thread_C :: nat where "max_size_per_thread_C = 32"

definition receive_capacity_C :: nat where "receive_capacity_C = 4096"

datatype io_task = PostedFrame Buffer | PostedShutdown

record Client =
  work_guard_C :: bool
  connected_C :: bool
  shutting_down_C :: bool
  receive_queue_C :: "bytes list"
  dropped_packets_C :: u64
  write_queue_C :: "Buffer list"
  writing_C :: bool
  header_buf_C :: bytes
  body_buf_C :: Buffer
  last_activity_C :: int
  io_thread_C :: bool
  io_stopped_C :: bool
  io_tasks_C :: "io_task list"
  shutdown_done_C :: bool
  socket_open_C :: bool
  read_pending_C :: read_op
  write_pending_C :: "(bool \<times> bytes) option"
  heartbeat_timer_C :: "timer_wait option"
  io_pool_C :: "Buffer list"
  game_pool_C :: "Buffer list"
  now_C :: int
  fault_C :: bool
  inbox_C :: bytes
  outbox_C :: bytes
  sent_C :: "bytes list"
  arrivals_C :: "(bytes \<times> bool) list"
  polled_C :: "bytes list"

section \<open>Client::Impl\<close>

text \<open>The constructor, at time \<open>t\<close>.\<close>

definition Client_init :: "int \<Rightarrow> Client" where
  "Client_init t =
     \<lparr>work_guard_C = True, connected_C = False, shutting_down_C = False, receive_queue_C = [],
      dropped_packets_C = 0, write_queue_C = [], writing_C = False,
      header_buf_C = replicate HEADER_SIZE 0,
      body_buf_C = vec_reserve MAX_PAYLOAD_SIZE empty_vector, last_activity_C = t,
      io_thread_C = False, io_stopped_C = False, io_tasks_C = [], shutdown_done_C = False,
      socket_open_C = False, read_pending_C = NoRead, write_pending_C = None,
      heartbeat_timer_C = None, io_pool_C = [], game_pool_C = [], now_C = t, fault_C = False,
      inbox_C = [], outbox_C = [], sent_C = [], arrivals_C = [], polled_C = []\<rparr>"

text \<open>
  What the operating system answers: to the resolver, given host and service, and to
  \<^verbatim>\<open>asio::connect\<close>, given the endpoints, the message of an error code or else the endpoints and
  the bytes which the peer that took the connection will send; to \<^verbatim>\<open>set_option\<close> nothing or a message.
\<close>

record endpoint =
  ep_address :: bytes
  ep_port :: u16

record connect_results =
  resolve_os :: "string \<Rightarrow> string \<Rightarrow> string + endpoint list"
  connect_os :: "endpoint list \<Rightarrow> string + bytes"
  nodelay_ec :: "string option"

definition text_resolve_failed :: string where
  "text_resolve_failed = map char_of [0x5B, 0xEC, 0x97, 0x90, 0xEB, 0x9F, 0xAC, 0x5D, 0x20, 0xEC, 0xA3, 0xBC, 0xEC,
     0x86, 0x8C, 0x20, 0xED, 0x95, 0xB4, 0xEC, 0x84, 0x9D, 0x20, 0xEC, 0x8B, 0xA4, 0xED, 0x8C, 0xA8,
     0x3A, 0x20 :: nat]"

definition text_connect_failed :: string where
  "text_connect_failed = map char_of [0x5B, 0xEC, 0x97, 0x90, 0xEB, 0x9F, 0xAC, 0x5D, 0x20, 0xEC, 0x84, 0x9C, 0xEB,
     0xB2, 0x84, 0x20, 0xEC, 0x97, 0xB0, 0xEA, 0xB2, 0xB0, 0x20, 0xEC, 0x8B, 0xA4, 0xED, 0x8C, 0xA8,
     0x3A, 0x20 :: nat]"

definition text_nodelay_failed :: string where
  "text_nodelay_failed = map char_of [0x5B, 0xEC, 0x97, 0x90, 0xEB, 0x9F, 0xAC, 0x5D, 0x20, 0x54, 0x43, 0x50, 0x5F,
     0x4E, 0x4F, 0x44, 0x45, 0x4C, 0x41, 0x59, 0x20, 0xEC, 0x84, 0xA4, 0xEC, 0xA0, 0x95, 0x20,
     0xEC, 0x8B, 0xA4, 0xED, 0x8C, 0xA8, 0x3A, 0x20 :: nat]"

definition connect :: "string \<Rightarrow> u16 \<Rightarrow> connect_results \<Rightarrow> Client \<Rightarrow> string + Client" where
  "connect host port os c =
     (case resolve_os os host (decimal (unat port)) of Inl m \<Rightarrow> Inl (text_resolve_failed @ m)
      | Inr endpoints \<Rightarrow>
          (case connect_os os endpoints of Inl m \<Rightarrow> Inl (text_connect_failed @ m)
           | Inr stream \<Rightarrow>
               (case nodelay_ec os of Some m \<Rightarrow> Inl (text_nodelay_failed @ m)
                | None \<Rightarrow> Inr (c\<lparr>socket_open_C := True, connected_C := True, inbox_C := stream\<rparr>))))"

definition close_socket :: "Client \<Rightarrow> Client" where
  "close_socket c =
     c\<lparr>heartbeat_timer_C := map_option (cancel_wait (now_C c)) (heartbeat_timer_C c),
       socket_open_C := False\<rparr>"

definition handle_disconnect :: "Client \<Rightarrow> Client" where
  "handle_disconnect c =
     (if \<not> connected_C c then c else close_socket (c\<lparr>connected_C := False\<rparr>))"

text \<open>
  \<^verbatim>\<open>shutdown\<close> in two parts: up to the wait for the posted function, and after it, when the I/O
  context is stopped and the thread has ended.  A client that never started its thread does both
  at once.
\<close>

definition shutdown_end_C :: "Client \<Rightarrow> Client" where
  "shutdown_end_C c = c\<lparr>work_guard_C := False, io_stopped_C := True, io_thread_C := False\<rparr>"

definition shutdown_begin_C :: "Client \<Rightarrow> Client" where
  "shutdown_begin_C c =
     (if shutting_down_C c then c
      else
        let c1 = c\<lparr>shutting_down_C := True\<rparr>
        in if \<not> io_stopped_C c1 \<and> io_thread_C c1
           then c1\<lparr>io_tasks_C := io_tasks_C c1 @ [PostedShutdown]\<rparr>
           else shutdown_end_C (close_socket (c1\<lparr>connected_C := False\<rparr>)))"

text \<open>The destructor of \<^verbatim>\<open>Impl\<close>, for a client whose I/O thread has ended or never ran.\<close>

definition Impl_destructor :: "Client \<Rightarrow> Client" where
  "Impl_destructor c = (shutdown_begin_C c)\<lparr>receive_queue_C := []\<rparr>"

definition do_read_header_C :: "Client \<Rightarrow> Client" where
  "do_read_header_C c =
     c\<lparr>read_pending_C := ReadHeader (socket_open_C c), fault_C := fault_C c \<or> read_pending_C c \<noteq> NoRead\<rparr>"

definition do_read_body_C :: "Client \<Rightarrow> Client" where
  "do_read_body_C c =
     c\<lparr>read_pending_C := ReadBody (socket_open_C c), fault_C := fault_C c \<or> read_pending_C c \<noteq> NoRead\<rparr>"

definition on_header_read_C :: "bool \<Rightarrow> bytes \<Rightarrow> Client \<Rightarrow> Client" where
  "on_header_read_C ec bs c0 =
     (let c = c0\<lparr>read_pending_C := NoRead, header_buf_C := bs\<rparr>
      in if ec \<or> shutting_down_C c then handle_disconnect c
         else case decode_header (header_buf_C c) of
             Inl _ \<Rightarrow> handle_disconnect c
           | Inr header \<Rightarrow>
               let c1 = c\<lparr>last_activity_C := now_C c\<rparr>
               in if is_keepalive header then do_read_header_C c1
                  else do_read_body_C
                         (c1\<lparr>body_buf_C := vec_resize (unat (payload_size header)) (body_buf_C c1)\<rparr>))"

text \<open>
  The completion handler of \<^verbatim>\<open>do_read_body\<close>; \<open>begins\<close> says that the game thread starts \<^verbatim>\<open>shutdown\<close>
  between the two loads of \<^verbatim>\<open>shutting_down\<close>.
\<close>

definition on_body_read_C :: "(nat \<Rightarrow> bool) \<Rightarrow> bool \<Rightarrow> bytes \<Rightarrow> bool \<Rightarrow> Client \<Rightarrow> Client" where
  "on_body_read_C push ec bs begins c0 =
     (let c = c0\<lparr>read_pending_C := NoRead, body_buf_C := (body_buf_C c0)\<lparr>buf_data := bs\<rparr>\<rparr>
      in if ec \<or> shutting_down_C c then handle_disconnect c
         else
           let body = buf_data (body_buf_C c);
               (copy, pool') = acquire (length body) (io_pool_C c)
           in case memcpy 0 body (length body) (buf_data copy) of
               None \<Rightarrow> c\<lparr>fault_C := True\<rparr>
             | Some packet \<Rightarrow>
                 let c1 = c\<lparr>io_pool_C := pool'\<rparr>;
                     c2 = (if begins then shutdown_begin_C c1 else c1)
                 in if shutting_down_C c2 then c2
                    else if push (length (receive_queue_C c2)) then
                      do_read_header_C
                        (c2\<lparr>receive_queue_C := receive_queue_C c2 @ [packet],
                            arrivals_C := arrivals_C c2 @ [(packet, True)]\<rparr>)
                    else
                      do_read_header_C
                        (c2\<lparr>dropped_packets_C := dropped_packets_C c2 + 1,
                            arrivals_C := arrivals_C c2 @ [(packet, False)]\<rparr>))"

definition do_write_C :: "Client \<Rightarrow> Client" where
  "do_write_C c =
     (case write_queue_C c of
        [] \<Rightarrow> c\<lparr>writing_C := False\<rparr>
      | front # _ \<Rightarrow>
          c\<lparr>writing_C := True, write_pending_C := Some (socket_open_C c, buf_data front),
            fault_C := fault_C c \<or> write_pending_C c \<noteq> None\<rparr>)"

definition release_C :: "Buffer \<Rightarrow> Client \<Rightarrow> Client" where
  "release_C frame c = c\<lparr>io_pool_C := release max_size_per_thread_C frame (io_pool_C c)\<rparr>"

definition enqueue_frame_C :: "Buffer \<Rightarrow> Client \<Rightarrow> Client" where
  "enqueue_frame_C frame c =
     (if shutting_down_C c \<or> \<not> connected_C c then release_C frame c
      else
        let (taken, queue, start_write) =
              enqueue_frame (write_queue_C c) (writing_C c) frame MAX_PENDING_WRITE_FRAMES;
            c1 = c\<lparr>write_queue_C := queue\<rparr>;
            c2 = (if start_write then do_write_C c1 else c1)
        in if taken then c2 else handle_disconnect (release_C frame c2))"

definition on_written_C :: "bool \<Rightarrow> Client \<Rightarrow> Client" where
  "on_written_C ec c0 =
     (let c = c0\<lparr>write_pending_C := None\<rparr>
      in case write_queue_C c of
          [] \<Rightarrow> c\<lparr>fault_C := True\<rparr>
        | front # rest \<Rightarrow>
            let c1 = (release_C front c)\<lparr>write_queue_C := rest\<rparr>
            in if ec \<or> shutting_down_C c1 then handle_disconnect c1 else do_write_C c1)"

definition send_keepalive_C :: "Client \<Rightarrow> Client" where
  "send_keepalive_C c =
     (case build_keepalive_frame (io_pool_C c) of
        None \<Rightarrow> c\<lparr>fault_C := True\<rparr>
      | Some (frame, pool') \<Rightarrow> enqueue_frame_C frame (c\<lparr>io_pool_C := pool'\<rparr>))"

definition start_heartbeat_C :: "Client \<Rightarrow> Client" where
  "start_heartbeat_C c =
     c\<lparr>heartbeat_timer_C := Some \<lparr>deadline = now_C c + HEARTBEAT_INTERVAL, cancelled_at = None\<rparr>\<rparr>"

definition on_heartbeat_C :: "bool \<Rightarrow> Client \<Rightarrow> Client" where
  "on_heartbeat_C ec c0 =
     (let c = c0\<lparr>heartbeat_timer_C := None\<rparr>
      in if ec then c
         else if HEARTBEAT_TIMEOUT \<le> now_C c - last_activity_C c then handle_disconnect c
         else start_heartbeat_C (send_keepalive_C c))"

definition start_io :: "Client \<Rightarrow> Client" where
  "start_io c = (start_heartbeat_C (do_read_header_C c))\<lparr>io_thread_C := True\<rparr>"

section \<open>Client\<close>

definition create_C :: "string \<Rightarrow> u16 \<Rightarrow> connect_results \<Rightarrow> int \<Rightarrow> string + Client" where
  "create_C host port os t =
     (case connect host port os (Client_init t) of
        Inl e \<Rightarrow> Inl e
      | Inr c \<Rightarrow> Inr (start_io c))"

definition poll_packet_C :: "Client \<Rightarrow> bytes option \<times> Client" where
  "poll_packet_C c =
     (case receive_queue_C c of
        [] \<Rightarrow> (None, c)
      | data # rest \<Rightarrow> (Some data, c\<lparr>receive_queue_C := rest, polled_C := polled_C c @ [data]\<rparr>))"

definition dropped_packet_count_C :: "Client \<Rightarrow> u64" where
  "dropped_packet_count_C c = dropped_packets_C c"

definition send_C :: "bytes \<Rightarrow> Client \<Rightarrow> Client" where
  "send_C data c =
     (if data = [] \<or> MAX_PAYLOAD_SIZE < length data then c
      else if \<not> connected_C c then c
      else if shutting_down_C c then c
      else case build_data_frame (game_pool_C c) data of
          None \<Rightarrow> c\<lparr>fault_C := True\<rparr>
        | Some (frame, pool') \<Rightarrow>
            let c1 = c\<lparr>game_pool_C := pool'\<rparr>
            in if buf_data frame = [] then c1
               else c1\<lparr>io_tasks_C := io_tasks_C c1 @ [PostedFrame frame], sent_C := sent_C c1 @ [data]\<rparr>)"

definition is_connected :: "Client \<Rightarrow> bool" where
  "is_connected c = connected_C c"

text \<open>What the functions posted by \<^verbatim>\<open>send\<close> and \<^verbatim>\<open>shutdown\<close> do.\<close>

fun run_io_task :: "io_task \<Rightarrow> Client \<Rightarrow> Client" where
  "run_io_task (PostedFrame frame) c =
     (if shutting_down_C c then release_C frame c else enqueue_frame_C frame c)"
| "run_io_task PostedShutdown c =
     (close_socket (c\<lparr>connected_C := False\<rparr>))\<lparr>shutdown_done_C := True\<rparr>"

section \<open>Runs of the client\<close>

datatype client_event =
    GameSend bytes | GamePoll | GameShutdown | GameShutdownEnd
  | IoTask
  | IoHeaderRead | IoHeaderFailed
  | IoBodyRead bool | IoBodyFailed
  | IoWritten | IoWriteFailed nat
  | IoHeartbeatFired | IoHeartbeatCancelled
  | ClientAdvance nat

definition io_running :: "Client \<Rightarrow> bool" where
  "io_running c \<longleftrightarrow> io_thread_C c \<and> \<not> io_stopped_C c"

fun client_enabled :: "client_event \<Rightarrow> Client \<Rightarrow> bool" where
  "client_enabled (GameSend p) c = True"
| "client_enabled GamePoll c = True"
| "client_enabled GameShutdown c = True"
| "client_enabled GameShutdownEnd c = shutdown_done_C c"
| "client_enabled IoTask c = (io_running c \<and> io_tasks_C c \<noteq> [])"
| "client_enabled IoHeaderRead c =
     (io_running c \<and> read_pending_C c = ReadHeader True \<and> HEADER_SIZE \<le> length (inbox_C c))"
| "client_enabled IoHeaderFailed c =
     (io_running c \<and> (\<exists>b \<in> {True, False}. read_pending_C c = ReadHeader b))"
| "client_enabled (IoBodyRead begins) c =
     (io_running c \<and> read_pending_C c = ReadBody True
      \<and> length (buf_data (body_buf_C c)) \<le> length (inbox_C c) \<and> (begins \<longrightarrow> \<not> shutting_down_C c))"
| "client_enabled IoBodyFailed c =
     (io_running c \<and> (\<exists>b \<in> {True, False}. read_pending_C c = ReadBody b))"
| "client_enabled IoWritten c =
     (io_running c \<and> (case write_pending_C c of Some (b, d) \<Rightarrow> b | None \<Rightarrow> False))"
| "client_enabled (IoWriteFailed n) c =
     (io_running c \<and> (case write_pending_C c of Some (b, d) \<Rightarrow> b \<or> n = 0 | None \<Rightarrow> False))"
| "client_enabled IoHeartbeatFired c =
     (io_running c \<and>
      (case heartbeat_timer_C c of
         None \<Rightarrow> False
       | Some w \<Rightarrow> deadline w \<le> now_C c \<and>
           (case cancelled_at w of None \<Rightarrow> True | Some t \<Rightarrow> deadline w \<le> t)))"
| "client_enabled IoHeartbeatCancelled c =
     (io_running c \<and> (case heartbeat_timer_C c of None \<Rightarrow> False | Some w \<Rightarrow> cancelled_at w \<noteq> None))"
| "client_enabled (ClientAdvance n) c = True"

fun client_fire :: "(nat \<Rightarrow> bool) \<Rightarrow> client_event \<Rightarrow> Client \<Rightarrow> Client" where
  "client_fire push (GameSend p) c = send_C p c"
| "client_fire push GamePoll c = snd (poll_packet_C c)"
| "client_fire push GameShutdown c = shutdown_begin_C c"
| "client_fire push GameShutdownEnd c = shutdown_end_C c"
| "client_fire push IoTask c =
     (case io_tasks_C c of [] \<Rightarrow> c | t # ts \<Rightarrow> run_io_task t (c\<lparr>io_tasks_C := ts\<rparr>))"
| "client_fire push IoHeaderRead c =
     on_header_read_C False (take HEADER_SIZE (inbox_C c)) (c\<lparr>inbox_C := drop HEADER_SIZE (inbox_C c)\<rparr>)"
| "client_fire push IoHeaderFailed c = on_header_read_C True (header_buf_C c) c"
| "client_fire push (IoBodyRead begins) c =
     (let n = length (buf_data (body_buf_C c))
      in on_body_read_C push False (take n (inbox_C c)) begins (c\<lparr>inbox_C := drop n (inbox_C c)\<rparr>))"
| "client_fire push IoBodyFailed c = on_body_read_C push True (buf_data (body_buf_C c)) False c"
| "client_fire push IoWritten c =
     (case write_pending_C c of
        None \<Rightarrow> c | Some (b, d) \<Rightarrow> on_written_C False (c\<lparr>outbox_C := outbox_C c @ d\<rparr>))"
| "client_fire push (IoWriteFailed n) c =
     (case write_pending_C c of
        None \<Rightarrow> c | Some (b, d) \<Rightarrow> on_written_C True (c\<lparr>outbox_C := outbox_C c @ take n d\<rparr>))"
| "client_fire push IoHeartbeatFired c = on_heartbeat_C False c"
| "client_fire push IoHeartbeatCancelled c = on_heartbeat_C True c"
| "client_fire push (ClientAdvance n) c = c\<lparr>now_C := now_C c + int n\<rparr>"

definition client_attempt :: "(nat \<Rightarrow> bool) \<Rightarrow> client_event \<Rightarrow> Client \<Rightarrow> Client" where
  "client_attempt push e c = (if client_enabled e c then client_fire push e c else c)"

text \<open>A client as \<^verbatim>\<open>Client::create\<close> returns it, when the peer will send \<open>stream\<close>.\<close>

definition client_started :: "int \<Rightarrow> bytes \<Rightarrow> Client" where
  "client_started t stream = start_io ((Client_init t)\<lparr>socket_open_C := True, connected_C := True, inbox_C := stream\<rparr>)"

definition client_run :: "(nat \<Rightarrow> bool) \<Rightarrow> client_event list \<Rightarrow> int \<Rightarrow> bytes \<Rightarrow> Client" where
  "client_run push es t stream = fold (client_attempt push) es (client_started t stream)"

section \<open>The client as a session\<close>

text \<open>
  Before it is shut down, a client is a session: the session with the same members, without an
  id, that has made the calls \<open>cs\<close>.
\<close>

fun frame_tasks :: "io_task list \<Rightarrow> task list" where
  "frame_tasks [] = []"
| "frame_tasks (PostedFrame f # ts) = EnqueueWrite f # frame_tasks ts"
| "frame_tasks (PostedShutdown # ts) = frame_tasks ts"

definition session_of :: "callback list \<Rightarrow> Client \<Rightarrow> conn" where
  "session_of cs c =
     \<lparr>id_S = 0, header_buf = header_buf_C c, body_buf = body_buf_C c, write_queue = write_queue_C c,
      writing = writing_C c, closed = (\<not> connected_C c), last_activity = last_activity_C c,
      socket_open = socket_open_C c, read_pending = read_pending_C c,
      write_pending = write_pending_C c, heartbeat_timer = heartbeat_timer_C c,
      strand = frame_tasks (io_tasks_C c), pool = io_pool_C c, now = now_C c, calls = cs,
      fault = fault_C c, inbox = inbox_C c, outbox = outbox_C c, sent = sent_C c\<rparr>"

text \<open>
  While it is shut down, a client still has the writing side of a session, one that is closed
  already: it takes no more frames, and the writes under way end.
\<close>

definition closing_as :: "Client \<Rightarrow> conn \<Rightarrow> bool" where
  "closing_as c s \<longleftrightarrow>
     closed s \<and> write_queue s = write_queue_C c \<and> write_pending s = write_pending_C c
     \<and> strand s = frame_tasks (io_tasks_C c) \<and> outbox s = outbox_C c \<and> sent s = sent_C c"

definition refines :: "Client \<Rightarrow> conn \<Rightarrow> bool" where
  "refines c s \<longleftrightarrow>
     received (calls s) = map fst (arrivals_C c)
     \<and> (if shutting_down_C c then closing_as c s
        else s = session_of (calls s) c)"

text \<open>The members a session does not have.\<close>

definition client_inv :: "Client \<Rightarrow> bool" where
  "client_inv c \<longleftrightarrow>
     \<not> fault_C c \<and> pool_ok (io_pool_C c) \<and> pool_ok (game_pool_C c)
     \<and> polled_C c @ receive_queue_C c = map fst (filter snd (arrivals_C c))
     \<and> dropped_packets_C c = of_nat (length (filter (\<lambda>a. \<not> snd a) (arrivals_C c)))
     \<and> shutting_down_C c = (shutdown_done_C c \<or> PostedShutdown \<in> set (io_tasks_C c))
     \<and> (shutdown_done_C c \<longrightarrow> \<not> connected_C c)
     \<and> (io_running c \<or> shutdown_done_C c)"

lemmas client_defs =
  do_read_header_C_def do_read_body_C_def do_write_C_def start_heartbeat_C_def close_socket_def
  handle_disconnect_def release_C_def

lemma frame_tasks_append [simp]: "frame_tasks (ts @ us) = frame_tasks ts @ frame_tasks us"
  by (induction ts rule: frame_tasks.induct) simp_all

text \<open>The calls \<open>handle_close\<close> makes where the client only clears \<^verbatim>\<open>connected\<close>.\<close>

definition close_call :: "Client \<Rightarrow> Client \<Rightarrow> callback list" where
  "close_call c c' = (if connected_C c \<and> \<not> connected_C c' then [OnClose 0] else [])"

lemma received_close_call [simp]: "received (close_call c c') = []"
  by (simp add: close_call_def)

text \<open>
  A step of a session and one of the client, up to the pool: the two keep a different number of
  spare buffers.
\<close>

definition mirrors :: "callback list \<Rightarrow> Client \<Rightarrow> conn \<Rightarrow> Client \<Rightarrow> bool" where
  "mirrors cs c s' c' \<longleftrightarrow> s'\<lparr>pool := io_pool_C c'\<rparr> = session_of (cs @ close_call c c') c'"

lemma mirrors_handle_disconnect:
  assumes "s\<lparr>pool := io_pool_C c'\<rparr> = session_of cs c'" and "connected_C c = connected_C c'"
  shows "mirrors cs c (handle_close s) (handle_disconnect c')"
proof -
  have "handle_close (s\<lparr>pool := io_pool_C c'\<rparr>) = (handle_close s)\<lparr>pool := io_pool_C c'\<rparr>"
    by (simp add: handle_close_def)
  moreover have "handle_close (session_of cs c') = session_of (cs @ close_call c (handle_disconnect c')) (handle_disconnect c')"
    using assms(2) by (simp add: handle_close_def session_of_def handle_disconnect_def close_socket_def close_call_def)
  moreover have "io_pool_C (handle_disconnect c') = io_pool_C c'"
    by (simp add: handle_disconnect_def close_socket_def)
  ultimately show ?thesis
    using assms(1) by (simp add: mirrors_def)
qed

lemma session_of_sel [simp]:
  "closed (session_of cs c) = (\<not> connected_C c)" "write_queue (session_of cs c) = write_queue_C c"
  "writing (session_of cs c) = writing_C c" "pool (session_of cs c) = io_pool_C c"
  "calls (session_of cs c) = cs" "now (session_of cs c) = now_C c" "sent (session_of cs c) = sent_C c"
  "last_activity (session_of cs c) = last_activity_C c" "body_buf (session_of cs c) = body_buf_C c"
  "header_buf (session_of cs c) = header_buf_C c" "inbox (session_of cs c) = inbox_C c"
  "write_pending (session_of cs c) = write_pending_C c" "outbox (session_of cs c) = outbox_C c"
  "read_pending (session_of cs c) = read_pending_C c" "strand (session_of cs c) = frame_tasks (io_tasks_C c)"
  "heartbeat_timer (session_of cs c) = heartbeat_timer_C c" "fault (session_of cs c) = fault_C c"
  "socket_open (session_of cs c) = socket_open_C c" "id_S (session_of cs c) = 0"
  by (simp_all add: session_of_def)

lemma mirrors_header:
  assumes "\<not> shutting_down_C c"
  shows "mirrors cs c (on_header_read ec bs (session_of cs c)) (on_header_read_C ec bs c)"
proof -
  let ?s = "(session_of cs c)\<lparr>read_pending := NoRead, header_buf := bs\<rparr>"
  let ?c = "c\<lparr>read_pending_C := NoRead, header_buf_C := bs\<rparr>"
  have fail: "mirrors cs c (handle_close ?s) (handle_disconnect ?c)"
    by (rule mirrors_handle_disconnect) (simp_all add: session_of_def)
  show ?thesis
    using assms fail
    by (auto simp: on_header_read_def on_header_read_C_def Let_def split: sum.split)
       (simp_all add: mirrors_def session_of_def do_read_header_def do_read_header_C_def
         do_read_body_def do_read_body_C_def close_call_def)
qed

lemma mirrors_body_failed:
  "mirrors cs c (on_body_read True bs (session_of cs c)) (on_body_read_C push True bs b c)"
  unfolding on_body_read_def on_body_read_C_def Let_def
  by (simp, rule mirrors_handle_disconnect) (simp_all add: session_of_def)

lemma mirrors_enqueue:
  assumes "\<not> shutting_down_C c"
  shows "mirrors cs c (enqueue_write f (session_of cs c)) (enqueue_frame_C f c)"
proof -
  have full: "mirrors cs c
      (handle_close ((session_of cs c)\<lparr>write_queue := write_queue_C c,
         pool := release max_size_per_thread f (io_pool_C c)\<rparr>))
      (handle_disconnect (release_C f (c\<lparr>write_queue_C := write_queue_C c\<rparr>)))"
    by (rule mirrors_handle_disconnect) (simp_all add: session_of_def release_C_def)
  consider "\<not> connected_C c" | "connected_C c" "MAX_PENDING_WRITE_FRAMES \<le> length (write_queue_C c)"
    | "connected_C c" "length (write_queue_C c) < MAX_PENDING_WRITE_FRAMES" by linarith
  then show ?thesis
  proof cases
    case 1
    then show ?thesis
      using assms by (simp add: enqueue_write_def enqueue_frame_C_def mirrors_def release_C_def session_of_def close_call_def)
  next
    case 2
    then show ?thesis
      using 2 assms full by (simp add: enqueue_write_def enqueue_frame_C_def enqueue_frame_def Let_def)
  next
    case 3
    then show ?thesis
      using assms
      by (auto simp: enqueue_write_def enqueue_frame_C_def enqueue_frame_def Let_def mirrors_def
          do_write_def do_write_C_def session_of_def close_call_def split: list.split)
  qed
qed

lemma mirrors_written:
  assumes "\<not> shutting_down_C c"
  shows "mirrors cs c (on_written ec (session_of cs c)) (on_written_C ec c)"
proof (cases "write_queue_C c")
  case Nil
  then show ?thesis
    by (simp add: on_written_def on_written_C_def Let_def mirrors_def session_of_def close_call_def)
next
  case (Cons f fs)
  have "mirrors cs c
      (handle_close ((session_of cs c)\<lparr>write_pending := None,
         pool := release max_size_per_thread f (io_pool_C c), write_queue := fs\<rparr>))
      (handle_disconnect ((release_C f (c\<lparr>write_pending_C := None\<rparr>))\<lparr>write_queue_C := fs\<rparr>))"
    by (rule mirrors_handle_disconnect) (simp_all add: session_of_def release_C_def)
  then show ?thesis
    using Cons assms
    by (cases ec)
       (auto simp: on_written_def on_written_C_def Let_def mirrors_def release_C_def do_write_def
         do_write_C_def session_of_def close_call_def split: list.split)
qed

lemma enqueue_frame_C_sel [simp]:
  "now_C (enqueue_frame_C f c) = now_C c" "shutting_down_C (enqueue_frame_C f c) = shutting_down_C c"
  by (simp_all add: enqueue_frame_C_def enqueue_frame_def client_defs Let_def split: list.split)

lemma mirrors_start_heartbeat:
  assumes "mirrors cs c s' c'" and "now s' = now_C c'"
  shows "mirrors cs c (start_heartbeat s') (start_heartbeat_C c')"
proof -
  let ?w = "Some \<lparr>deadline = now_C c' + HEARTBEAT_INTERVAL, cancelled_at = None\<rparr>"
  have "(start_heartbeat s')\<lparr>pool := io_pool_C c'\<rparr> = (s'\<lparr>pool := io_pool_C c'\<rparr>)\<lparr>heartbeat_timer := ?w\<rparr>"
    using assms(2) by (simp add: start_heartbeat_def)
  also have "\<dots> = session_of (cs @ close_call c c') (start_heartbeat_C c')"
    using assms(1) by (simp add: mirrors_def) (simp add: session_of_def start_heartbeat_C_def)
  finally show ?thesis
    by (simp add: mirrors_def close_call_def start_heartbeat_C_def)
qed

lemma mirrors_heartbeat:
  assumes "\<not> shutting_down_C c" and "pool_ok (io_pool_C c)"
  shows "mirrors cs c (on_heartbeat ec (session_of cs c)) (on_heartbeat_C ec c)"
proof -
  let ?s = "(session_of cs c)\<lparr>heartbeat_timer := None\<rparr>" and ?c = "c\<lparr>heartbeat_timer_C := None\<rparr>"
  let ?f = "\<lparr>buf_data = keepalive_bytes, buf_capacity = BLOCK_SIZE\<rparr>"
  have s: "?s = session_of cs ?c" "?s\<lparr>pool := butlast (io_pool_C c)\<rparr> = session_of cs (?c\<lparr>io_pool_C := butlast (io_pool_C c)\<rparr>)"
    by (simp_all add: session_of_def)
  have dead: "mirrors cs c (handle_close ?s) (handle_disconnect ?c)"
    by (rule mirrors_handle_disconnect) (simp_all add: session_of_def)
  have "mirrors cs (?c\<lparr>io_pool_C := butlast (io_pool_C c)\<rparr>)
      (enqueue_write ?f (session_of cs (?c\<lparr>io_pool_C := butlast (io_pool_C c)\<rparr>)))
      (enqueue_frame_C ?f (?c\<lparr>io_pool_C := butlast (io_pool_C c)\<rparr>))"
    using assms(1) by (intro mirrors_enqueue) simp
  then have "mirrors cs c
      (start_heartbeat (enqueue_write ?f (session_of cs (?c\<lparr>io_pool_C := butlast (io_pool_C c)\<rparr>))))
      (start_heartbeat_C (enqueue_frame_C ?f (?c\<lparr>io_pool_C := butlast (io_pool_C c)\<rparr>)))"
    by (intro mirrors_start_heartbeat) (simp_all add: mirrors_def close_call_def now_enqueue_write)
  then show ?thesis
    using assms(2) dead s
    by (simp add: on_heartbeat_def on_heartbeat_C_def Let_def send_keepalive_def send_keepalive_C_def
        build_keepalive_frame_eq)
       (simp add: mirrors_def session_of_def close_call_def)
qed

section \<open>What a handler leaves alone\<close>

definition kept :: "Client \<Rightarrow> Client \<Rightarrow> bool" where
  "kept c c' \<longleftrightarrow>
     arrivals_C c' = arrivals_C c \<and> receive_queue_C c' = receive_queue_C c \<and> polled_C c' = polled_C c
     \<and> dropped_packets_C c' = dropped_packets_C c \<and> game_pool_C c' = game_pool_C c
     \<and> sent_C c' = sent_C c \<and> io_tasks_C c' = io_tasks_C c
     \<and> shutting_down_C c' = shutting_down_C c \<and> shutdown_done_C c' = shutdown_done_C c
     \<and> io_thread_C c' = io_thread_C c \<and> io_stopped_C c' = io_stopped_C c
     \<and> fault_C c' = fault_C c \<and> (connected_C c' \<longrightarrow> connected_C c)
     \<and> (pool_ok (io_pool_C c) \<longrightarrow> pool_ok (io_pool_C c'))"

lemma kept_trans: "kept a b \<Longrightarrow> kept b c \<Longrightarrow> kept a c"
  by (simp add: kept_def)

lemma kept_handle_disconnect: "kept c c' \<Longrightarrow> kept c (handle_disconnect c')"
  by (simp add: kept_def handle_disconnect_def close_socket_def)

text \<open>Where \<^verbatim>\<open>writing\<close> tells that no write is pending, queueing a frame starts no second one.\<close>

definition may_write :: "Client \<Rightarrow> bool" where
  "may_write c \<longleftrightarrow>
     (\<not> shutting_down_C c \<and> connected_C c \<and> \<not> writing_C c \<longrightarrow> write_pending_C c = None)"

lemma kept_enqueue_frame_C: "kept c c' \<Longrightarrow> may_write c' \<Longrightarrow> kept c (enqueue_frame_C f c')"
  by (auto simp: kept_def may_write_def enqueue_frame_C_def enqueue_frame_def client_defs Let_def split: list.split)

lemma kept_on_header_read_C: "kept c (on_header_read_C ec bs (c\<lparr>inbox_C := x\<rparr>))"
  by (auto simp: kept_def on_header_read_C_def client_defs Let_def split: sum.split)

lemma kept_on_written_C:
  assumes "write_queue_C c \<noteq> []"
  shows "kept c (on_written_C ec (c\<lparr>outbox_C := x\<rparr>))"
  using assms by (auto simp: kept_def on_written_C_def client_defs Let_def split: list.splits)

lemma kept_on_heartbeat_C:
  assumes "pool_ok (io_pool_C c)" and "may_write c"
  shows "kept c (on_heartbeat_C ec c)"
proof -
  have "kept c (c\<lparr>heartbeat_timer_C := None, io_pool_C := butlast (io_pool_C c)\<rparr>)"
      "may_write (c\<lparr>heartbeat_timer_C := None, io_pool_C := butlast (io_pool_C c)\<rparr>)"
    using assms(2) by (simp_all add: kept_def may_write_def)
  from kept_enqueue_frame_C [OF this, of "\<lparr>buf_data = keepalive_bytes, buf_capacity = BLOCK_SIZE\<rparr>"]
  have "kept c (start_heartbeat_C (send_keepalive_C (c\<lparr>heartbeat_timer_C := None\<rparr>)))"
    using assms by (simp add: send_keepalive_C_def build_keepalive_frame_eq start_heartbeat_C_def kept_def)
  moreover have "kept c (handle_disconnect (c\<lparr>heartbeat_timer_C := None\<rparr>))" "kept c (c\<lparr>heartbeat_timer_C := None\<rparr>)"
    by (simp_all add: kept_def handle_disconnect_def close_socket_def)
  ultimately show ?thesis
    by (simp add: on_heartbeat_C_def Let_def)
qed

text \<open>What a completed body read does to a client in order.\<close>

lemma on_body_read_C_ok:
  assumes "\<not> shutting_down_C c" and "pool_ok (io_pool_C c)" and "length bs \<le> BLOCK_SIZE"
  defines "c1 \<equiv> c\<lparr>read_pending_C := NoRead, body_buf_C := (body_buf_C c)\<lparr>buf_data := bs\<rparr>,
      io_pool_C := butlast (io_pool_C c)\<rparr>"
  shows "on_body_read_C push False bs True c = shutdown_begin_C c1"
    and "on_body_read_C push False bs False c = do_read_header_C
      (if push (length (receive_queue_C c))
       then c1\<lparr>receive_queue_C := receive_queue_C c @ [bs], arrivals_C := arrivals_C c @ [(bs, True)]\<rparr>
       else c1\<lparr>dropped_packets_C := dropped_packets_C c + 1, arrivals_C := arrivals_C c @ [(bs, False)]\<rparr>)"
proof -
  have sd: "shutting_down_C (shutdown_begin_C c1)"
    using assms(1) by (simp add: shutdown_begin_C_def shutdown_end_C_def close_socket_def Let_def c1_def)
  show "on_body_read_C push False bs True c = shutdown_begin_C c1"
    using assms sd by (simp add: on_body_read_C_def acquire_props memcpy_fill Let_def)
  show "on_body_read_C push False bs False c = do_read_header_C
      (if push (length (receive_queue_C c))
       then c1\<lparr>receive_queue_C := receive_queue_C c @ [bs], arrivals_C := arrivals_C c @ [(bs, True)]\<rparr>
       else c1\<lparr>dropped_packets_C := dropped_packets_C c + 1, arrivals_C := arrivals_C c @ [(bs, False)]\<rparr>)"
    using assms by (simp add: on_body_read_C_def acquire_props memcpy_fill Let_def)
qed

lemma mirrors_body_read:
  assumes "\<not> shutting_down_C c" and "pool_ok (io_pool_C c)" and "length bs \<le> BLOCK_SIZE"
    and c': "c' = on_body_read_C push False bs False c"
  shows "(on_body_read False bs (session_of cs c))\<lparr>pool := io_pool_C c'\<rparr> = session_of (cs @ [OnReceive 0 bs]) c'"
    and "map fst (arrivals_C c') = map fst (arrivals_C c) @ [bs]"
  using assms(1-3) unfolding c' on_body_read_C_ok(2) [OF assms(1-3)]
  by (simp_all add: on_body_read_def acquire_props memcpy_fill Let_def do_read_header_def
      do_read_header_C_def session_of_def)

lemma send_C_eq:
  assumes "pool_ok (game_pool_C c)"
  shows "send_C p c =
    (if sendable_payload p \<and> connected_C c \<and> \<not> shutting_down_C c
     then c\<lparr>game_pool_C := butlast (game_pool_C c),
            io_tasks_C := io_tasks_C c @ [PostedFrame \<lparr>buf_data = frame_of p, buf_capacity = BLOCK_SIZE\<rparr>],
            sent_C := sent_C c @ [p]\<rparr>
     else c)"
  using build_data_frame_eq [OF assms, of p] by (auto simp: send_C_def sendable_payload_def)

section \<open>The invariant\<close>

lemma client_inv_kept: "client_inv c \<Longrightarrow> kept c c' \<Longrightarrow> client_inv c'"
  by (auto simp: client_inv_def kept_def io_running_def)

lemma client_inv_shutdown_begin:
  assumes "client_inv c"
  shows "client_inv (shutdown_begin_C c)"
  using assms
  by (auto simp: client_inv_def shutdown_begin_C_def io_running_def Let_def)

lemma client_inv_run_io_task:
  assumes "client_inv c" and "may_write c" and "io_tasks_C c = t # ts"
  shows "client_inv (run_io_task t (c\<lparr>io_tasks_C := ts\<rparr>))"
proof (cases t)
  case (PostedFrame f)
  have inv: "client_inv (c\<lparr>io_tasks_C := ts\<rparr>)"
    using assms PostedFrame by (auto simp: client_inv_def io_running_def)
  moreover have "kept (c\<lparr>io_tasks_C := ts\<rparr>) (release_C f (c\<lparr>io_tasks_C := ts\<rparr>))"
    by (simp add: kept_def release_C_def)
  moreover have "kept (c\<lparr>io_tasks_C := ts\<rparr>) (enqueue_frame_C f (c\<lparr>io_tasks_C := ts\<rparr>))"
    using assms(2) by (intro kept_enqueue_frame_C) (simp_all add: kept_def may_write_def)
  ultimately show ?thesis
    using PostedFrame by (auto intro: client_inv_kept)
next
  case PostedShutdown
  then show ?thesis
    using assms by (auto simp: client_inv_def close_socket_def io_running_def)
qed

text \<open>A body read that completes, with room for the body known from the session.\<close>

lemma client_inv_body_read:
  assumes inv: "client_inv c" and len: "\<not> shutting_down_C c \<Longrightarrow> length bs \<le> BLOCK_SIZE"
  shows "client_inv (on_body_read_C push ec bs begins (c\<lparr>inbox_C := x\<rparr>))"
proof (cases "ec \<or> shutting_down_C c")
  case True
  have "kept c (handle_disconnect (c\<lparr>inbox_C := x, read_pending_C := NoRead,
      body_buf_C := (body_buf_C c)\<lparr>buf_data := bs\<rparr>\<rparr>))"
    by (rule kept_handle_disconnect) (simp add: kept_def)
  then show ?thesis
    using True client_inv_kept [OF inv] by (auto simp: on_body_read_C_def Let_def)
next
  case False
  let ?c = "c\<lparr>inbox_C := x\<rparr>"
  have ok: "\<not> shutting_down_C ?c" "pool_ok (io_pool_C ?c)" "length bs \<le> BLOCK_SIZE"
    using False inv len by (auto simp: client_inv_def)
  have "kept c (c\<lparr>inbox_C := x, read_pending_C := NoRead, body_buf_C := (body_buf_C c)\<lparr>buf_data := bs\<rparr>,
      io_pool_C := butlast (io_pool_C c)\<rparr>)" (is "kept c ?c1")
    by (simp add: kept_def)
  from client_inv_kept [OF inv this] have inv1: "client_inv ?c1" .
  show ?thesis
  proof (cases begins)
    case True
    then show ?thesis
      using on_body_read_C_ok(1) [OF ok] False client_inv_shutdown_begin [OF inv1] by simp
  next
    case False
    then show ?thesis
      using on_body_read_C_ok(2) [OF ok] \<open>\<not> (ec \<or> shutting_down_C c)\<close> inv1
      by (auto simp: client_inv_def do_read_header_C_def io_running_def simp flip: append_assoc)
  qed
qed

lemma client_inv_fire:
  assumes inv: "client_inv c" and en: "client_enabled e c"
    and body: "\<not> shutting_down_C c \<Longrightarrow> length (buf_data (body_buf_C c)) \<le> BLOCK_SIZE"
    and queue: "write_pending_C c \<noteq> None \<Longrightarrow> write_queue_C c \<noteq> []" and may: "may_write c"
  shows "client_inv (client_fire push e c)"
proof -
  have pools: "pool_ok (io_pool_C c)" "pool_ok (game_pool_C c)"
    using inv by (simp_all add: client_inv_def)
  show ?thesis
  proof (cases e)
    case (GameSend p)
    then show ?thesis
      using inv by (auto simp: send_C_eq [OF pools(2)] client_inv_def io_running_def)
  next
    case GamePoll
    then show ?thesis
      using inv by (auto simp: poll_packet_C_def client_inv_def io_running_def split: list.split)
  next
    case GameShutdown
    then show ?thesis using client_inv_shutdown_begin [OF inv] by simp
  next
    case GameShutdownEnd
    then show ?thesis using inv en by (auto simp: client_inv_def shutdown_end_C_def)
  next
    case IoTask
    then obtain t ts where "io_tasks_C c = t # ts" using en by (cases "io_tasks_C c") auto
    then show ?thesis using IoTask client_inv_run_io_task [OF inv may] by simp
  next
    case IoHeaderRead
    then show ?thesis using client_inv_kept [OF inv kept_on_header_read_C] by simp
  next
    case IoHeaderFailed
    then show ?thesis using client_inv_kept [OF inv kept_on_header_read_C [of c _ _ "inbox_C c"]] by simp
  next
    case (IoBodyRead b)
    have "length (take (length (buf_data (body_buf_C c))) (inbox_C c)) \<le> BLOCK_SIZE" if "\<not> shutting_down_C c"
      using body [OF that] by simp
    from client_inv_body_read [OF inv this] show ?thesis
      using IoBodyRead by (simp add: Let_def)
  next
    case IoBodyFailed
    then show ?thesis
      using client_inv_body_read [OF inv body, of _ True _ "inbox_C c"] by simp
  next
    case IoWritten
    then show ?thesis
      using client_inv_kept [OF inv kept_on_written_C] queue inv by (auto split: option.split)
  next
    case (IoWriteFailed n)
    then show ?thesis
      using client_inv_kept [OF inv kept_on_written_C] queue inv by (auto split: option.split)
  next
    case IoHeartbeatFired
    then show ?thesis using client_inv_kept [OF inv kept_on_heartbeat_C [OF pools(1) may]] by simp
  next
    case IoHeartbeatCancelled
    then show ?thesis using client_inv_kept [OF inv kept_on_heartbeat_C [OF pools(1) may]] by simp
  next
    case (ClientAdvance n)
    then show ?thesis using inv by (simp add: client_inv_def io_running_def)
  qed
qed

section \<open>The simulation\<close>

lemma mirror_reach:
  assumes "conn_reach s0 (session_of cs c)" and "enabled e (session_of cs c)"
    and "(fire e (session_of cs c))\<lparr>pool := io_pool_C c'\<rparr> = session_of cs' c'"
    and "pool_ok (io_pool_C c')"
  shows "conn_reach s0 (session_of cs' c')"
proof -
  have "conn_reach s0 (fire (OtherThread (io_pool_C c')) (fire e (session_of cs c)))"
    using assms(4) by (intro conn_reach.there assms(1,2)) simp
  then show ?thesis by (simp only: fire.simps assms(3))
qed

text \<open>A step that makes no callback but \<^verbatim>\<open>on_close_\<close>.\<close>

lemma refines_mirrored:
  assumes "conn_reach s0 (session_of cs c)" and "refines c (session_of cs c)" and "\<not> shutting_down_C c"
    and "enabled e (session_of cs c)"
    and "mirrors cs c (fire e (session_of cs c)) c'"
    and "pool_ok (io_pool_C c')" and "arrivals_C c' = arrivals_C c" and "\<not> shutting_down_C c'"
  shows "\<exists>s'. conn_reach s0 s' \<and> refines c' s'"
proof (intro exI conjI)
  show "conn_reach s0 (session_of (cs @ close_call c c') c')"
    using mirror_reach [OF assms(1,4)] assms(5,6) by (simp add: mirrors_def)
  show "refines c' (session_of (cs @ close_call c c') c')"
    using assms(2,7,8) by (simp add: refines_def split: if_splits)
qed

lemma mirrors_from: "mirrors cs d s' c' \<Longrightarrow> connected_C c = connected_C d \<Longrightarrow> mirrors cs c s' c'"
  by (simp add: mirrors_def close_call_def)

lemma session_of_updates:
  "(session_of cs c)\<lparr>inbox := x\<rparr> = session_of cs (c\<lparr>inbox_C := x\<rparr>)"
  "(session_of cs c)\<lparr>outbox := x\<rparr> = session_of cs (c\<lparr>outbox_C := x\<rparr>)"
  "(session_of cs c)\<lparr>strand := frame_tasks ts\<rparr> = session_of cs (c\<lparr>io_tasks_C := ts\<rparr>)"
  by (simp_all add: session_of_def)

text \<open>The session event that matches a step of the I/O thread, the body read apart.\<close>

fun session_event :: "client_event \<Rightarrow> conn_event option" where
  "session_event IoTask = Some RunTask"
| "session_event IoHeaderRead = Some HeaderRead"
| "session_event IoHeaderFailed = Some HeaderFailed"
| "session_event IoBodyFailed = Some BodyFailed"
| "session_event IoWritten = Some Written"
| "session_event (IoWriteFailed n) = Some (WriteFailed n)"
| "session_event IoHeartbeatFired = Some HeartbeatFired"
| "session_event IoHeartbeatCancelled = Some HeartbeatCancelled"
| "session_event (ClientAdvance n) = Some (Advance n)"
| "session_event _ = None"

lemma posted_frame:
  assumes "client_inv c" and "\<not> shutting_down_C c" and "io_tasks_C c \<noteq> []"
  obtains f ts where "io_tasks_C c = PostedFrame f # ts"
proof -
  obtain t ts where "io_tasks_C c = t # ts" using assms(3) by (cases "io_tasks_C c") auto
  then show ?thesis using assms(1,2) that by (cases t) (auto simp: client_inv_def)
qed

lemma session_event_enabled:
  assumes "session_event e = Some e'" and "client_inv c" and "\<not> shutting_down_C c" and "client_enabled e c"
  shows "enabled e' (session_of cs c)"
proof (cases e)
  case IoTask
  then obtain f ts where "io_tasks_C c = PostedFrame f # ts" using assms posted_frame by auto
  then show ?thesis using IoTask assms(1) by auto
next
  case IoHeartbeatFired
  then show ?thesis
    using assms(1,4)
    by (cases "heartbeat_timer_C c"; cases "cancelled_at (the (heartbeat_timer_C c))") auto
next
  case IoWritten
  then show ?thesis using assms(1,4) by auto
next
  case (IoWriteFailed n)
  then show ?thesis using assms(1,4) by auto
qed (use assms(1,4) in auto)

lemma session_event_mirrors:
  assumes "session_event e = Some e'" and "client_inv c" and op: "\<not> shutting_down_C c"
    and "client_enabled e c"
  shows "mirrors cs c (fire e' (session_of cs c)) (client_fire push e c)"
proof (cases e)
  case IoTask
  then obtain f ts where t: "io_tasks_C c = PostedFrame f # ts" using assms posted_frame by auto
  have "mirrors cs c (enqueue_write f (session_of cs (c\<lparr>io_tasks_C := ts\<rparr>))) (enqueue_frame_C f (c\<lparr>io_tasks_C := ts\<rparr>))"
    using op by (intro mirrors_from [OF mirrors_enqueue]) simp_all
  then show ?thesis using IoTask t op assms(1) by (auto simp: session_of_updates)
next
  case IoHeaderRead
  have "mirrors cs c (on_header_read ec bs (session_of cs (c\<lparr>inbox_C := x\<rparr>))) (on_header_read_C ec bs (c\<lparr>inbox_C := x\<rparr>))" for ec bs x
    using op by (intro mirrors_from [OF mirrors_header]) simp_all
  then show ?thesis using IoHeaderRead assms(1) by (auto simp: session_of_updates)
next
  case IoHeaderFailed
  then show ?thesis using assms(1) mirrors_header [OF op] by auto
next
  case IoBodyFailed
  then show ?thesis using assms(1) mirrors_body_failed by auto
next
  case IoWritten
  have "mirrors cs c (on_written ec (session_of cs (c\<lparr>outbox_C := x\<rparr>))) (on_written_C ec (c\<lparr>outbox_C := x\<rparr>))" for ec x
    using op by (intro mirrors_from [OF mirrors_written]) simp_all
  then show ?thesis using IoWritten assms(1,4) by (auto simp: session_of_updates split: option.splits)
next
  case (IoWriteFailed n)
  have "mirrors cs c (on_written ec (session_of cs (c\<lparr>outbox_C := x\<rparr>))) (on_written_C ec (c\<lparr>outbox_C := x\<rparr>))" for ec x
    using op by (intro mirrors_from [OF mirrors_written]) simp_all
  then show ?thesis
    using IoWriteFailed assms(1,4) mirrors_written [OF op] by (auto simp: session_of_updates split: option.splits)
qed (use assms mirrors_heartbeat [OF op] in \<open>auto simp: client_inv_def mirrors_def close_call_def session_of_def\<close>)

lemma arrivals_same [simp]:
  "arrivals_C (handle_disconnect c) = arrivals_C c"
  "arrivals_C (release_C f c) = arrivals_C c"
  "arrivals_C (enqueue_frame_C f c) = arrivals_C c"
  "arrivals_C (on_header_read_C ec bs c) = arrivals_C c"
  "arrivals_C (on_written_C ec c) = arrivals_C c"
  by (simp_all add: client_defs enqueue_frame_C_def enqueue_frame_def on_header_read_C_def on_written_C_def Let_def
      split: sum.split list.split)

lemma arrivals_more [simp]:
  "arrivals_C (on_heartbeat_C ec c) = arrivals_C c"
  "arrivals_C (run_io_task t c) = arrivals_C c"
proof -
  have "arrivals_C (send_keepalive_C c') = arrivals_C c'" for c'
    by (simp add: send_keepalive_C_def split: option.split prod.split)
  then show "arrivals_C (on_heartbeat_C ec c) = arrivals_C c"
    by (simp add: on_heartbeat_C_def start_heartbeat_C_def Let_def)
  show "arrivals_C (run_io_task t c) = arrivals_C c"
    by (cases t) (simp_all add: close_socket_def)
qed

lemma session_event_arrivals:
  assumes "session_event e = Some e'"
  shows "arrivals_C (client_fire push e c) = arrivals_C c"
  using assms by (cases e) (simp_all add: on_body_read_C_def Let_def split: list.split option.split)

lemma refines_body_step:
  assumes reach: "conn_reach s0 (session_of cs c)" and ref: "refines c (session_of cs c)" and inv: "client_inv c"
    and op: "\<not> shutting_down_C c" and en: "client_enabled (IoBodyRead False) c"
    and body: "length (buf_data (body_buf_C c)) \<le> BLOCK_SIZE"
  shows "\<exists>s'. conn_reach s0 s' \<and> refines (client_fire push (IoBodyRead False) c) s'"
proof -
  let ?n = "length (buf_data (body_buf_C c))" and ?c' = "client_fire push (IoBodyRead False) c"
  let ?bs = "take ?n (inbox_C c)" and ?d = "c\<lparr>inbox_C := drop ?n (inbox_C c)\<rparr>"
  have d: "\<not> shutting_down_C ?d" "pool_ok (io_pool_C ?d)" "length ?bs \<le> BLOCK_SIZE"
    using op inv body by (simp_all add: client_inv_def)
  have c': "?c' = on_body_read_C push False ?bs False ?d"
    by (simp add: Let_def)
  have same: "\<not> shutting_down_C ?c'" "io_pool_C ?c' = butlast (io_pool_C c)"
    unfolding c' on_body_read_C_ok(2) [OF d] using op by (simp_all add: do_read_header_C_def)
  have fire: "fire BodyRead (session_of cs c) = on_body_read False ?bs (session_of cs ?d)"
    by (simp add: Let_def session_of_updates)
  have "enabled BodyRead (session_of cs c)"
    using en by simp
  moreover have "pool_ok (io_pool_C ?c')" unfolding same using d(2) by simp
  ultimately have "conn_reach s0 (session_of (cs @ [OnReceive 0 ?bs]) ?c')"
    by (rule mirror_reach [OF reach _ mirrors_body_read(1) [OF d c', of cs, folded fire]])
  moreover have "refines ?c' (session_of (cs @ [OnReceive 0 ?bs]) ?c')"
    using mirrors_body_read(2) [OF d c'] ref op same(1) by (simp add: refines_def)
  ultimately show ?thesis by blast
qed

lemma refines_send_step:
  assumes reach: "conn_reach s0 (session_of cs c)" and ref: "refines c (session_of cs c)" and inv: "client_inv c"
    and op: "\<not> shutting_down_C c"
  shows "\<exists>s'. conn_reach s0 s' \<and> refines (client_fire push (GameSend p) c) s'"
proof (cases "sendable_payload p \<and> connected_C c")
  case True
  have pools: "pool_ok (io_pool_C c)" "pool_ok (game_pool_C c)" using inv by (simp_all add: client_inv_def)
  show ?thesis
    by (rule refines_mirrored [OF reach ref op, of "Send p"])
       (use True op pools in \<open>auto simp: mirrors_def send_eq send_C_eq session_of_def close_call_def\<close>)
next
  case False
  then have "client_fire push (GameSend p) c = c"
    using inv by (auto simp: send_C_eq client_inv_def)
  then show ?thesis using reach ref by metis
qed

lemma shutting_down_same [simp]:
  "shutting_down_C (handle_disconnect c) = shutting_down_C c"
  "shutting_down_C (do_read_header_C c) = shutting_down_C c"
  "shutting_down_C (on_header_read_C ec bs c) = shutting_down_C c"
  "shutting_down_C (on_written_C ec c) = shutting_down_C c"
  "shutting_down_C (send_C p c) = shutting_down_C c"
  "shutting_down_C (snd (poll_packet_C c)) = shutting_down_C c"
  "shutting_down_C (send_keepalive_C c) = shutting_down_C c"
  "shutting_down_C (on_heartbeat_C ec c) = shutting_down_C c"
  by (simp_all add: client_defs on_header_read_C_def on_written_C_def send_C_def poll_packet_C_def
      send_keepalive_C_def on_heartbeat_C_def Let_def split: sum.split list.split option.split prod.split)

lemma shutdown_begin_flag [simp]: "shutting_down_C (shutdown_begin_C c)"
  by (simp add: shutdown_begin_C_def shutdown_end_C_def close_socket_def Let_def)

lemma refines_open_step:
  assumes reach: "conn_reach s0 s" and sinv: "session_inv s" and ref: "refines c s" and inv: "client_inv c"
    and en: "client_enabled e c" and op: "\<not> shutting_down_C c"
    and op': "\<not> shutting_down_C (client_fire push e c)" and inv': "client_inv (client_fire push e c)"
  shows "\<exists>s'. conn_reach s0 s' \<and> refines (client_fire push e c) s'"
proof -
  define cs where "cs = calls s"
  have s: "s = session_of cs c" using ref op by (auto simp: refines_def cs_def)
  have body: "length (buf_data (body_buf_C c)) \<le> BLOCK_SIZE"
    using sinv by (simp add: s session_inv_defs wire_consts)
  note reach = reach [unfolded s] and ref = ref [unfolded s]
  show ?thesis
  proof (cases "session_event e")
    case (Some e')
    show ?thesis
      using session_event_enabled [OF Some inv op en] session_event_mirrors [OF Some inv op en]
        session_event_arrivals [OF Some] inv' op'
      by (intro refines_mirrored [OF reach ref op]) (auto simp: client_inv_def)
  next
    case None
    then consider p where "e = GameSend p" | "e = GamePoll" | "e = GameShutdown" | "e = GameShutdownEnd"
      | b where "e = IoBodyRead b" by (cases e) auto
    then show ?thesis
    proof cases
      case 1
      then show ?thesis using refines_send_step [OF reach ref inv op] by simp
    next
      case 2
      then show ?thesis
        using op reach ref
        by (auto simp: poll_packet_C_def refines_def session_of_def split: list.split intro!: exI [of _ "session_of cs c"])
    next
      case 3
      then show ?thesis using op' by simp
    next
      case 4
      then show ?thesis using en inv op by (simp add: client_inv_def)
    next
      case 5
      have "\<not> b"
        using op' op inv body on_body_read_C_ok(1) [of "c\<lparr>inbox_C := x\<rparr>" "take n (inbox_C c)" push for x n]
        by (auto simp: 5 client_inv_def Let_def)
      then show ?thesis using refines_body_step [OF reach ref inv op _ body] en 5 by simp
    qed
  qed
qed

text \<open>A session can be closed at any time: its pending read fails.\<close>

lemma reach_closed:
  assumes reach: "conn_reach s0 s" and inv: "session_inv s"
  shows "\<exists>s'. conn_reach s0 s' \<and> closed s' \<and> write_queue s' = write_queue s
    \<and> write_pending s' = write_pending s \<and> strand s' = strand s \<and> outbox s' = outbox s
    \<and> sent s' = sent s \<and> received (calls s') = received (calls s)"
proof (cases "closed s")
  case False
  then have "read_pending s \<noteq> NoRead" using inv by (simp add: session_inv_defs)
  then have "enabled HeaderFailed s \<or> enabled BodyFailed s" by (cases "read_pending s") auto
  moreover have "closed (fire e s) \<and> write_queue (fire e s) = write_queue s
      \<and> write_pending (fire e s) = write_pending s \<and> strand (fire e s) = strand s
      \<and> outbox (fire e s) = outbox s \<and> sent (fire e s) = sent s
      \<and> received (calls (fire e s)) = received (calls s)" if "e = HeaderFailed \<or> e = BodyFailed" for e
    using that False by (auto simp: on_header_read_def on_body_read_def handle_close_def Let_def)
  ultimately show ?thesis
    using conn_reach.there [OF reach] by metis
qed (use reach in blast)

lemma shutting_down_run_io_task [simp]: "shutting_down_C (run_io_task t c) = shutting_down_C c"
  by (cases t) (simp_all add: release_C_def close_socket_def)

lemma shutdown_event:
  assumes "\<not> shutting_down_C c" and "shutting_down_C (client_fire push e c)"
  shows "e = GameShutdown \<or> e = IoBodyRead True"
proof (cases e)
  case (IoBodyRead b)
  then show ?thesis
    using assms by (cases b) (simp_all add: on_body_read_C_def Let_def split: option.splits prod.splits if_splits)
qed (use assms in \<open>simp_all add: shutdown_end_C_def on_body_read_C_def Let_def split: list.splits option.splits prod.splits\<close>)

lemma refines_shutdown:
  assumes reach: "conn_reach s0 s" and sinv: "session_inv s" and ref: "refines c s" and inv: "client_inv c"
    and op: "\<not> shutting_down_C c" and sd: "shutting_down_C (client_fire push e c)"
  shows "\<exists>s'. conn_reach s0 s' \<and> refines (client_fire push e c) s'"
proof -
  let ?c' = "client_fire push e c"
  have s: "s = session_of (calls s) c" using ref op by (simp add: refines_def)
  have pool: "pool_ok (io_pool_C c)" "pool_ok (game_pool_C c)" using inv by (simp_all add: client_inv_def)
  have running: "io_running c" using inv op by (auto simp: client_inv_def)
  have "length (buf_data (body_buf s)) \<le> BLOCK_SIZE" using sinv by (simp add: session_inv_defs wire_consts)
  moreover have "body_buf s = body_buf_C c" by (subst s) simp
  ultimately have body: "length (buf_data (body_buf_C c)) \<le> BLOCK_SIZE" by simp
  have "write_queue_C ?c' = write_queue_C c \<and> write_pending_C ?c' = write_pending_C c
      \<and> frame_tasks (io_tasks_C ?c') = frame_tasks (io_tasks_C c) \<and> outbox_C ?c' = outbox_C c
      \<and> sent_C ?c' = sent_C c \<and> arrivals_C ?c' = arrivals_C c"
  proof (cases "e = GameShutdown")
    case True
    then show ?thesis using op running by (simp add: shutdown_begin_C_def io_running_def Let_def)
  next
    case False
    then have e: "e = IoBodyRead True" using shutdown_event [OF op sd] by simp
    let ?n = "length (buf_data (body_buf_C c))"
    let ?d = "c\<lparr>inbox_C := drop ?n (inbox_C c)\<rparr>"
    have d: "\<not> shutting_down_C ?d" "pool_ok (io_pool_C ?d)" "length (take ?n (inbox_C c)) \<le> BLOCK_SIZE"
      using op pool body by simp_all
    show ?thesis
      using on_body_read_C_ok(1) [OF d] e op running
      by (simp add: shutdown_begin_C_def io_running_def Let_def)
  qed
  moreover have "write_queue s = write_queue_C c \<and> write_pending s = write_pending_C c
      \<and> strand s = frame_tasks (io_tasks_C c) \<and> outbox s = outbox_C c \<and> sent s = sent_C c"
    by (subst (1 2 3 4 5) s) simp
  moreover have "received (calls s) = map fst (arrivals_C c)" using ref by (simp add: refines_def)
  ultimately show ?thesis
    using reach_closed [OF reach sinv] sd unfolding refines_def closing_as_def by auto
qed

text \<open>Steps of a client that is shut down.\<close>

definition write_side :: "Client \<Rightarrow> Client \<Rightarrow> bool" where
  "write_side c c' \<longleftrightarrow>
     write_queue_C c' = write_queue_C c \<and> write_pending_C c' = write_pending_C c
     \<and> frame_tasks (io_tasks_C c') = frame_tasks (io_tasks_C c) \<and> outbox_C c' = outbox_C c
     \<and> sent_C c' = sent_C c \<and> arrivals_C c' = arrivals_C c"

lemma write_side_heartbeat: "shutting_down_C c \<Longrightarrow> write_side c (on_heartbeat_C ec c)"
  by (simp add: write_side_def on_heartbeat_C_def send_keepalive_C_def enqueue_frame_C_def client_defs
      Let_def split: option.split prod.split)

lemma write_side_step:
  assumes sd: "shutting_down_C c"
    and "e \<noteq> IoTask" and "e \<noteq> IoWritten" and "\<forall>n. e \<noteq> IoWriteFailed n"
  shows "write_side c (client_fire push e c)"
  by (cases e)
     (use assms in \<open>simp_all add: write_side_heartbeat\<close>,
      simp_all add: write_side_def send_C_def poll_packet_C_def shutdown_begin_C_def shutdown_end_C_def
        on_header_read_C_def on_body_read_C_def handle_disconnect_def close_socket_def Let_def split: list.split)

lemma closing_written:
  assumes reach: "conn_reach s0 s" and sinv: "session_inv s" and ref: "refines c s" and sd: "shutting_down_C c"
    and w: "write_pending_C c = Some (b, d)" and n: "b \<or> n = 0"
  shows "\<exists>s'. conn_reach s0 s' \<and> refines (on_written_C ec (c\<lparr>outbox_C := outbox_C c @ take n d\<rparr>)) s'"
proof (intro exI conjI)
  have cl: "closing_as c s" and rec: "received (calls s) = map fst (arrivals_C c)"
    using ref sd by (simp_all add: refines_def)
  then have ws: "write_pending s = Some (b, d)" using w by (simp add: closing_as_def)
  then obtain f fs where q: "write_queue s = f # fs"
    using sinv by (auto simp: session_inv_defs)
  then have qc: "write_queue_C c = f # fs" using cl by (simp add: closing_as_def)
  have "enabled (WriteFailed n) s" using ws n by simp
  with reach show "conn_reach s0 (fire (WriteFailed n) s)" by (rule conn_reach.there)
  show "refines (on_written_C ec (c\<lparr>outbox_C := outbox_C c @ take n d\<rparr>)) (fire (WriteFailed n) s)"
    using cl rec sd
    by (simp add: ws q w qc refines_def closing_as_def on_written_def on_written_C_def handle_close_def
        client_defs Let_def)
qed

lemma refines_closing_step:
  assumes reach: "conn_reach s0 s" and sinv: "session_inv s" and ref: "refines c s"
    and en: "client_enabled e c" and sd: "shutting_down_C c"
  shows "\<exists>s'. conn_reach s0 s' \<and> refines (client_fire push e c) s'"
proof -
  have cl: "closing_as c s" and rec: "received (calls s) = map fst (arrivals_C c)"
    using ref sd by (simp_all add: refines_def)
  have sd': "shutting_down_C (client_fire push e c)" if "write_side c (client_fire push e c)"
    using sd by (cases e) (simp_all add: shutdown_begin_C_def shutdown_end_C_def on_body_read_C_def
        Let_def split: list.split option.split)
  have same: ?thesis if "write_side c (client_fire push e c)"
    using reach sd' [OF that] that cl rec unfolding refines_def closing_as_def write_side_def by auto
  show ?thesis
  proof (cases e)
    case IoTask
    then obtain t ts where t: "io_tasks_C c = t # ts" using en by (cases "io_tasks_C c") auto
    show ?thesis
    proof (cases t)
      case (PostedFrame f)
      have "strand s = EnqueueWrite f # frame_tasks ts" "closed s"
        using cl t PostedFrame by (simp_all add: closing_as_def)
      then have "enabled RunTask s" "refines (client_fire push e c) (fire RunTask s)"
        using cl rec sd t PostedFrame IoTask
        by (simp_all add: refines_def closing_as_def enqueue_write_def release_C_def)
      then show ?thesis using conn_reach.there [OF reach] by blast
    next
      case PostedShutdown
      then show ?thesis using t IoTask by (intro same) (simp add: write_side_def close_socket_def)
    qed
  next
    case IoWritten
    then obtain b d where "write_pending_C c = Some (b, d)" "b"
      using en by (auto split: option.splits)
    then show ?thesis
      using closing_written [OF reach sinv ref sd, of b d "length d" False] IoWritten by simp
  next
    case (IoWriteFailed n)
    then obtain b d where "write_pending_C c = Some (b, d)" "b \<or> n = 0"
      using en by (auto split: option.splits)
    then show ?thesis
      using closing_written [OF reach sinv ref sd, of b d n True] IoWriteFailed by simp
  qed (use same write_side_step [OF sd, of e push] in blast)+
qed

section \<open>Reachable clients\<close>

definition client_ok :: "int \<Rightarrow> bytes \<Rightarrow> Client \<Rightarrow> bool" where
  "client_ok t stream c \<longleftrightarrow>
     client_inv c \<and> (\<exists>s. conn_reach (started 0 t stream) s \<and> refines c s)"

lemma client_ok_started: "client_ok t stream (client_started t stream)"
proof -
  have "started 0 t stream = session_of [] (client_started t stream)"
    by (simp add: started_def start_def Session_init_def handler_defs Session.extend_def SessionRun.extend_def
        client_started_def start_io_def Client_init_def client_defs session_of_def)
  moreover have "client_inv (client_started t stream)" "\<not> shutting_down_C (client_started t stream)"
      "arrivals_C (client_started t stream) = []"
    by (simp_all add: client_inv_def client_started_def start_io_def Client_init_def client_defs io_running_def)
  ultimately show ?thesis
    using conn_reach.here by (auto simp: client_ok_def refines_def intro!: exI [of _ "started 0 t stream"])
qed

lemma client_ok_attempt:
  assumes "client_ok t stream c"
  shows "client_ok t stream (client_attempt push e c)"
proof (cases "client_enabled e c")
  case en: True
  let ?c' = "client_fire push e c"
  obtain s where inv: "client_inv c" and reach: "conn_reach (started 0 t stream) s" and ref: "refines c s"
    using assms by (auto simp: client_ok_def)
  have sinv: "session_inv s" using reach_invs [OF reach] by simp
  have "write_queue_C c \<noteq> []" if "write_pending_C c \<noteq> None"
  proof -
    have "write_queue s = write_queue_C c" "write_pending s = write_pending_C c"
      using ref by (auto simp: refines_def closing_as_def split: if_splits) (metis session_of_sel)+
    then show ?thesis using that sinv by (auto simp: session_inv_defs)
  qed
  moreover have "length (buf_data (body_buf_C c)) \<le> BLOCK_SIZE" if "\<not> shutting_down_C c"
  proof -
    have "body_buf s = body_buf_C c"
      using ref that by (simp add: refines_def) (metis session_of_sel(9))
    then show ?thesis using sinv by (auto simp: session_inv_defs wire_consts)
  qed
  moreover have "may_write c"
  proof (cases "shutting_down_C c")
    case False
    then have "s = session_of (calls s) c" using ref by (simp add: refines_def)
    then have "session_inv (session_of (calls s) c)" using sinv by simp
    then have "write_inv (session_of (calls s) c)" by (simp add: session_inv_def)
    then show ?thesis by (auto simp: may_write_def write_inv_def)
  qed (simp add: may_write_def)
  ultimately have inv': "client_inv ?c'" using client_inv_fire [OF inv en] by blast
  have "\<exists>s'. conn_reach (started 0 t stream) s' \<and> refines ?c' s'"
    using refines_open_step [OF reach sinv ref inv en _ _ inv'] refines_shutdown [OF reach sinv ref inv]
      refines_closing_step [OF reach sinv ref en] by blast
  then show ?thesis using en inv' by (simp add: client_attempt_def client_ok_def)
qed (use assms in \<open>simp add: client_attempt_def\<close>)

interpretation cl: event_machine "client_attempt push" "client_ok t stream" for push t stream
  by unfold_locales (rule client_ok_attempt)

lemma client_run_ok: "client_ok t stream (client_run push es t stream)"
  unfolding client_run_def by (rule cl.run_invar [OF client_ok_started])

text \<open>When \<^verbatim>\<open>create\<close> succeeds, and with what client.\<close>

lemma create_C_Inr:
  "create_C host port os t = Inr c \<longleftrightarrow>
     (\<exists>endpoints stream. resolve_os os host (decimal (unat port)) = Inr endpoints
        \<and> connect_os os endpoints = Inr stream \<and> nodelay_ec os = None \<and> c = client_started t stream)"
  by (auto simp: create_C_def connect_def client_started_def split: option.splits sum.splits)

lemma refines_sel:
  assumes "refines c s"
  shows "outbox s = outbox_C c" and "sent s = sent_C c" and "received (calls s) = map fst (arrivals_C c)"
  using assms by (auto simp: refines_def closing_as_def split: if_splits) (metis session_of_sel)+

text \<open>The two directions between a client and a session that read what the other has written.\<close>

lemma client_to_session:
  assumes "client_ok t stream c" and "conn_reach (started j u stream') d" and "prefix stream' (outbox_C c)"
  shows "prefix (received (calls d)) (sent_C c)"
    and "\<not> shutting_down_C c \<Longrightarrow> is_connected c \<Longrightarrow> io_tasks_C c = [] \<Longrightarrow> write_queue_C c = []
      \<Longrightarrow> stream' = outbox_C c \<Longrightarrow> read_pending d = ReadHeader True \<Longrightarrow> inbox d = []
      \<Longrightarrow> received (calls d) = sent_C c"
proof -
  obtain s where s: "conn_reach (started 0 t stream) s" "refines c s"
    using assms(1) by (auto simp: client_ok_def)
  note sel = refines_sel [OF s(2)] and arrive = payloads_arrive [OF s(1) assms(2)]
  show "prefix (received (calls d)) (sent_C c)"
    using arrive(1) assms(3) sel by simp
  assume "\<not> shutting_down_C c" "is_connected c" "io_tasks_C c = []" "write_queue_C c = []"
    "stream' = outbox_C c" "read_pending d = ReadHeader True" "inbox d = []"
  moreover from this have "s = session_of (calls s) c" using s(2) by (simp add: refines_def)
  then have "closed s = (\<not> connected_C c)" "strand s = frame_tasks (io_tasks_C c)" "write_queue s = write_queue_C c"
    by (metis session_of_sel(1), metis session_of_sel(15), metis session_of_sel(2))
  ultimately show "received (calls d) = sent_C c"
    using arrive(2) sel by (simp add: is_connected_def)
qed

lemma session_to_client:
  assumes "client_ok t stream c" and "conn_reach (started j u stream') d" and "prefix stream (outbox d)"
  shows "prefix (map fst (arrivals_C c)) (sent d)"
    and "subseq (polled_C c) (sent d)"
    and "\<forall>a \<in> set (arrivals_C c). snd a \<Longrightarrow> prefix (polled_C c) (sent d)"
    and "\<not> shutting_down_C c \<Longrightarrow> read_pending_C c = ReadHeader True \<Longrightarrow> inbox_C c = []
      \<Longrightarrow> \<not> closed d \<Longrightarrow> strand d = [] \<Longrightarrow> write_queue d = [] \<Longrightarrow> stream = outbox d
      \<Longrightarrow> map fst (arrivals_C c) = sent d"
proof -
  obtain s where s: "conn_reach (started 0 t stream) s" "refines c s" and inv: "client_inv c"
    using assms(1) by (auto simp: client_ok_def)
  note sel = refines_sel [OF s(2)] and arrive = payloads_arrive [OF assms(2) s(1) assms(3)]
  show down: "prefix (map fst (arrivals_C c)) (sent d)"
    using arrive(1) sel by simp
  have polled: "prefix (polled_C c) (map fst (filter snd (arrivals_C c)))"
    using inv by (metis client_inv_def prefixI)
  have "subseq (map fst (filter snd (arrivals_C c))) (map fst (arrivals_C c))"
    by (rule subseq_map) simp
  from subseq_order.trans [OF subseq_order.trans [OF prefix_imp_subseq [OF polled] this] prefix_imp_subseq [OF down]]
  show "subseq (polled_C c) (sent d)" .
  show "prefix (polled_C c) (sent d)" if "\<forall>a \<in> set (arrivals_C c). snd a"
  proof -
    have "filter snd (arrivals_C c) = arrivals_C c" using that by simp
    from prefix_order.trans [OF polled [unfolded this] down] show ?thesis .
  qed
  assume *: "\<not> shutting_down_C c" "read_pending_C c = ReadHeader True" "inbox_C c = []"
    "\<not> closed d" "strand d = []" "write_queue d = []" "stream = outbox d"
  then have "s = session_of (calls s) c" using s(2) by (simp add: refines_def)
  then have "read_pending s = read_pending_C c" "inbox s = inbox_C c"
    by (metis session_of_sel(14), metis session_of_sel(11))
  then show "map fst (arrivals_C c) = sent d"
    using arrive(2) * sel by simp
qed

section \<open>The receive queue\<close>

lemma receive_queue_same [simp]:
  "receive_queue_C (handle_disconnect c) = receive_queue_C c"
  "receive_queue_C (do_read_header_C c) = receive_queue_C c"
  "receive_queue_C (on_header_read_C ec bs c) = receive_queue_C c"
  "receive_queue_C (on_written_C ec c) = receive_queue_C c"
  "receive_queue_C (send_C p c) = receive_queue_C c"
  "receive_queue_C (enqueue_frame_C f c) = receive_queue_C c"
  "receive_queue_C (shutdown_begin_C c) = receive_queue_C c"
  by (simp_all add: client_defs on_header_read_C_def on_written_C_def send_C_def enqueue_frame_C_def
      enqueue_frame_def shutdown_begin_C_def shutdown_end_C_def Let_def
      split: sum.split list.split option.split prod.split)

lemma receive_queue_more [simp]:
  "receive_queue_C (on_heartbeat_C ec c) = receive_queue_C c"
  "receive_queue_C (run_io_task t c) = receive_queue_C c"
proof -
  have "receive_queue_C (send_keepalive_C c') = receive_queue_C c'" for c'
    by (simp add: send_keepalive_C_def split: option.split prod.split)
  then show "receive_queue_C (on_heartbeat_C ec c) = receive_queue_C c"
    by (simp add: on_heartbeat_C_def start_heartbeat_C_def Let_def)
  show "receive_queue_C (run_io_task t c) = receive_queue_C c"
    by (cases t) (simp_all add: release_C_def close_socket_def)
qed

text \<open>A queue that refuses a packet when it is full never holds more than it can.\<close>

lemma receive_queue_bound:
  assumes "\<And>n. push n \<Longrightarrow> n < k"
  shows "length (receive_queue_C (client_run push es t stream)) \<le> k"
proof -
  have step: "length (receive_queue_C (client_attempt push e c)) \<le> k" if "length (receive_queue_C c) \<le> k" for e c
  proof (cases e)
    case (IoBodyRead b)
    then show ?thesis
      using that assms by (simp add: client_attempt_def on_body_read_C_def Let_def Suc_leI split: option.split prod.split)
  next
    case GamePoll
    then show ?thesis
      using that by (cases "receive_queue_C c") (simp_all add: client_attempt_def poll_packet_C_def)
  qed (use that in \<open>simp_all add: client_attempt_def on_body_read_C_def shutdown_end_C_def Let_def split: list.split option.split\<close>)
  have "length (receive_queue_C (fold (client_attempt push) es c)) \<le> k" if "length (receive_queue_C c) \<le> k" for c
    using that by (induction es arbitrary: c) (simp_all add: step)
  moreover have "receive_queue_C (client_started t stream) = []"
    by (simp add: client_started_def start_io_def Client_init_def client_defs)
  ultimately show ?thesis by (simp add: client_run_def)
qed

text \<open>A complete frame that has arrived is in the queue after the next two reads.\<close>

lemma client_frame_delivered:
  assumes at: "io_running c" "\<not> shutting_down_C c" "read_pending_C c = ReadHeader True" "socket_open_C c"
    and s: "inbox_C c = frame_of p @ s" and p: "sendable_payload p"
    and mem: "pool_ok (io_pool_C c)" and room: "push (length (receive_queue_C c))"
  shows "client_attempt push (IoBodyRead False) (client_attempt push IoHeaderRead c) =
    c\<lparr>inbox_C := s, header_buf_C := header_bytes 0 (of_nat (length p)), last_activity_C := now_C c,
      body_buf_C := \<lparr>buf_data = p, buf_capacity = max (buf_capacity (body_buf_C c)) (length p)\<rparr>,
      io_pool_C := butlast (io_pool_C c), receive_queue_C := receive_queue_C c @ [p],
      arrivals_C := arrivals_C c @ [(p, True)]\<rparr>"
proof -
  let ?h = "header_bytes 0 (of_nat (length p))"
  have n: "unat (of_nat (length p) :: u32) = length p" "0 < length p" "length p \<le> MAX_PAYLOAD_SIZE"
    using p by (auto simp: sendable_payload_def unat_small_length)
  have "client_attempt push IoHeaderRead c = do_read_body_C
      (c\<lparr>inbox_C := p @ s, read_pending_C := NoRead, header_buf_C := ?h, last_activity_C := now_C c,
         body_buf_C := vec_resize (length p) (body_buf_C c)\<rparr>)" (is "_ = do_read_body_C ?c1")
    using at s n by (simp add: client_attempt_def on_header_read_C_def frame_of_def decode_header_bytes_only
        HEADER_SIZE_def Let_def)
  moreover have "client_attempt push (IoBodyRead False) (do_read_body_C ?c1) =
      on_body_read_C push False p False ((do_read_body_C ?c1)\<lparr>inbox_C := s\<rparr>)"
    using at by (simp add: client_attempt_def do_read_body_C_def io_running_def Let_def)
  moreover have "length p \<le> BLOCK_SIZE" using n by (simp add: wire_consts)
  ultimately show ?thesis
    using at mem room by (simp add: on_body_read_C_ok do_read_body_C_def do_read_header_C_def vec_resize_def)
qed

end
