(* ===== verification/Client_Properties.thy ===== *)
theory Client_Properties
  imports Net_Client Transport_Properties
begin

text \<open>
  The properties of the transport client, alone and together with the server's session at the
  other end of the connection.
\<close>

section \<open>Example\<close>

text \<open>
  A client that sends one payload, reads one, and is shut down with a second payload still posted;
  the session at the other end sends the payload the client reads.
\<close>

definition queue_of_4096 :: "nat \<Rightarrow> bool" where "queue_of_4096 n \<longleftrightarrow> n < receive_capacity_C"

definition example_client :: Client where
  "example_client =
     client_run queue_of_4096
       [GameSend [1, 2], IoTask, IoWritten, IoHeaderRead, IoBodyRead False, GamePoll, GameSend [3],
        GameShutdown, IoTask, IoTask, GameShutdownEnd] 50 (frame_of [9])"

definition example_peer :: conn where
  "example_peer = fold attempt [Send [9], RunTask, Written, HeaderRead, BodyRead] (started 7 60 (frame_of [1, 2]))"

lemmas client_run_simps =
  client_attempt_def client_started_def start_io_def Client_init_def client_defs io_running_def
  send_C_eq enqueue_frame_C_def enqueue_frame_def on_written_C_def poll_packet_C_def
  shutdown_begin_C_def shutdown_end_C_def sendable_payload_def MAX_PENDING_WRITE_FRAMES_def
  MAX_PAYLOAD_SIZE_def Let_def

lemma example_client_run:
  "outbox_C example_client = frame_of [1, 2]" "sent_C example_client = [[1, 2], [3]]"
  "polled_C example_client = [[9]]" "arrivals_C example_client = [([9], True)]"
proof -
  let ?a = "client_attempt queue_of_4096"
  let ?c = "fold ?a [GameSend [1, 2], IoTask, IoWritten] (client_started 50 (frame_of [9]))"
  have d: "?a (IoBodyRead False) (?a IoHeaderRead ?c) =
      ?c\<lparr>inbox_C := [], header_buf_C := header_bytes 0 (of_nat (length [9 :: u8])), last_activity_C := now_C ?c,
        body_buf_C := \<lparr>buf_data = [9], buf_capacity = max (buf_capacity (body_buf_C ?c)) (length [9 :: u8])\<rparr>,
        io_pool_C := butlast (io_pool_C ?c), receive_queue_C := receive_queue_C ?c @ [[9]],
        arrivals_C := arrivals_C ?c @ [([9], True)]\<rparr>"
    by (rule client_frame_delivered) (simp_all add: client_run_simps release_def queue_of_4096_def receive_capacity_C_def pool_ok_def)
  have run: "example_client = fold ?a [GamePoll, GameSend [3], GameShutdown, IoTask, IoTask, GameShutdownEnd]
      (?a (IoBodyRead False) (?a IoHeaderRead ?c))"
    by (simp add: example_client_def client_run_def)
  show "outbox_C example_client = frame_of [1, 2]" "sent_C example_client = [[1, 2], [3]]"
      "polled_C example_client = [[9]]" "arrivals_C example_client = [([9], True)]"
    unfolding run d by (simp_all add: client_run_simps release_def)
qed

lemma example_peer_run:
  "outbox example_peer = frame_of [9]" "sent example_peer = [[9]]"
  "received (calls example_peer) = [[1, 2]]"
proof -
  let ?c = "fold attempt [Send [9], RunTask, Written] (started 7 60 (frame_of [1, 2]))"
  have c: "read_pending ?c = ReadHeader True" "socket_open ?c" "calls ?c = []" "inbox ?c = frame_of [1, 2] @ []"
      "outbox ?c = frame_of [9]" "sent ?c = [[9]]"
    by (simp_all add: run_simps release_def)
  have "conn_reach (started 7 60 (frame_of [1, 2])) ?c" by (rule reach_attempts [OF conn_reach.here])
  then have "session_inv ?c" using reach_invs by blast
  note d = frame_delivered [OF this c(1,2,4)]
  have run: "example_peer = attempt BodyRead (attempt HeaderRead ?c)" by (simp add: example_peer_def)
  show "received (calls example_peer) = [[1, 2]]"
    unfolding run using d(3) c(3) by (simp add: sendable_payload_def MAX_PAYLOAD_SIZE_def del: fold_simps)
  show "outbox example_peer = frame_of [9]" "sent example_peer = [[9]]"
    unfolding run using c(5,6) reads_keep_output by (simp_all del: fold_simps)
qed

lemma example_peer_reach: "conn_reach (started 7 60 (frame_of [1, 2])) example_peer"
  unfolding example_peer_def by (rule reach_attempts [OF conn_reach.here])

text \<open>
  C35: The client implements the same contract as a session of the server.  After every run of a
  client there is a reachable state of a session with the same stream, such that before
  \<^verbatim>\<open>shutdown\<close> the two agree in every member they share, and from \<^verbatim>\<open>shutdown\<close> on the client has the
  writing side of a session that is closed.  In both cases the payloads given to the network, the
  payloads posted and the payloads that arrived are the same, no undefined memory access has
  happened, what the game thread polled and what waits in the queue are the arrived payloads the
  queue has taken, in order, and \<^verbatim>\<open>dropped_packet_count\<close> counts the others.
\<close>

theorem client_refines_session:
  fixes push es t stream
  defines "c \<equiv> client_run push es t stream"
  shows "(\<exists>s. conn_reach (started 0 t stream) s \<and> refines c s
      \<and> outbox s = outbox_C c \<and> sent s = sent_C c \<and> received (calls s) = map fst (arrivals_C c))
    \<and> \<not> fault_C c
    \<and> polled_C c @ receive_queue_C c = map fst (filter snd (arrivals_C c))
    \<and> dropped_packet_count_C c = of_nat (length (filter (Not \<circ> snd) (arrivals_C c)))"
proof -
  have ok: "client_ok t stream c" unfolding c_def by (rule client_run_ok)
  then obtain s where s: "conn_reach (started 0 t stream) s" "refines c s" and inv: "client_inv c"
    by (auto simp: client_ok_def)
  then show ?thesis
    using refines_sel [OF s(2)] by (auto simp: client_inv_def dropped_packet_count_C_def comp_def)
qed

text \<open>
  C36: A client and the server session it is connected to, each reading an initial part of what the
  other has written: the session has handed up an initial part of the payloads the client has
  posted, and what has arrived at the client is an initial part of the payloads the session was
  asked to send, all of them if the session has none left and the client has read everything.  The
  game thread of the client polls the arrived payloads in order, without those that found the
  queue full; the queue never holds more than 4096.
\<close>

theorem client_server_exchange:
  fixes push es t stream and d :: conn
  defines "c \<equiv> client_run push es t stream"
  assumes "conn_reach (started j u stream') d"
    and "prefix stream' (outbox_C c)" and "prefix stream (outbox d)"
    and "\<And>n. push n \<longleftrightarrow> n < receive_capacity_C"
  shows "prefix (received (calls d)) (sent_C c)
    \<and> prefix (map fst (arrivals_C c)) (sent d)
    \<and> (\<not> shutting_down_C c \<and> read_pending_C c = ReadHeader True \<and> inbox_C c = []
       \<and> \<not> closed d \<and> strand d = [] \<and> write_queue d = [] \<and> stream = outbox d
         \<longrightarrow> map fst (arrivals_C c) = sent d)
    \<and> subseq (polled_C c) (sent d)
    \<and> (\<forall>a \<in> set (arrivals_C c). snd a) = (polled_C c @ receive_queue_C c = map fst (arrivals_C c))
    \<and> length (receive_queue_C c) \<le> 4096"
proof -
  have ok: "client_ok t stream c" unfolding c_def by (rule client_run_ok)
  have "polled_C c @ receive_queue_C c = map fst (filter snd (arrivals_C c))"
    using ok by (simp add: client_ok_def client_inv_def)
  moreover have "(\<forall>a \<in> set as. snd a) = (map fst (filter snd as) = map fst as)" for as :: "(bytes \<times> bool) list"
  proof
    assume "map fst (filter snd as) = map fst as"
    then have "length (filter snd as) = length as" by (metis length_map)
    then show "\<forall>a \<in> set as. snd a" by (metis length_filter_less less_irrefl)
  qed simp
  moreover have "length (receive_queue_C c) \<le> 4096"
    unfolding c_def by (rule receive_queue_bound) (simp add: assms(5) receive_capacity_C_def)
  ultimately show ?thesis
    using client_to_session(1) [OF ok assms(2,3)] session_to_client(1,2,4) [OF ok assms(2,4)] by simp
qed

theorem client_server_exchange_witness:
  "subseq (polled_C example_client) (sent example_peer)
   \<and> prefix (received (calls example_peer)) (sent_C example_client)"
proof -
  have "prefix (frame_of [1, 2]) (outbox_C example_client)" "prefix (frame_of [9]) (outbox example_peer)"
    by (simp_all add: example_client_run example_peer_run)
  note ex = client_server_exchange [OF example_peer_reach this [unfolded example_client_def] queue_of_4096_def]
  show ?thesis
    unfolding example_client_def using ex by (elim conjE, intro conjI)
qed

end
