(* ===== verification/Chat_Client.thy ===== *)
theory Chat_Client
  imports Night_Protocol Net_Client
begin

text \<open>
  The protocol layer of the chat client (\<^verbatim>\<open>ChatProtocolClient.h\<close>, \<^verbatim>\<open>ChatProtocolClient.cpp\<close>): it turns
  the requests of the user interface into messages, and the messages of the server into events.

  \<^verbatim>\<open>PollEvents\<close> polls until the receive queue is empty; packets the I/O thread pushes meanwhile
  count as pushed before or after the whole call.  \<open>chat_run\<close> lets the calls of the user interface
  and the events of the transport follow each other in any order.
\<close>

section \<open>Events\<close>

record ChatRoomInfo =
  room_id_CR :: u32
  room_name_CR :: string
  user_count_CR :: u32

datatype ChatProtocolEvent =
    ChatLoginSucceededEvent string
  | ChatLoginFailedEvent string
  | ChatRoomListEvent "ChatRoomInfo list"
  | ChatJoinRoomSucceededEvent ChatRoomInfo
  | ChatJoinRoomFailedEvent string
  | ChatMessageReceivedEvent u32 string string
  | ChatUserJoinedEvent u32 string
  | ChatUserLeftEvent u32 string
  | ChatSystemMessageEvent u32 string
  | ChatProtocolErrorEvent string

section \<open>ChatProtocolClient\<close>

record ChatProtocolClient =
  client_P :: "Client option"
  next_request_id_P :: u32

definition ChatProtocolClient_init :: ChatProtocolClient where
  "ChatProtocolClient_init = \<lparr>client_P = None, next_request_id_P = 1\<rparr>"

definition ToChatRoomInfo :: "RoomInfo \<Rightarrow> ChatRoomInfo" where
  "ToChatRoomInfo room =
     \<lparr>room_id_CR = room_id_I room, room_name_CR = ToUtf8 (room_name_I room),
      user_count_CR = user_count_I room\<rparr>"

text \<open>An existing client is destroyed by \<^verbatim>\<open>emplace\<close>, and by \<^verbatim>\<open>Disconnect\<close>.\<close>

definition Connect_P ::
    "string \<Rightarrow> u16 \<Rightarrow> connect_results \<Rightarrow> int \<Rightarrow> ChatProtocolClient
     \<Rightarrow> (string + unit) \<times> ChatProtocolClient" where
  "Connect_P host port os t p =
     (case create_C host port os t of
        Inl e \<Rightarrow> (Inl e, p)
      | Inr created \<Rightarrow> (Inr (), p\<lparr>client_P := Some created, next_request_id_P := 1\<rparr>))"

definition Disconnect_P :: "ChatProtocolClient \<Rightarrow> ChatProtocolClient" where
  "Disconnect_P p = p\<lparr>client_P := None\<rparr>"

definition IsConnected :: "ChatProtocolClient \<Rightarrow> bool" where
  "IsConnected p = (case client_P p of Some c \<Rightarrow> is_connected c | None \<Rightarrow> False)"

text \<open>\<^verbatim>\<open>Client::update\<close> is empty.\<close>

definition Update_P :: "ChatProtocolClient \<Rightarrow> ChatProtocolClient" where
  "Update_P p = p"

definition NextRequestId :: "ChatProtocolClient \<Rightarrow> u32 \<times> ChatProtocolClient" where
  "NextRequestId p = (next_request_id_P p, p\<lparr>next_request_id_P := next_request_id_P p + 1\<rparr>)"

definition SendBuffer :: "bytes \<Rightarrow> ChatProtocolClient \<Rightarrow> ChatProtocolClient" where
  "SendBuffer data p =
     (case client_P p of
        None \<Rightarrow> p
      | Some c \<Rightarrow> if data = [] then p else p\<lparr>client_P := Some (send_C data c)\<rparr>)"

text \<open>\<^verbatim>\<open>CreateString\<close> keeps every byte of the text.\<close>

definition CreateString :: "string \<Rightarrow> string option" where
  "CreateString value = Some value"

definition SendLoginRequest :: "flatbuffers \<Rightarrow> string \<Rightarrow> ChatProtocolClient \<Rightarrow> ChatProtocolClient" where
  "SendLoginRequest f display_name p =
     (if client_P p = None then p
      else
        let payload = CreateLoginRequest (CreateString display_name);
            (rid, p1) = NextRequestId p;
            message = CreateMessage rid MessagePayload_LoginRequest payload
        in SendBuffer (fb_build f message) p1)"

definition SendRoomListRequest :: "flatbuffers \<Rightarrow> ChatProtocolClient \<Rightarrow> ChatProtocolClient" where
  "SendRoomListRequest f p =
     (if client_P p = None then p
      else
        let (rid, p1) = NextRequestId p;
            message = CreateMessage rid MessagePayload_RoomListRequest CreateRoomListRequest
        in SendBuffer (fb_build f message) p1)"

definition SendJoinRoomRequest :: "flatbuffers \<Rightarrow> u32 \<Rightarrow> ChatProtocolClient \<Rightarrow> ChatProtocolClient" where
  "SendJoinRoomRequest f room p =
     (if client_P p = None then p
      else
        let (rid, p1) = NextRequestId p;
            message = CreateMessage rid MessagePayload_JoinRoomRequest (CreateJoinRoomRequest room)
        in SendBuffer (fb_build f message) p1)"

definition SendChatRequest :: "flatbuffers \<Rightarrow> string \<Rightarrow> ChatProtocolClient \<Rightarrow> ChatProtocolClient" where
  "SendChatRequest f txt p =
     (if client_P p = None then p
      else
        let payload = CreateChatSendRequest (CreateString txt);
            (rid, p1) = NextRequestId p;
            message = CreateMessage rid MessagePayload_ChatSendRequest payload
        in SendBuffer (fb_build f message) p1)"

definition CreateMockEvents :: "ChatProtocolEvent list" where
  "CreateMockEvents =
     [ChatRoomListEvent
        [\<lparr>room_id_CR = 1001, room_name_CR = ''Lobby'', user_count_CR = 12\<rparr>,
         \<lparr>room_id_CR = 1002, room_name_CR = ''Dev'', user_count_CR = 5\<rparr>,
         \<lparr>room_id_CR = 1003, room_name_CR = ''Chat'', user_count_CR = 8\<rparr>],
      ChatSystemMessageEvent 1001 ''Schema-based chat UI skeleton is ready.'']"

definition text_bad_schema :: string where
  "text_bad_schema = ''Received data does not match the Message schema.''"

definition DecodePacket :: "flatbuffers \<Rightarrow> bytes \<Rightarrow> ChatProtocolEvent list" where
  "DecodePacket f data =
     (if data = [] then []
      else case VerifiedMessage f data of
          None \<Rightarrow> [ChatProtocolErrorEvent text_bad_schema]
        | Some message \<Rightarrow>
            if payload_type message = MessagePayload_LoginResponse then
              (case payload_as_LoginResponse message of
                 None \<Rightarrow> []
               | Some (success, error_code, user) \<Rightarrow>
                   if success then
                     [ChatLoginSucceededEvent
                        (case user of Some u \<Rightarrow> ToUtf8 (display_name_U u) | None \<Rightarrow> [])]
                   else [ChatLoginFailedEvent (ToErrorString error_code)])
            else if payload_type message = MessagePayload_RoomListResponse then
              (case payload_as_RoomListResponse message of
                 None \<Rightarrow> []
               | Some rooms \<Rightarrow>
                   [ChatRoomListEvent
                      (case rooms of
                         None \<Rightarrow> []
                       | Some rs \<Rightarrow>
                           concat (map (\<lambda>room. case room of Some r \<Rightarrow> [ToChatRoomInfo r] | None \<Rightarrow> []) rs))])
            else if payload_type message = MessagePayload_JoinRoomResponse then
              (case payload_as_JoinRoomResponse message of
                 None \<Rightarrow> []
               | Some (success, error_code, room) \<Rightarrow>
                   (case (success, room) of
                      (True, Some r) \<Rightarrow> [ChatJoinRoomSucceededEvent (ToChatRoomInfo r)]
                    | _ \<Rightarrow> [ChatJoinRoomFailedEvent (ToErrorString error_code)]))
            else if payload_type message = MessagePayload_ChatBroadcast then
              (case payload_as_ChatBroadcast message of
                 None \<Rightarrow> []
               | Some (rid, _, sender_name, content, _) \<Rightarrow>
                   [ChatMessageReceivedEvent rid (ToUtf8 sender_name) (ToUtf8 content)])
            else if payload_type message = MessagePayload_UserJoinedEvent then
              (case payload_as_UserJoinedEvent message of
                 Some (rid, Some u) \<Rightarrow> [ChatUserJoinedEvent rid (ToUtf8 (display_name_U u))]
               | _ \<Rightarrow> [])
            else if payload_type message = MessagePayload_UserLeftEvent then
              (case payload_as_UserLeftEvent message of
                 Some (rid, Some u) \<Rightarrow> [ChatUserLeftEvent rid (ToUtf8 (display_name_U u))]
               | _ \<Rightarrow> [])
            else if payload_type message = MessagePayload_SystemMessageEvent then
              (case payload_as_SystemMessageEvent message of
                 None \<Rightarrow> []
               | Some (rid, content) \<Rightarrow> [ChatSystemMessageEvent rid (ToUtf8 content)])
            else [])"

function poll_loop :: "flatbuffers \<Rightarrow> ChatProtocolEvent list \<Rightarrow> Client \<Rightarrow> ChatProtocolEvent list \<times> Client" where
  "poll_loop f events c =
     (case poll_packet_C c of
        (None, c') \<Rightarrow> (events, c')
      | (Some packet, c') \<Rightarrow> poll_loop f (events @ DecodePacket f packet) c')"
  by pat_completeness auto
termination
  by (relation "measure (\<lambda>(_, _, c). length (receive_queue_C c))")
     (auto simp: poll_packet_C_def split: list.splits)

definition PollEvents :: "flatbuffers \<Rightarrow> ChatProtocolClient \<Rightarrow> ChatProtocolEvent list \<times> ChatProtocolClient" where
  "PollEvents f p =
     (case client_P p of
        None \<Rightarrow> ([], p)
      | Some c \<Rightarrow> let (events, c') = poll_loop f [] c in (events, p\<lparr>client_P := Some c'\<rparr>))"

section \<open>Runs\<close>

text \<open>A call of one of the four request functions, and the table it sends.\<close>

datatype chat_request = AskLogin string | AskRoomList | AskJoinRoom u32 | AskChat string

fun send_request :: "flatbuffers \<Rightarrow> chat_request \<Rightarrow> ChatProtocolClient \<Rightarrow> ChatProtocolClient" where
  "send_request f (AskLogin name) p = SendLoginRequest f name p"
| "send_request f AskRoomList p = SendRoomListRequest f p"
| "send_request f (AskJoinRoom room) p = SendJoinRoomRequest f room p"
| "send_request f (AskChat txt) p = SendChatRequest f txt p"

fun request_table :: "chat_request \<Rightarrow> payload_table" where
  "request_table (AskLogin name) = LoginRequest (Some name)"
| "request_table AskRoomList = RoomListRequest"
| "request_table (AskJoinRoom room) = JoinRoomRequest room"
| "request_table (AskChat txt) = ChatSendRequest (Some txt)"

datatype chat_action = Request chat_request | Poll | Transport client_event

text \<open>The events of the I/O thread and of time; the user interface is not shutting down.\<close>

fun transport_event :: "client_event \<Rightarrow> bool" where
  "transport_event (GameSend _) = False"
| "transport_event GamePoll = False"
| "transport_event GameShutdown = False"
| "transport_event GameShutdownEnd = False"
| "transport_event (IoBodyRead begins) = (\<not> begins)"
| "transport_event _ = True"

text \<open>The state of a run: the client, and the events its polls have returned so far.\<close>

type_synonym chat_state = "ChatProtocolClient \<times> ChatProtocolEvent list"

fun chat_step :: "flatbuffers \<Rightarrow> (nat \<Rightarrow> bool) \<Rightarrow> chat_action \<Rightarrow> chat_state \<Rightarrow> chat_state" where
  "chat_step f push (Request r) (p, seen) = (send_request f r p, seen)"
| "chat_step f push Poll (p, seen) = (let (events, p') = PollEvents f p in (p', seen @ events))"
| "chat_step f push (Transport e) (p, seen) =
     ((if transport_event e then p\<lparr>client_P := map_option (client_attempt push e) (client_P p)\<rparr> else p), seen)"

text \<open>
  A run from a successful \<^verbatim>\<open>Connect\<close> on, to a peer that will send \<open>stream\<close>.  \<open>Connect_connected\<close> below
  shows that every successful \<^verbatim>\<open>Connect\<close> leaves the client in this state.
\<close>

definition connected_to :: "bytes \<Rightarrow> connect_results" where
  "connected_to stream =
     \<lparr>resolve_os = (\<lambda>_ _. Inr []), connect_os = (\<lambda>_. Inr stream), nodelay_ec = None\<rparr>"

definition chat_run :: "flatbuffers \<Rightarrow> (nat \<Rightarrow> bool) \<Rightarrow> chat_action list \<Rightarrow> int \<Rightarrow> bytes \<Rightarrow> chat_state" where
  "chat_run f push sts t stream =
     fold (chat_step f push) sts
       (snd (Connect_P [] 0 (connected_to stream) t ChatProtocolClient_init), [])"

section \<open>Specifications\<close>

text \<open>The bytes of the \<open>n\<close>-th request of a connection.\<close>

definition request_bytes :: "flatbuffers \<Rightarrow> u32 \<Rightarrow> chat_request \<Rightarrow> bytes" where
  "request_bytes f n r = BuildMessage f n (MessagePayloadTraits (request_table r)) (request_table r)"

fun run_requests :: "chat_action list \<Rightarrow> chat_request list" where
  "run_requests [] = []"
| "run_requests (Request r # sts) = r # run_requests sts"
| "run_requests (_ # sts) = run_requests sts"

text \<open>The requests of a run with the ids they are sent with.\<close>

definition numbered :: "u32 \<Rightarrow> chat_request list \<Rightarrow> (u32 \<times> chat_request) list" where
  "numbered n rs = map (\<lambda>(i, r). (n + of_nat i, r)) (enumerate 0 rs)"

text \<open>What the user sees of a table the server sends.\<close>

fun chat_view :: "payload_table \<Rightarrow> ChatProtocolEvent list" where
  "chat_view (LoginResponse True _ u) =
     [ChatLoginSucceededEvent (ToUtf8 (Option.bind u display_name_U))]"
| "chat_view (LoginResponse False e _) = [ChatLoginFailedEvent (EnumNameErrorCode e)]"
| "chat_view (RoomListResponse None) = [ChatRoomListEvent []]"
| "chat_view (RoomListResponse (Some rs)) = [ChatRoomListEvent (map ToChatRoomInfo (List.map_filter id rs))]"
| "chat_view (JoinRoomResponse True _ (Some r)) = [ChatJoinRoomSucceededEvent (ToChatRoomInfo r)]"
| "chat_view (JoinRoomResponse _ e _) = [ChatJoinRoomFailedEvent (EnumNameErrorCode e)]"
| "chat_view (ChatBroadcast rid _ n c _) = [ChatMessageReceivedEvent rid (ToUtf8 n) (ToUtf8 c)]"
| "chat_view (UserJoinedEvent rid (Some u)) = [ChatUserJoinedEvent rid (ToUtf8 (display_name_U u))]"
| "chat_view (UserLeftEvent rid (Some u)) = [ChatUserLeftEvent rid (ToUtf8 (display_name_U u))]"
| "chat_view (SystemMessageEvent rid c) = [ChatSystemMessageEvent rid (ToUtf8 c)]"
| "chat_view _ = []"

section \<open>Lemmas\<close>

declare poll_loop.simps [simp del]

lemma poll_loop_eq:
  "poll_loop f events c =
     (events @ concat (map (DecodePacket f) (receive_queue_C c)),
      c\<lparr>receive_queue_C := [], polled_C := polled_C c @ receive_queue_C c\<rparr>)"
proof (induction "receive_queue_C c" arbitrary: events c)
  case Nil
  then show ?case by (subst poll_loop.simps) (simp add: poll_packet_C_def flip: Nil)
next
  case (Cons d ds)
  then show ?case
    using Cons.hyps(1) [of "c\<lparr>receive_queue_C := ds, polled_C := polled_C c @ [d]\<rparr>" "events @ DecodePacket f d"]
    by (subst poll_loop.simps) (simp add: poll_packet_C_def flip: Cons.hyps(2))
qed

lemma game_polls:
  "fold (client_attempt push) (replicate (length (receive_queue_C c)) GamePoll) c =
     c\<lparr>receive_queue_C := [], polled_C := polled_C c @ receive_queue_C c\<rparr>"
proof (induction "receive_queue_C c" arbitrary: c)
  case (Cons d ds)
  then show ?case
    using Cons.hyps(1) [of "c\<lparr>receive_queue_C := ds, polled_C := polled_C c @ [d]\<rparr>"]
    by (simp add: client_attempt_def poll_packet_C_def flip: Cons.hyps(2))
qed simp

lemma buildable_request [simp]: "buildable (request_table r)"
  by (cases r) simp_all

lemma request_bytes_nonempty: "fb_ok f \<Longrightarrow> request_bytes f n r \<noteq> []"
  by (simp add: request_bytes_def BuildMessage_ok)

lemma send_request_eq:
  assumes "fb_ok f" and "client_P p = Some c"
  shows "send_request f r p =
    p\<lparr>client_P := Some (send_C (request_bytes f (next_request_id_P p) r) c),
      next_request_id_P := next_request_id_P p + 1\<rparr>"
proof -
  have "request_bytes f n r \<noteq> []" for n
    by (rule request_bytes_nonempty [OF assms(1)])
  then show ?thesis
    using assms(2)
    by (cases r) (simp_all add: SendLoginRequest_def SendRoomListRequest_def SendJoinRoomRequest_def
        SendChatRequest_def NextRequestId_def SendBuffer_def request_bytes_def BuildMessage_def CreateString_def)
qed

lemma rooms_filter: "concat (map (\<lambda>room. case room of Some r \<Rightarrow> [ToChatRoomInfo r] | None \<Rightarrow> []) rs) =
      map ToChatRoomInfo (List.map_filter id rs)"
    by (induction rs) (auto simp: map_filter_simps split: option.split)

lemma DecodePacket_eq:
  assumes "fb_ok f" and "buildable tb"
  shows "DecodePacket f (BuildMessage f rq (MessagePayloadTraits tb) tb) = chat_view tb"
proof -
  have ne: "BuildMessage f rq (MessagePayloadTraits tb) tb \<noteq> []"
    by (rule BuildMessage_ok(1) [OF assms(1) refl assms(2)])
  note v = BuildMessage_roundtrip [OF assms(1) refl assms(2), of rq]
  have tags: "payload_type (CreateMessage rq (MessagePayloadTraits tb) tb) = MessagePayloadTraits tb" by simp
  show ?thesis
    unfolding DecodePacket_def v if_not_P [OF ne] option.case tags
    by (cases tb; cases "case tb of LoginResponse s e u \<Rightarrow> s | JoinRoomResponse s e r \<Rightarrow> s | _ \<Rightarrow> True";
        cases "case tb of UserJoinedEvent i u \<Rightarrow> u = None | UserLeftEvent i u \<Rightarrow> u = None
          | RoomListResponse rs \<Rightarrow> rs = None | JoinRoomResponse s e r \<Rightarrow> r = None
          | LoginResponse s e u \<Rightarrow> u = None | _ \<Rightarrow> True")
       (auto simp: payload_as_defs payload_tags ToErrorString_def ToUtf8_def rooms_filter)
qed

text \<open>What the I/O thread leaves alone: it never posts, never polls and never reconnects.\<close>

definition calm :: "Client \<Rightarrow> Client \<Rightarrow> bool" where
  "calm c c' \<longleftrightarrow>
     sent_C c' = sent_C c \<and> polled_C c' = polled_C c \<and> shutting_down_C c' = shutting_down_C c
     \<and> (connected_C c' \<longrightarrow> connected_C c)"

lemma calm_handlers:
  assumes "calm c c'"
  shows "calm c (handle_disconnect c')" and "calm c (enqueue_frame_C fr c')"
    and "calm c (on_header_read_C ec bs c')" and "calm c (on_written_C ec c')"
    and "calm c (on_body_read_C push ec bs False c')"
  using assms
  by (auto simp: calm_def client_defs enqueue_frame_C_def enqueue_frame_def on_header_read_C_def
      on_written_C_def on_body_read_C_def Let_def split: sum.splits list.splits option.splits prod.splits)

lemma calm_updates:
  assumes "calm c c'"
  shows "calm c (c'\<lparr>io_pool_C := p\<rparr>)" and "calm c (c'\<lparr>fault_C := b\<rparr>)" and "calm c (start_heartbeat_C c')"
    and "calm c (c'\<lparr>heartbeat_timer_C := w\<rparr>)" and "calm c (release_C fr c')"
    and "calm c ((close_socket (c'\<lparr>connected_C := False\<rparr>))\<lparr>shutdown_done_C := b\<rparr>)"
  using assms by (simp_all add: calm_def start_heartbeat_C_def release_C_def close_socket_def)

lemma calm_on_heartbeat_C: "calm c (on_heartbeat_C ec c)"
proof -
  have "calm c (c\<lparr>heartbeat_timer_C := None\<rparr>)" by (simp add: calm_def)
  then show ?thesis
    by (auto simp: on_heartbeat_C_def send_keepalive_C_def Let_def intro!: calm_handlers calm_updates
        split: option.split)
qed

lemma calm_run_io_task: "calm c c' \<Longrightarrow> calm c (run_io_task t c')"
  by (cases t) (simp_all add: calm_handlers calm_updates)

lemma calm_transport:
  assumes "transport_event e"
  shows "calm c (client_attempt push e c)"
proof -
  have "calm c (c\<lparr>inbox_C := x\<rparr>)" "calm c (c\<lparr>outbox_C := x\<rparr>)" "calm c (c\<lparr>io_tasks_C := ts\<rparr>)"
      "calm c c" "calm c (c\<lparr>now_C := n\<rparr>)" for x ts n
    by (simp_all add: calm_def)
  then show ?thesis
    using assms
    by (cases e) (auto simp: client_attempt_def Let_def calm_on_heartbeat_C
        intro!: calm_handlers calm_run_io_task split: list.split option.split)
qed

lemma numbered_snoc: "numbered n (rs @ [r]) = numbered n rs @ [(n + of_nat (length rs), r)]"
  by (simp add: numbered_def enumerate_append_eq)

lemma run_requests_append [simp]: "run_requests (xs @ ys) = run_requests xs @ run_requests ys"
  by (induction xs rule: run_requests.induct) simp_all

text \<open>
  A run is a run of the transport; the payloads posted are those of the requests, in order and
  without those the transport refused; the events seen are those of the packets polled.
\<close>

definition chat_inv :: "flatbuffers \<Rightarrow> (nat \<Rightarrow> bool) \<Rightarrow> int \<Rightarrow> bytes \<Rightarrow> chat_request list \<Rightarrow> chat_state \<Rightarrow> bool" where
  "chat_inv f push t stream rs st \<longleftrightarrow>
     (\<exists>es. client_P (fst st) = Some (client_run push es t stream)
       \<and> \<not> shutting_down_C (client_run push es t stream)
       \<and> next_request_id_P (fst st) = 1 + of_nat (length rs)
       \<and> subseq (sent_C (client_run push es t stream)) (map (\<lambda>(i, r). request_bytes f i r) (numbered 1 rs))
       \<and> (is_connected (client_run push es t stream)
            \<and> (\<forall>(i, r) \<in> set (numbered 1 rs). length (request_bytes f i r) \<le> MAX_PAYLOAD_SIZE)
          \<longrightarrow> sent_C (client_run push es t stream) = map (\<lambda>(i, r). request_bytes f i r) (numbered 1 rs))
       \<and> snd st = concat (map (DecodePacket f) (polled_C (client_run push es t stream))))"

lemma client_run_snoc: "client_attempt push e (client_run push es t stream) = client_run push (es @ [e]) t stream"
  by (simp add: client_run_def)

lemma chat_inv_request:
  assumes "fb_ok f" and "chat_inv f push t stream rs st"
  shows "chat_inv f push t stream (rs @ [r]) (chat_step f push (Request r) st)"
proof -
  obtain p seen where st: "st = (p, seen)" by (cases st)
  obtain es where all: "client_P p = Some (client_run push es t stream)
      \<and> \<not> shutting_down_C (client_run push es t stream) \<and> next_request_id_P p = 1 + of_nat (length rs)
      \<and> subseq (sent_C (client_run push es t stream)) (map (\<lambda>(i, r). request_bytes f i r) (numbered 1 rs))
      \<and> (is_connected (client_run push es t stream)
           \<and> (\<forall>(i, r) \<in> set (numbered 1 rs). length (request_bytes f i r) \<le> MAX_PAYLOAD_SIZE)
         \<longrightarrow> sent_C (client_run push es t stream) = map (\<lambda>(i, r). request_bytes f i r) (numbered 1 rs))
      \<and> seen = concat (map (DecodePacket f) (polled_C (client_run push es t stream)))"
    using assms(2) by (auto simp: chat_inv_def st)
  define c where "c = client_run push es t stream"
  have c: "client_P p = Some c"
    and inv: "\<not> shutting_down_C c" "next_request_id_P p = 1 + of_nat (length rs)"
      "subseq (sent_C c) (map (\<lambda>(i, r). request_bytes f i r) (numbered 1 rs))"
      "is_connected c \<and> (\<forall>(i, r) \<in> set (numbered 1 rs). length (request_bytes f i r) \<le> MAX_PAYLOAD_SIZE)
         \<longrightarrow> sent_C c = map (\<lambda>(i, r). request_bytes f i r) (numbered 1 rs)"
      "seen = concat (map (DecodePacket f) (polled_C c))"
    using all by (simp_all add: c_def)
  let ?d = "request_bytes f (1 + of_nat (length rs)) r"
  have pool: "pool_ok (game_pool_C c)"
    using client_run_ok [of t stream push es] by (simp add: c_def client_ok_def client_inv_def)
  have run: "send_C ?d c = client_run push (es @ [GameSend ?d]) t stream"
    by (simp add: c_def client_run_def client_attempt_def)
  have ne: "?d \<noteq> []" by (rule request_bytes_nonempty [OF assms(1)])
  have sent: "sent_C (send_C ?d c) = sent_C c @ (if sendable_payload ?d \<and> is_connected c then [?d] else [])"
      "is_connected (send_C ?d c) = is_connected c" "polled_C (send_C ?d c) = polled_C c"
      "shutting_down_C (send_C ?d c) = shutting_down_C c"
    using inv(1) by (simp_all add: send_C_eq [OF pool] is_connected_def)
  show ?thesis
    unfolding chat_inv_def
  proof (intro exI [of _ "es @ [GameSend ?d]"] conjI, goal_cases)
    case 4
    have "subseq (sent_C (send_C ?d c)) (map (\<lambda>(i, r). request_bytes f i r) (numbered 1 rs) @ [?d])"
      unfolding sent by (rule list_emb_append_mono [OF inv(3)]) simp
    then show ?case by (simp add: numbered_snoc flip: run)
  next
    case 5
    show ?case
      using inv(4) ne by (auto simp: numbered_snoc sent sendable_payload_def simp flip: run)
  qed (use c inv sent in \<open>simp_all add: st send_request_eq [OF assms(1) c] ac_simps flip: run\<close>)
qed

lemma chat_inv_poll:
  assumes "chat_inv f push t stream rs st"
  shows "chat_inv f push t stream rs (chat_step f push Poll st)"
proof -
  obtain p seen where st: "st = (p, seen)" by (cases st)
  obtain es where c: "client_P p = Some (client_run push es t stream)"
    using assms by (auto simp: chat_inv_def st)
  let ?c = "client_run push es t stream"
  let ?es = "es @ replicate (length (receive_queue_C ?c)) GamePoll"
  have "client_run push ?es t stream = ?c\<lparr>receive_queue_C := [], polled_C := polled_C ?c @ receive_queue_C ?c\<rparr>"
    using game_polls [of push ?c] by (simp add: client_run_def)
  then show ?thesis
    using assms c unfolding chat_inv_def st
    by (auto simp: PollEvents_def poll_loop_eq is_connected_def intro!: exI [of _ ?es])
qed

lemma chat_inv_transport:
  assumes "chat_inv f push t stream rs st"
  shows "chat_inv f push t stream rs (chat_step f push (Transport e) st)"
proof (cases "transport_event e")
  case True
  obtain p seen where st: "st = (p, seen)" by (cases st)
  obtain es where c: "client_P p = Some (client_run push es t stream)"
    using assms by (auto simp: chat_inv_def st)
  let ?c = "client_run push es t stream"
  have "calm ?c (client_run push (es @ [e]) t stream)"
    using calm_transport [OF True] by (simp flip: client_run_snoc)
  then show ?thesis
    using assms c True unfolding chat_inv_def st
    by (auto simp: calm_def is_connected_def client_run_snoc intro!: exI [of _ "es @ [e]"])
qed (use assms in \<open>cases st, simp\<close>)

lemma Connect_connected_to [simp]:
  "Connect_P host port (connected_to stream) t p =
     (Inr (), p\<lparr>client_P := Some (client_started t stream), next_request_id_P := 1\<rparr>)"
proof -
  have "create_C host port (connected_to stream) t = Inr (client_started t stream)"
    unfolding create_C_Inr by (simp add: connected_to_def)
  then show ?thesis by (simp add: Connect_P_def)
qed

lemma Connect_connected:
  assumes "Connect_P host port os t p = (Inr (), p')"
  shows "\<exists>endpoints stream. resolve_os os host (decimal (unat port)) = Inr endpoints
    \<and> connect_os os endpoints = Inr stream \<and> p' = snd (Connect_P [] 0 (connected_to stream) t p)"
proof -
  obtain c where "create_C host port os t = Inr c" "p' = p\<lparr>client_P := Some c, next_request_id_P := 1\<rparr>"
    using assms unfolding Connect_P_def by (auto split: sum.splits)
  then show ?thesis by (auto simp: create_C_Inr)
qed

lemma chat_run_inv:
  assumes "fb_ok f"
  shows "chat_inv f push t stream (run_requests sts) (chat_run f push sts t stream)"
proof (induction sts rule: rev_induct)
  case Nil
  have "client_run push [] t stream = client_started t stream" "sent_C (client_started t stream) = []"
      "polled_C (client_started t stream) = []" "\<not> shutting_down_C (client_started t stream)"
    by (simp_all add: client_run_def client_started_def start_io_def Client_init_def client_defs)
  then show ?case
    by (auto simp: chat_inv_def chat_run_def ChatProtocolClient_init_def
        numbered_def intro!: exI [of _ "[]"])
next
  case (snoc a sts)
  have "chat_run f push (sts @ [a]) t stream = chat_step f push a (chat_run f push sts t stream)"
    by (simp add: chat_run_def)
  then show ?case
    using snoc assms by (cases a) (simp_all add: chat_inv_request chat_inv_poll chat_inv_transport)
qed

end
