(* ===== verification/Chat_Properties.thy ===== *)
theory Chat_Properties
  imports Chat_Client World_Properties Client_Properties
begin

text \<open>
  The chat client and the server connected: what the user asks for reaches the chat logic, and what
  the chat logic answers reaches the user.
\<close>

section \<open>Requests\<close>

lemma subseq_map_ex:
  assumes "subseq xs (map g ys)"
  shows "\<exists>zs. subseq zs ys \<and> xs = map g zs"
  using assms
proof (induction ys arbitrary: xs)
  case Nil
  then have "xs = []" by (auto dest: list_emb_Nil2)
  then show ?case by simp
next
  case (Cons y ys)
  show ?case
  proof (cases "subseq xs (map g ys)")
    case True
    then show ?thesis using Cons.IH by (meson list_emb_Cons)
  next
    case False
    then obtain xs' where "xs = g y # xs'" "subseq xs' (map g ys)"
      using Cons.prems by (cases xs) (auto split: if_splits)
    then show ?thesis using Cons.IH by (metis list.simps(9) subseq_Cons2)
  qed
qed

lemma prefix_map_ex: "prefix xs (map g ys) \<Longrightarrow> \<exists>zs. prefix zs ys \<and> xs = map g zs"
  by (metis take_map take_is_prefix prefixE append_eq_conv_conj)

text \<open>The events of a session other than its connection and its end: what its client has asked for.\<close>

definition own_request :: "u32 \<Rightarrow> ServerEvent \<Rightarrow> bool" where
  "own_request sid e \<longleftrightarrow>
     event_session e = sid \<and> e \<noteq> SessionConnectedEvent sid \<and> e \<noteq> SessionDisconnectedEvent sid"

lemma own_request_ends [simp]:
  "\<not> own_request sid (SessionConnectedEvent i)" "\<not> own_request sid (SessionDisconnectedEvent i)"
  by (auto simp: own_request_def)

lemma id_reach: "conn_reach (started i t stream) c \<Longrightarrow> id_S c = i"
  by (induction rule: conn_reach.induct) (use calls_step_fire in \<open>auto simp: calls_step_def\<close>)

lemma packets_events_subseq: "subseq ps qs \<Longrightarrow> subseq (packets_events f ps) (packets_events f qs)"
proof (induction rule: list_emb.induct)
  case (list_emb_Cons2 p q ps qs)
  then show ?case using subseq_append_mono [of "packet_events f q" "packet_events f q"]
    by (simp add: packets_events_def)
qed (auto simp: packets_events_def intro: list_emb_append2)

lemma requests_of_session:
  "filter (own_request sid) (packets_events f ps) = filter (own_request sid) (packets_events f (packets_of sid ps))"
proof -
  have "filter (own_request sid) es = filter (own_request sid) (filter (\<lambda>e. event_session e = sid) es)" for es
    by (induction es) (auto simp: own_request_def)
  then show ?thesis by (metis events_of_session)
qed

lemma requests_of_calls:
  assumes "\<forall>cb \<in> set cs. callback_id cb = sid"
  shows "filter (own_request sid) (packets_events f (map packet_of cs)) =
    concat (map (\<lambda>data. DecodeProtocolPacket f sid data []) (received cs))"
  using assms
proof (induction cs)
  case (Cons cb cs)
  have "\<forall>e \<in> set (DecodeProtocolPacket f sid d []). own_request sid e" for d
    using decode_attribution [of f sid d] by (auto simp: own_request_def)
  then have "filter (own_request sid) (DecodeProtocolPacket f sid d []) = DecodeProtocolPacket f sid d []" for d
    by (simp add: filter_id_conv)
  with Cons show ?case
    by (cases cb) (auto simp: packets_events_def packet_events_def receive_packet_def)
qed (simp add: packets_events_def)

text \<open>
  What the chat logic is given of a session's requests: at most what the session has read, in order,
  and all of it when the packet queue was never full and everything was taken and handled.
\<close>

lemma handled_requests:
  assumes run: "world_run E S es (world_init E S) = Some w" and a: "a < length (heap (network w))"
    and n: "issued (network w) < 2 ^ 32 - 1"
  defines "sid \<equiv> id_S (heap (network w) ! a)"
  defines "handled \<equiv> filter (own_request sid) (seen w)"
    and "arrived \<equiv> concat (map (\<lambda>data. DecodeProtocolPacket (fb E) sid data []) (received (calls (heap (network w) ! a))))"
  shows "subseq handled arrived"
    and "lost (network w) = 0 \<Longrightarrow> packet_queue (network w) = [] \<Longrightarrow> unhandled w = [] \<Longrightarrow> handled = arrived"
proof -
  let ?n = "network w" and ?R = "filter (own_request sid)" and ?P = "packets_events (fb E)"
  have inv: "world_inv E w" by (rule world_inv_run [OF run])
  then have seen: "seen w @ unhandled w = ?P (polled ?n)" and up: "\<not> shutting_down ?n"
    by (simp_all add: world_inv_def)
  have "conn_ok (heap ?n ! a)" using inv a by (simp add: world_inv_def server_inv_def)
  then have calls: "?R (?P (map packet_of (calls (heap ?n ! a)))) = arrived"
    unfolding arrived_def by (intro requests_of_calls) (simp add: conn_ok_def sid_def)
  have "session_book (lost ?n = 0 \<and> \<not> shutting_down ?n) (session_table ?n) (pushed ?n)
      (erases (server_strand ?n)) a (ident (heap ?n ! a))"
    using world_inv_book [OF inv] a n by (simp add: book_inv_def book_rel_def)
  then obtain ps where ps: "packets_of sid (pushed ?n) = connect_packet sid # ps"
      "subseq ps (map packet_of (calls (heap ?n ! a)))" "lost ?n = 0 \<longrightarrow> ps = map packet_of (calls (heap ?n ! a))"
    using up by (auto simp: session_book_def ident_def sid_def)
  have pushed: "?R (?P (pushed ?n)) = ?R (?P ps)"
    unfolding requests_of_session [of sid _ "pushed ?n"] ps(1)
    by (simp add: packets_events_def packet_events_def receive_packet_def connect_packet_def)
  have "subseq (seen w) (?P (pushed ?n))"
    using seen by (simp add: pushed_def) (metis list_emb_append2 prefixI prefix_imp_subseq append_assoc)
  then have "subseq handled (?R (?P ps))"
    unfolding handled_def pushed [symmetric] by simp
  also have "subseq (?R (?P ps)) arrived"
    unfolding calls [symmetric] using packets_events_subseq [OF ps(2)] by simp
  finally show "subseq handled arrived" .
  assume "lost ?n = 0" "packet_queue ?n = []" "unhandled w = []"
  then show "handled = arrived"
    using seen pushed ps(3) calls by (simp add: handled_def pushed_def)
qed

text \<open>
  C37: The requests of the user, end to end: through the client, the connection, a session of the
  running server, the packet queue and the main loop.  The server's chat logic is given the requests
  the client has made since it connected, each with its text or room id unchanged and with the
  number it has in that order, at most once and in order; it is given all of them if the connection
  holds, no message is longer than a payload may be, everything has been written and read, the
  packet queue was never full and the game thread has handled all it took.
\<close>

theorem requests_reach_server:
  assumes "fb_ok (fb E)" and "client_P (fst (chat_run (fb E) push sts t stream)) = Some c"
    and "world_run E S es (world_init E S) = Some w" and "issued (network w) < 2 ^ 32 - 1"
    and "a < length (heap (network w))" and "conn_reach (started sid u stream') (heap (network w) ! a)"
    and "prefix stream' (outbox_C c)"
  defines "asked \<equiv> map (\<lambda>(i, r). request_event sid i (request_table r)) (numbered 1 (run_requests sts))"
    and "handled \<equiv> filter (own_request sid) (seen w)"
  shows "subseq handled asked
    \<and> (is_connected c
       \<and> (\<forall>(i, r) \<in> set (numbered 1 (run_requests sts)). length (request_bytes (fb E) i r) \<le> 2048)
       \<and> io_tasks_C c = [] \<and> write_queue_C c = [] \<and> stream' = outbox_C c
       \<and> read_pending (heap (network w) ! a) = ReadHeader True \<and> inbox (heap (network w) ! a) = []
       \<and> lost (network w) = 0 \<and> packet_queue (network w) = [] \<and> unhandled w = [] \<longrightarrow> handled = asked)"
proof -
  let ?f = "fb E" and ?d = "heap (network w) ! a"
  let ?B = "\<lambda>(i, r). request_bytes ?f i r" and ?rs = "numbered 1 (run_requests sts)"
  let ?E = "\<lambda>(i, r). request_event sid i (request_table r)"
  let ?D = "\<lambda>ds. concat (map (\<lambda>data. DecodeProtocolPacket ?f sid data []) ds)"
  have dec: "?D (map ?B zs) = map ?E zs" for zs
    using assms(1) by (induction zs) (auto simp: request_bytes_def DecodeProtocolPacket_built)
  have id: "id_S ?d = sid" by (rule id_reach [OF assms(6)])
  note world = handled_requests [OF assms(3,5,4), unfolded id, folded handled_def]
  obtain es' where c: "c = client_run push es' t stream" and sd: "\<not> shutting_down_C c"
    and sent: "subseq (sent_C c) (map ?B ?rs)"
      "is_connected c \<and> (\<forall>(i, r) \<in> set ?rs. length (request_bytes ?f i r) \<le> MAX_PAYLOAD_SIZE)
         \<longrightarrow> sent_C c = map ?B ?rs"
    using chat_run_inv [OF assms(1), of push t stream sts] assms(2) unfolding chat_inv_def by auto
  have ok: "client_ok t stream c" unfolding c by (rule client_run_ok)
  have "subseq (received (calls ?d)) (map ?B ?rs)"
    using client_to_session(1) [OF ok assms(6,7)] sent(1) prefix_imp_subseq subseq_order.trans by blast
  then obtain zs where zs: "subseq zs ?rs" "received (calls ?d) = map ?B zs"
    using subseq_map_ex by blast
  then have "subseq (?D (received (calls ?d))) asked"
    by (simp only: zs(2) dec asked_def subseq_map)
  then have part: "subseq handled asked"
    using world(1) subseq_order.trans by blast
  have all: "handled = asked"
    if "is_connected c" "\<forall>(i, r) \<in> set ?rs. length (request_bytes ?f i r) \<le> 2048" "io_tasks_C c = []"
      "write_queue_C c = []" "stream' = outbox_C c" "read_pending ?d = ReadHeader True" "inbox ?d = []"
      "lost (network w) = 0" "packet_queue (network w) = []" "unhandled w = []"
  proof -
    have "received (calls ?d) = map ?B ?rs"
      using client_to_session(2) [OF ok assms(6,7) sd] that sent(2) by (simp add: MAX_PAYLOAD_SIZE_def)
    then show ?thesis using world(2) [OF that(8-10)] unfolding asked_def by (simp only: dec)
  qed
  show ?thesis by (intro conjI impI part, elim conjE, rule all)
qed

definition example_chat :: chat_state where
  "example_chat =
     chat_run example_fb queue_of_4096 [Request AskRoomList, Transport IoTask, Transport IoWritten] 50 []"

definition example_request :: bytes where "example_request = request_bytes example_fb 1 AskRoomList"

lemma length_put_word: "length (put_word k w) = k"
proof -
  have "length (put_nat k n) = k" for n by (induction k arbitrary: n) simp_all
  then show ?thesis by (simp add: put_word_def)
qed

lemma example_request: "sendable_payload example_request" "length example_request \<le> 2048"
proof -
  have "length example_request = 6"
    by (simp add: example_request_def request_bytes_def BuildMessage_def example_fb_def put_message_def
        length_put_word)
  then show "sendable_payload example_request" "length example_request \<le> 2048"
    by (auto simp: sendable_payload_def MAX_PAYLOAD_SIZE_def)
qed

lemma example_chat_run:
  "client_P (fst example_chat) = Some (client_run queue_of_4096 [GameSend example_request, IoTask, IoWritten] 50 [])"
  using send_request_eq [OF example_fb_ok, of "\<lparr>client_P = Some (client_started 50 []), next_request_id_P = 1\<rparr>" _ AskRoomList]
  by (simp add: example_chat_def chat_run_def ChatProtocolClient_init_def
      client_run_def client_attempt_def example_request_def)

lemma example_chat_state:
  defines "c \<equiv> client_run queue_of_4096 [GameSend example_request, IoTask, IoWritten] 50 []"
  shows "outbox_C c = frame_of example_request" "io_tasks_C c = []" "write_queue_C c = []" "is_connected c"
  using example_request(1) unfolding c_def
  by (simp_all add: client_run_def client_run_simps release_def is_connected_def)

text \<open>The server accepts the connection, reads the request, and the game thread handles it.\<close>

definition example_reading :: "server_event list" where
  "example_reading =
     [AcceptDone False 60 (frame_of example_request) 0, SessionStep 0 HeaderRead 0, SessionStep 0 BodyRead 0]"

definition example_handling :: world where
  "example_handling = the (world_run example_net_env example_server_env (map Net example_reading @ [Game, Game, Game])
     (world_init example_net_env example_server_env))"

lemma example_reading_run:
  defines "n \<equiv> server_run example_server_env example_reading"
  shows "heap n = [attempt BodyRead (attempt HeaderRead (started 1 60 (frame_of example_request)))]"
    and "packet_queue n = [connect_packet 1, \<lparr>packet_type = Data, packet_session_id = 1, packet_data = example_request\<rparr>]"
    and "lost n = 0" "issued n = 1" "polled n = []"
    and "conn_reach (started 1 60 (frame_of example_request)) (heap n ! 0)"
    and "read_pending (heap n ! 0) = ReadHeader True" "inbox (heap n ! 0) = []"
proof -
  let ?c = "started 1 60 (frame_of example_request)"
  have "session_inv ?c" using started_invs by simp
  moreover have "read_pending ?c = ReadHeader True" "socket_open ?c" "inbox ?c = frame_of example_request @ []"
    by (simp_all add: run_simps)
  ultimately have d: "enabled HeaderRead ?c" "enabled BodyRead (attempt HeaderRead ?c)"
      "inbox (attempt BodyRead (attempt HeaderRead ?c)) = []"
      "read_pending (attempt BodyRead (attempt HeaderRead ?c)) = ReadHeader True"
      "calls (attempt HeaderRead ?c) = []" "calls (attempt BodyRead (attempt HeaderRead ?c)) = [OnReceive 1 example_request]"
    using frame_delivered [of ?c example_request "[]"] example_request(1) by simp_all
  let ?n0 = "server_run example_server_env [AcceptDone False 60 (frame_of example_request) 0]"
  have n0: "heap ?n0 = [?c]" "packet_queue ?n0 = [connect_packet 1]" "lost ?n0 = 0" "issued ?n0 = 1" "polled ?n0 = []"
      "\<not> io_stopped ?n0" "\<not> shutting_down ?n0"
    by (simp_all add: server_run_def server_attempt_def server_start_def start_threads_def do_accept_def Impl_init_def
        on_accept_def load_flag_def push_packet_def connect_packet_def example_server_env_def Let_def)
  have f: "fire HeaderRead ?c = attempt HeaderRead ?c"
      "fire BodyRead (attempt HeaderRead ?c) = attempt BodyRead (attempt HeaderRead ?c)"
    using d(1,2) by (simp_all only: attempt_def if_True)
  have n1: "server_attempt example_server_env (SessionStep 0 HeaderRead 0) ?n0 = ?n0\<lparr>heap := [attempt HeaderRead ?c]\<rparr>"
    using d(1,5) n0 unfolding server_attempt_def server_fire.simps session_step_def
    by (simp add: f(1) Let_def del: fire.simps enabled.simps)
  have n: "n = ?n0\<lparr>heap := [attempt BodyRead (attempt HeaderRead ?c)],
      packet_queue := packet_queue ?n0 @ [\<lparr>packet_type = Data, packet_session_id = 1, packet_data = example_request\<rparr>]\<rparr>"
  proof -
    have "n = server_attempt example_server_env (SessionStep 0 BodyRead 0) (?n0\<lparr>heap := [attempt HeaderRead ?c]\<rparr>)"
      using n1 by (simp add: n_def server_run_def example_reading_def)
    also have "\<dots> = ?n0\<lparr>heap := [attempt BodyRead (attempt HeaderRead ?c)],
      packet_queue := packet_queue ?n0 @ [\<lparr>packet_type = Data, packet_session_id = 1, packet_data = example_request\<rparr>]\<rparr>"
      using d(2,5,6) n0 unfolding server_attempt_def server_fire.simps session_step_def
      by (simp add: f(2) Let_def push_packet_def load_flag_def example_server_env_def del: fire.simps enabled.simps)
    finally show ?thesis .
  qed
  have "conn_reach ?c (fold attempt [HeaderRead, BodyRead] ?c)" by (rule reach_attempts [OF conn_reach.here])
  then show "conn_reach (started 1 60 (frame_of example_request)) (heap n ! 0)" by (simp add: n)
  show "heap n = [attempt BodyRead (attempt HeaderRead ?c)]"
      "packet_queue n = [connect_packet 1, \<lparr>packet_type = Data, packet_session_id = 1, packet_data = example_request\<rparr>]"
      "lost n = 0" "issued n = 1" "polled n = []" "read_pending (heap n ! 0) = ReadHeader True" "inbox (heap n ! 0) = []"
    using n0 d(3,4) by (simp_all add: n)
qed

lemma world_run_net:
  assumes "list_all io_event es"
  shows "world_run E S (map Net es) w = Some (w\<lparr>network := fold (server_attempt S) es (network w)\<rparr>)"
  using assms by (induction es arbitrary: w) simp_all

lemma example_handling_run:
  defines "n \<equiv> server_run example_server_env example_reading"
  shows "world_run example_net_env example_server_env (map Net example_reading @ [Game, Game, Game])
      (world_init example_net_env example_server_env) = Some example_handling"
    and "network example_handling = n\<lparr>packet_queue := [], polled := packet_queue n\<rparr>"
    and "unhandled example_handling = []"
proof -
  have "list_all io_event example_reading" by (simp add: example_reading_def)
  note net = world_run_net [OF this, of example_net_env example_server_env "world_init example_net_env example_server_env"]
  have n: "fold (server_attempt example_server_env) example_reading (network (world_init example_net_env example_server_env)) = n"
    by (simp add: n_def server_run_def world_init_def world_of_def)
  show "world_run example_net_env example_server_env (map Net example_reading @ [Game, Game, Game])
      (world_init example_net_env example_server_env) = Some example_handling"
      "network example_handling = n\<lparr>packet_queue := [], polled := packet_queue n\<rparr>" "unhandled example_handling = []"
    using net example_reading_run(2,5)
    unfolding example_handling_def world_run_append n n_def [symmetric]
    by (simp_all add: world_init_def world_of_def game_step_def poll_packet_def Update_run TakeOutgoingMessages_def
        TakePendingDisconnects_def unhandled_def)
qed

theorem requests_reach_server_witness:
  "filter (own_request 1) (seen example_handling) = [RoomListRequestEvent 1 1]"
proof -
  let ?c = "client_run queue_of_4096 [GameSend example_request, IoTask, IoWritten] 50 []"
  let ?d = "heap (network example_handling) ! 0"
  have fb: "fb example_net_env = example_fb" by (simp add: example_net_env_def)
  have out: "prefix (frame_of example_request) (outbox_C ?c)" by (simp add: example_chat_state)
  have d: "conn_reach (started 1 60 (frame_of example_request)) ?d" "read_pending ?d = ReadHeader True" "inbox ?d = []"
      "0 < length (heap (network example_handling))" "issued (network example_handling) < 2 ^ 32 - 1"
      "lost (network example_handling) = 0" "packet_queue (network example_handling) = []"
    using example_reading_run by (simp_all add: example_handling_run(2))
  note reach = requests_reach_server [where E = example_net_env, unfolded fb,
      OF example_fb_ok example_chat_run [unfolded example_chat_def] example_handling_run(1) d(5,4,1) out]
  show ?thesis
    using reach example_chat_state d example_handling_run(3) example_request(2)
    by (simp add: numbered_def flip: example_request_def)
qed

section \<open>Answers\<close>

text \<open>
  C38: The answers of the server, end to end.  If the server's session was asked to send the messages
  of the tables \<open>msgs\<close> (tables a builder can make), the events that \<^verbatim>\<open>PollEvents\<close> has returned are what the tables of some of
  these messages mean to the user, in order and without change; none is missing in between unless
  the receive queue was full.  After a poll the receive queue is empty.
\<close>

theorem answers_reach_user:
  fixes f push sts t stream
  defines "st \<equiv> chat_run f push sts t stream"
  assumes "fb_ok f" and "client_P (fst st) = Some c"
    and "conn_reach (started j u stream') d" and "prefix stream (outbox d)"
    and "sent d = map (\<lambda>(rq, tb). BuildMessage f rq (MessagePayloadTraits tb) tb) msgs"
    and "list_all (buildable \<circ> snd) msgs"
  shows "(\<exists>ms. subseq ms msgs \<and> snd st = concat (map (chat_view \<circ> snd) ms)
      \<and> ((\<forall>a \<in> set (arrivals_C c). snd a) \<longrightarrow> prefix ms msgs))
    \<and> (case client_P (snd (PollEvents f (fst st))) of Some c' \<Rightarrow> receive_queue_C c' = [] | None \<Rightarrow> False)"
proof -
  let ?B = "\<lambda>(rq, tb). BuildMessage f rq (MessagePayloadTraits tb) tb"
  have dec: "concat (map (DecodePacket f) (map ?B ms)) = concat (map (chat_view \<circ> snd) ms)"
    if "subseq ms msgs" for ms
  proof -
    have "list_all (buildable \<circ> snd) ms"
      using assms(7) list_emb_set [OF that] unfolding list_all_iff by metis
    then show ?thesis using assms(2) by (induction ms) (auto simp: DecodePacket_eq)
  qed
  obtain es where c: "c = client_run push es t stream"
    and seen: "snd st = concat (map (DecodePacket f) (polled_C c))"
    using chat_run_inv [OF assms(2), of push t stream sts] assms(3) unfolding chat_inv_def st_def by auto
  have ok: "client_ok t stream c" unfolding c by (rule client_run_ok)
  note arrive = session_to_client(2,3) [OF ok assms(4,5), unfolded assms(6)]
  have "\<exists>ms. subseq ms msgs \<and> polled_C c = map ?B ms
      \<and> ((\<forall>a \<in> set (arrivals_C c). snd a) \<longrightarrow> prefix ms msgs)"
  proof (cases "\<forall>a \<in> set (arrivals_C c). snd a")
    case True
    from prefix_map_ex [OF arrive(2) [OF True]] show ?thesis using prefix_imp_subseq by blast
  next
    case False
    from subseq_map_ex [OF arrive(1)] False show ?thesis by blast
  qed
  then obtain ms where ms: "subseq ms msgs" "polled_C c = map ?B ms"
      "(\<forall>a \<in> set (arrivals_C c). snd a) \<longrightarrow> prefix ms msgs"
    by blast
  have "snd st = concat (map (chat_view \<circ> snd) ms)" unfolding seen ms(2) by (rule dec [OF ms(1)])
  then show ?thesis
    using ms(1,3) assms(3) by (auto simp: PollEvents_def poll_loop_eq)
qed

text \<open>The server has sent one system message; the client has read and polled it.\<close>

definition example_answer :: bytes where
  "example_answer = BuildMessage example_fb 0 MessagePayload_SystemMessageEvent (SystemMessageEvent 1001 (Some ''hi''))"

lemma example_answer: "sendable_payload example_answer"
proof -
  have "length example_answer = 16"
    by (simp add: example_answer_def BuildMessage_def example_fb_def put_message_def length_put_word
        put_str_def put_char_def)
  then show ?thesis by (auto simp: sendable_payload_def MAX_PAYLOAD_SIZE_def)
qed

definition example_answered :: chat_state where
  "example_answered =
     chat_run example_fb queue_of_4096 [Transport IoHeaderRead, Transport (IoBodyRead False), Poll] 50
       (frame_of example_answer @ [])"

definition example_sender2 :: conn where
  "example_sender2 = fold attempt [Send example_answer, RunTask, Written] (started 7 60 [])"

lemma example_sender2_run:
  "conn_reach (started 7 60 []) example_sender2" "outbox example_sender2 = frame_of example_answer"
  "sent example_sender2 = [example_answer]"
proof -
  show "conn_reach (started 7 60 []) example_sender2"
    unfolding example_sender2_def by (rule reach_attempts [OF conn_reach.here])
  show "outbox example_sender2 = frame_of example_answer" "sent example_sender2 = [example_answer]"
    using example_answer by (simp_all add: example_sender2_def run_simps release_def)
qed

lemma example_answered_run:
  "\<exists>c. client_P (fst example_answered) = Some c \<and> arrivals_C c = [(example_answer, True)]"
  "snd example_answered = [ChatSystemMessageEvent 1001 ''hi'']"
proof -
  let ?c = "client_started 50 (frame_of example_answer @ [])" and ?a = "client_attempt queue_of_4096"
  have d: "?a (IoBodyRead False) (?a IoHeaderRead ?c) =
    ?c\<lparr>inbox_C := [], header_buf_C := header_bytes 0 (of_nat (length example_answer)), last_activity_C := now_C ?c,
      body_buf_C := \<lparr>buf_data = example_answer, buf_capacity = max (buf_capacity (body_buf_C ?c)) (length example_answer)\<rparr>,
      io_pool_C := butlast (io_pool_C ?c), receive_queue_C := receive_queue_C ?c @ [example_answer],
      arrivals_C := arrivals_C ?c @ [(example_answer, True)]\<rparr>"
    using example_answer
    by (intro client_frame_delivered) (simp_all add: client_run_simps queue_of_4096_def receive_capacity_C_def)
  have c: "receive_queue_C ?c = []" "arrivals_C ?c = []" "polled_C ?c = []"
    by (simp_all add: client_started_def start_io_def Client_init_def client_defs)
  have "DecodePacket example_fb example_answer = [ChatSystemMessageEvent 1001 ''hi'']"
    using DecodePacket_eq [OF example_fb_ok, of "SystemMessageEvent 1001 (Some ''hi'')" 0]
    by (simp add: example_answer_def ToUtf8_def)
  then show "\<exists>c. client_P (fst example_answered) = Some c \<and> arrivals_C c = [(example_answer, True)]"
      "snd example_answered = [ChatSystemMessageEvent 1001 ''hi'']"
    using d c by (simp_all add: example_answered_def chat_run_def
        ChatProtocolClient_init_def PollEvents_def poll_loop_eq)
qed

theorem answers_reach_user_witness:
  "\<exists>ms. prefix ms [(0 :: u32, SystemMessageEvent 1001 (Some ''hi''))]
     \<and> [ChatSystemMessageEvent 1001 ''hi''] = concat (map (chat_view \<circ> snd) ms)"
proof -
  obtain c where c: "client_P (fst example_answered) = Some c" "arrivals_C c = [(example_answer, True)]"
    using example_answered_run(1) by blast
  have "prefix (frame_of example_answer @ []) (outbox example_sender2)"
    by (simp add: example_sender2_run)
  moreover have "sent example_sender2 = map (\<lambda>(rq, tb). BuildMessage example_fb rq (MessagePayloadTraits tb) tb)
      [(0 :: u32, SystemMessageEvent 1001 (Some ''hi''))]"
    by (simp add: example_sender2_run example_answer_def)
  moreover have "list_all (buildable \<circ> snd) [(0 :: u32, SystemMessageEvent 1001 (Some ''hi''))]"
    by simp
  ultimately have "\<exists>ms. subseq ms [(0 :: u32, SystemMessageEvent 1001 (Some ''hi''))]
      \<and> snd example_answered = concat (map (chat_view \<circ> snd) ms)
      \<and> ((\<forall>a \<in> set (arrivals_C c). snd a) \<longrightarrow> prefix ms [(0 :: u32, SystemMessageEvent 1001 (Some ''hi''))])"
    unfolding example_answered_def
    by (rule answers_reach_user [OF example_fb_ok c(1) [unfolded example_answered_def] example_sender2_run(1), THEN conjunct1])
  then show ?thesis
    unfolding c(2) example_answered_run(2) by auto
qed

end
