(* ===== verification/Chat_Frame.thy ===== *)
theory Chat_Frame
  imports Chat_Client
begin

text \<open>
  The window of the chat client (\<^verbatim>\<open>ChatClientFrame.h\<close>, \<^verbatim>\<open>ChatClientFrame.cpp\<close>).

  \<open>ChatClientFrame\<close> has, for every control of the window, what the code reads from it and writes to
  it: its text, its rows, its selection, whether it is enabled; \<open>message_boxes_F\<close> are the modal
  boxes shown so far.  The geometry of the window is left out.  A \<^verbatim>\<open>wxString\<close> is a list of
  character codes.  The wxWidgets functions that work on texts are the record \<open>wx\<close>: the two
  conversions, what counts as white space, and when \<^verbatim>\<open>FindString\<close> takes two texts for the same.

  \<open>ui_event\<close> lists what the user, the timer and the I/O thread can do, with \<open>ui_enabled\<close> saying when:
  a disabled control gets no input.
\<close>

section \<open>Texts\<close>

type_synonym wxString = "nat list"

record wx =
  FromUTF8 :: "string \<Rightarrow> wxString"
  ToStdString :: "wxString \<Rightarrow> string"
  wx_space :: "nat \<Rightarrow> bool"
  same_string :: "wxString \<Rightarrow> wxString \<Rightarrow> bool"

definition lit :: "string \<Rightarrow> wxString" where "lit s = map of_char s"

definition ToWxString :: "wx \<Rightarrow> string \<Rightarrow> wxString" where
  "ToWxString W value = FromUTF8 W value"

text \<open>\<^verbatim>\<open>Trim(true)\<close> removes white space at the right, \<^verbatim>\<open>Trim(false)\<close> at the left.\<close>

definition Trimmed :: "wx \<Rightarrow> wxString \<Rightarrow> wxString" where
  "Trimmed W value = dropWhile (wx_space W) (rev (dropWhile (wx_space W) (rev value)))"

text \<open>\<^verbatim>\<open>std::from_chars\<close> for an \<^verbatim>\<open>unsigned int\<close>.\<close>

definition is_digit :: "char \<Rightarrow> bool" where
  "is_digit c \<longleftrightarrow> 48 \<le> (of_char c :: nat) \<and> (of_char c :: nat) \<le> 57"

definition digits_value :: "string \<Rightarrow> nat" where
  "digits_value ds = foldl (\<lambda>n c. 10 * n + (of_char c - 48)) 0 ds"

definition from_chars :: "string \<Rightarrow> (nat \<times> string) option" where
  "from_chars txt =
     (let digits = takeWhile is_digit txt
      in if digits = [] \<or> 2 ^ 32 \<le> digits_value digits then None
         else Some (digits_value digits, dropWhile is_digit txt))"

definition ParsePort :: "wx \<Rightarrow> wxString \<Rightarrow> u16 option" where
  "ParsePort W value =
     (let txt = ToStdString W (Trimmed W value)
      in case from_chars txt of
          None \<Rightarrow> None
        | Some (port, rest) \<Rightarrow> if rest \<noteq> [] \<or> 65535 < port then None else Some (of_nat port))"

section \<open>ChatClientFrame\<close>

record RoomEntry =
  room_id_E :: u32
  room_name_E :: wxString
  user_count_E :: u32

record ChatClientFrame =
  host_ctrl_F :: wxString
  host_enabled_F :: bool
  port_ctrl_F :: wxString
  port_enabled_F :: bool
  display_name_ctrl_F :: wxString
  connect_enabled_F :: bool
  refresh_enabled_F :: bool
  join_enabled_F :: bool
  room_list_F :: "(wxString \<times> wxString) list"
  selected_F :: "nat option"
  current_room_label_F :: wxString
  chat_log_ctrl_F :: wxString
  message_input_ctrl_F :: wxString
  message_enabled_F :: bool
  send_enabled_F :: bool
  user_list_F :: "wxString list"
  status_text_F :: wxString
  poll_timer_F :: bool
  window_open_F :: bool
  message_boxes_F :: "wxString list"
  protocol_client_F :: ChatProtocolClient
  rooms_F :: "RoomEntry list"
  current_room_id_F :: u32

text \<open>What \<^verbatim>\<open>BuildLayout\<close> gives the controls.\<close>

definition BuildLayout :: ChatClientFrame where
  "BuildLayout =
     \<lparr>host_ctrl_F = lit ''127.0.0.1'', host_enabled_F = True,
      port_ctrl_F = lit ''12345'', port_enabled_F = True,
      display_name_ctrl_F = lit ''NightUser'', connect_enabled_F = True,
      refresh_enabled_F = True, join_enabled_F = True, room_list_F = [], selected_F = None,
      current_room_label_F = lit ''Current Room: -'', chat_log_ctrl_F = [],
      message_input_ctrl_F = [], message_enabled_F = True, send_enabled_F = True,
      user_list_F = [], status_text_F = lit ''Ready'', poll_timer_F = False,
      window_open_F = True, message_boxes_F = [],
      protocol_client_F = ChatProtocolClient_init, rooms_F = [], current_room_id_F = 0\<rparr>"

definition SetConnectionState :: "bool \<Rightarrow> ChatClientFrame \<Rightarrow> ChatClientFrame" where
  "SetConnectionState connected w =
     w\<lparr>host_enabled_F := \<not> connected, port_enabled_F := \<not> connected,
       connect_enabled_F := \<not> connected, refresh_enabled_F := connected,
       join_enabled_F := connected, message_enabled_F := connected, send_enabled_F := connected\<rparr>"

definition SetStatusText :: "wxString \<Rightarrow> ChatClientFrame \<Rightarrow> ChatClientFrame" where
  "SetStatusText txt w = w\<lparr>status_text_F := txt\<rparr>"

definition wxMessageBox :: "wxString \<Rightarrow> ChatClientFrame \<Rightarrow> ChatClientFrame" where
  "wxMessageBox txt w = w\<lparr>message_boxes_F := message_boxes_F w @ [txt]\<rparr>"

definition AppendLine :: "wxString \<Rightarrow> ChatClientFrame \<Rightarrow> ChatClientFrame" where
  "AppendLine line w =
     (let w1 = (if chat_log_ctrl_F w \<noteq> [] then w\<lparr>chat_log_ctrl_F := chat_log_ctrl_F w @ [10]\<rparr> else w)
      in w1\<lparr>chat_log_ctrl_F := chat_log_ctrl_F w1 @ line\<rparr>)"

definition AppendSystemMessage :: "wxString \<Rightarrow> ChatClientFrame \<Rightarrow> ChatClientFrame" where
  "AppendSystemMessage message w = AppendLine (lit ''[System] '' @ message) w"

definition AppendChatMessage :: "wxString \<Rightarrow> wxString \<Rightarrow> ChatClientFrame \<Rightarrow> ChatClientFrame" where
  "AppendChatMessage sender content w = AppendLine (lit ''['' @ sender @ lit ''] '' @ content) w"

definition GetSelectedRoom :: "ChatClientFrame \<Rightarrow> RoomEntry option" where
  "GetSelectedRoom w =
     (case selected_F w of
        None \<Rightarrow> None
      | Some row \<Rightarrow> if length (rooms_F w) \<le> row then None else Some (rooms_F w ! row))"

text \<open>The overload for one room, and the one for a list.\<close>

definition ApplyRoom :: "wx \<Rightarrow> ChatRoomInfo \<Rightarrow> ChatClientFrame \<Rightarrow> ChatClientFrame" where
  "ApplyRoom W room w =
     (let row = length (rooms_F w);
          entry = \<lparr>room_id_E = room_id_CR room, room_name_E = ToWxString W (room_name_CR room),
                   user_count_E = user_count_CR room\<rparr>
      in w\<lparr>rooms_F := rooms_F w @ [entry],
           room_list_F := take row (room_list_F w)
             @ [(room_name_E entry, lit (decimal (unat (user_count_E entry))))] @ drop row (room_list_F w)\<rparr>)"

definition ApplyRoomList :: "wx \<Rightarrow> ChatRoomInfo list \<Rightarrow> ChatClientFrame \<Rightarrow> ChatClientFrame" where
  "ApplyRoomList W rooms w =
     fold (ApplyRoom W) rooms (w\<lparr>rooms_F := [], room_list_F := [], selected_F := None\<rparr>)"

definition ApplyJoinedRoom :: "wx \<Rightarrow> ChatRoomInfo \<Rightarrow> ChatClientFrame \<Rightarrow> ChatClientFrame" where
  "ApplyJoinedRoom W room w =
     SetStatusText (lit ''Joined room #'' @ lit (decimal (unat (room_id_CR room))))
       (w\<lparr>current_room_id_F := room_id_CR room,
          current_room_label_F := lit ''Current Room: #'' @ lit (decimal (unat (room_id_CR room)))
            @ lit '' '' @ ToWxString W (room_name_CR room)\<rparr>)"

fun FindString :: "wx \<Rightarrow> wxString \<Rightarrow> wxString list \<Rightarrow> nat option" where
  "FindString W name [] = None"
| "FindString W name (u # us) = (if same_string W u name then Some 0 else map_option Suc (FindString W name us))"

definition AddUser :: "wx \<Rightarrow> wxString \<Rightarrow> ChatClientFrame \<Rightarrow> ChatClientFrame" where
  "AddUser W name w =
     (if name = [] then w
      else if FindString W name (user_list_F w) = None then w\<lparr>user_list_F := user_list_F w @ [name]\<rparr>
      else w)"

definition RemoveUser :: "wx \<Rightarrow> wxString \<Rightarrow> ChatClientFrame \<Rightarrow> ChatClientFrame" where
  "RemoveUser W name w =
     (case FindString W name (user_list_F w) of
        None \<Rightarrow> w
      | Some index \<Rightarrow>
          w\<lparr>user_list_F := take index (user_list_F w) @ drop (Suc index) (user_list_F w)\<rparr>)"

fun ProcessProtocolEvent :: "wx \<Rightarrow> ChatProtocolEvent \<Rightarrow> ChatClientFrame \<Rightarrow> ChatClientFrame" where
  "ProcessProtocolEvent W (ChatLoginSucceededEvent name) w =
     (let display_name = (if name = [] then Trimmed W (display_name_ctrl_F w) else ToWxString W name)
      in AppendSystemMessage (display_name @ lit '' logged in.'')
           (SetStatusText (lit ''Login completed'') (AddUser W display_name w)))"
| "ProcessProtocolEvent W (ChatLoginFailedEvent error) w =
     AppendSystemMessage (lit ''Login failed: '' @ ToWxString W error) w"
| "ProcessProtocolEvent W (ChatRoomListEvent rooms) w =
     SetStatusText (lit ''Loaded '' @ lit (decimal (length rooms)) @ lit '' rooms'') (ApplyRoomList W rooms w)"
| "ProcessProtocolEvent W (ChatJoinRoomSucceededEvent room) w =
     AppendSystemMessage (lit ''Joined room #'' @ lit (decimal (unat (room_id_CR room))) @ lit ''.'')
       (ApplyJoinedRoom W room w)"
| "ProcessProtocolEvent W (ChatJoinRoomFailedEvent error) w =
     AppendSystemMessage (lit ''Join room failed: '' @ ToWxString W error) w"
| "ProcessProtocolEvent W (ChatMessageReceivedEvent _ sender content) w =
     AppendChatMessage (ToWxString W sender) (ToWxString W content) w"
| "ProcessProtocolEvent W (ChatUserJoinedEvent _ name) w =
     AppendSystemMessage (ToWxString W name @ lit '' joined.'') (AddUser W (ToWxString W name) w)"
| "ProcessProtocolEvent W (ChatUserLeftEvent _ name) w =
     AppendSystemMessage (ToWxString W name @ lit '' left.'') (RemoveUser W (ToWxString W name) w)"
| "ProcessProtocolEvent W (ChatSystemMessageEvent _ content) w = AppendSystemMessage (ToWxString W content) w"
| "ProcessProtocolEvent W (ChatProtocolErrorEvent message) w = AppendSystemMessage (ToWxString W message) w"

definition LoadMockData :: "wx \<Rightarrow> ChatClientFrame \<Rightarrow> ChatClientFrame" where
  "LoadMockData W w =
     SetStatusText (lit ''Mock data loaded from schema layout'')
       (fold (ProcessProtocolEvent W) CreateMockEvents
         (w\<lparr>rooms_F := [], room_list_F := [], selected_F := None, user_list_F := [], chat_log_ctrl_F := [],
            current_room_id_F := 0, current_room_label_F := lit ''Current Room: -''\<rparr>))"

definition ChatClientFrame_init :: "wx \<Rightarrow> ChatClientFrame" where
  "ChatClientFrame_init W = (LoadMockData W (SetConnectionState False BuildLayout))\<lparr>poll_timer_F := True\<rparr>"

text \<open>
  The handlers.  For \<^verbatim>\<open>OnConnectClicked\<close>, \<open>os\<close> and \<open>t\<close> are the answers of the operating system and
  the time.
\<close>

definition OnConnectClicked ::
    "wx \<Rightarrow> flatbuffers \<Rightarrow> connect_results \<Rightarrow> int \<Rightarrow> ChatClientFrame \<Rightarrow> ChatClientFrame" where
  "OnConnectClicked W f os t w =
     (let host = Trimmed W (host_ctrl_F w);
          port = ParsePort W (port_ctrl_F w);
          display_name = Trimmed W (display_name_ctrl_F w)
      in if host = [] then wxMessageBox (lit ''Enter a host.'') w
         else case port of
             None \<Rightarrow> wxMessageBox (lit ''Port must be a number between 0 and 65535.'') w
           | Some port \<Rightarrow>
               if display_name = [] then wxMessageBox (lit ''Enter a display name.'') w
               else
                 let (connected, p) = Connect_P (ToStdString W host) port os t (protocol_client_F w)
                 in case connected of
                     Inl error \<Rightarrow> wxMessageBox (ToWxString W error) (w\<lparr>protocol_client_F := p\<rparr>)
                   | Inr _ \<Rightarrow>
                       let w1 = AppendSystemMessage
                             (lit ''TCP connection established. Sending schema-based requests.'')
                             (SetStatusText (lit ''Connected to '' @ host @ lit '':'' @ lit (decimal (unat port)))
                               (SetConnectionState True (w\<lparr>protocol_client_F := p\<rparr>)))
                       in w1\<lparr>protocol_client_F := SendRoomListRequest f
                              (SendLoginRequest f (ToStdString W display_name) (protocol_client_F w1))\<rparr>)"

definition OnRefreshRoomsClicked :: "flatbuffers \<Rightarrow> ChatClientFrame \<Rightarrow> ChatClientFrame" where
  "OnRefreshRoomsClicked f w =
     (if \<not> IsConnected (protocol_client_F w) then w
      else AppendSystemMessage (lit ''Requested room list.'')
             (w\<lparr>protocol_client_F := SendRoomListRequest f (protocol_client_F w)\<rparr>))"

definition OnJoinRoomClicked :: "flatbuffers \<Rightarrow> ChatClientFrame \<Rightarrow> ChatClientFrame" where
  "OnJoinRoomClicked f w =
     (if \<not> IsConnected (protocol_client_F w) then w
      else case GetSelectedRoom w of
          None \<Rightarrow> wxMessageBox (lit ''Select a room to join.'') w
        | Some room \<Rightarrow>
            let w1 = AppendSystemMessage
                  (lit ''Sent join request for room #'' @ lit (decimal (unat (room_id_E room))) @ lit ''.'') w
            in w1\<lparr>protocol_client_F := SendJoinRoomRequest f (room_id_E room) (protocol_client_F w1)\<rparr>)"

definition OnRoomActivated :: "flatbuffers \<Rightarrow> ChatClientFrame \<Rightarrow> ChatClientFrame" where
  "OnRoomActivated f w = OnJoinRoomClicked f w"

definition OnSendClicked :: "wx \<Rightarrow> flatbuffers \<Rightarrow> ChatClientFrame \<Rightarrow> ChatClientFrame" where
  "OnSendClicked W f w =
     (if \<not> IsConnected (protocol_client_F w) then w
      else if current_room_id_F w = 0 then wxMessageBox (lit ''Join a room first.'') w
      else
        let txt = Trimmed W (message_input_ctrl_F w)
        in if txt = [] then w
           else w\<lparr>protocol_client_F := SendChatRequest f (ToStdString W txt) (protocol_client_F w),
                  message_input_ctrl_F := []\<rparr>)"

text \<open>
  The I/O thread runs on while the events are processed: \<open>during\<close> is what it does between the poll
  and the second test.
\<close>

definition io_steps :: "(nat \<Rightarrow> bool) \<Rightarrow> client_event list \<Rightarrow> ChatProtocolClient \<Rightarrow> ChatProtocolClient" where
  "io_steps push es p =
     p\<lparr>client_P := map_option (fold (client_attempt push) (filter transport_event es)) (client_P p)\<rparr>"

definition OnPollTimer ::
    "wx \<Rightarrow> flatbuffers \<Rightarrow> (nat \<Rightarrow> bool) \<Rightarrow> client_event list \<Rightarrow> ChatClientFrame \<Rightarrow> ChatClientFrame" where
  "OnPollTimer W f push during w =
     (if \<not> IsConnected (protocol_client_F w) then w
      else
        let (events, p) = PollEvents f (Update_P (protocol_client_F w));
            w1 = fold (ProcessProtocolEvent W) events (w\<lparr>protocol_client_F := p\<rparr>);
            w2 = w1\<lparr>protocol_client_F := io_steps push during (protocol_client_F w1)\<rparr>
        in if \<not> IsConnected (protocol_client_F w2) then
             AppendSystemMessage (lit ''Server connection closed.'')
               (SetStatusText (lit ''Disconnected'')
                 (SetConnectionState False (w2\<lparr>protocol_client_F := Disconnect_P (protocol_client_F w2)\<rparr>)))
           else w2)"

definition OnClose :: "ChatClientFrame \<Rightarrow> ChatClientFrame" where
  "OnClose w =
     w\<lparr>poll_timer_F := False, protocol_client_F := Disconnect_P (protocol_client_F w), window_open_F := False\<rparr>"

section \<open>Runs of the window\<close>

datatype ui_event =
    ConnectClicked connect_results int
  | RefreshClicked | JoinClicked | RoomActivated | SendClicked
  | PollTimer "client_event list"
  | CloseWindow
  | EditHost wxString | EditPort wxString | EditName wxString | EditMessage wxString
  | SelectRow "nat option"
  | FrameIo client_event

text \<open>\<open>SendClicked\<close> is the button, or Enter in the message field; both are enabled together.\<close>

fun ui_enabled :: "ui_event \<Rightarrow> ChatClientFrame \<Rightarrow> bool" where
  "ui_enabled (ConnectClicked _ _) w = connect_enabled_F w"
| "ui_enabled RefreshClicked w = refresh_enabled_F w"
| "ui_enabled JoinClicked w = join_enabled_F w"
| "ui_enabled RoomActivated w = (room_list_F w \<noteq> [])"
| "ui_enabled SendClicked w = (send_enabled_F w \<or> message_enabled_F w)"
| "ui_enabled (PollTimer _) w = poll_timer_F w"
| "ui_enabled CloseWindow w = True"
| "ui_enabled (EditHost _) w = host_enabled_F w"
| "ui_enabled (EditPort _) w = port_enabled_F w"
| "ui_enabled (EditName _) w = True"
| "ui_enabled (EditMessage _) w = message_enabled_F w"
| "ui_enabled (SelectRow r) w = (case r of None \<Rightarrow> True | Some i \<Rightarrow> i < length (room_list_F w))"
| "ui_enabled (FrameIo e) w = transport_event e"

fun ui_fire :: "wx \<Rightarrow> flatbuffers \<Rightarrow> (nat \<Rightarrow> bool) \<Rightarrow> ui_event \<Rightarrow> ChatClientFrame \<Rightarrow> ChatClientFrame" where
  "ui_fire W f push (ConnectClicked os t) w = OnConnectClicked W f os t w"
| "ui_fire W f push RefreshClicked w = OnRefreshRoomsClicked f w"
| "ui_fire W f push JoinClicked w = OnJoinRoomClicked f w"
| "ui_fire W f push RoomActivated w = OnRoomActivated f w"
| "ui_fire W f push SendClicked w = OnSendClicked W f w"
| "ui_fire W f push (PollTimer during) w = OnPollTimer W f push during w"
| "ui_fire W f push CloseWindow w = OnClose w"
| "ui_fire W f push (EditHost s) w = w\<lparr>host_ctrl_F := s\<rparr>"
| "ui_fire W f push (EditPort s) w = w\<lparr>port_ctrl_F := s\<rparr>"
| "ui_fire W f push (EditName s) w = w\<lparr>display_name_ctrl_F := s\<rparr>"
| "ui_fire W f push (EditMessage s) w = w\<lparr>message_input_ctrl_F := s\<rparr>"
| "ui_fire W f push (SelectRow r) w = w\<lparr>selected_F := r\<rparr>"
| "ui_fire W f push (FrameIo e) w = w\<lparr>protocol_client_F := io_steps push [e] (protocol_client_F w)\<rparr>"

definition ui_attempt ::
    "wx \<Rightarrow> flatbuffers \<Rightarrow> (nat \<Rightarrow> bool) \<Rightarrow> ui_event \<Rightarrow> ChatClientFrame \<Rightarrow> ChatClientFrame" where
  "ui_attempt W f push e w = (if window_open_F w \<and> ui_enabled e w then ui_fire W f push e w else w)"

definition ui_run ::
    "wx \<Rightarrow> flatbuffers \<Rightarrow> (nat \<Rightarrow> bool) \<Rightarrow> ui_event list \<Rightarrow> ChatClientFrame" where
  "ui_run W f push es = fold (ui_attempt W f push) es (ChatClientFrame_init W)"

section \<open>Invariant\<close>

definition room_row :: "RoomEntry \<Rightarrow> wxString \<times> wxString" where
  "room_row e = (room_name_E e, lit (decimal (unat (user_count_E e))))"

text \<open>The rows show the rooms; no user is listed twice; the controls are in one of two states.\<close>

definition rows_inv :: "ChatClientFrame \<Rightarrow> bool" where
  "rows_inv w \<longleftrightarrow>
     room_list_F w = map room_row (rooms_F w)
     \<and> (\<forall>i. selected_F w = Some i \<longrightarrow> i < length (rooms_F w))"

definition users_inv :: "wx \<Rightarrow> ChatClientFrame \<Rightarrow> bool" where
  "users_inv W w \<longleftrightarrow>
     (\<forall>j < length (user_list_F w). \<forall>i < j. \<not> same_string W (user_list_F w ! i) (user_list_F w ! j))
     \<and> [] \<notin> set (user_list_F w)"

definition controls_inv :: "ChatClientFrame \<Rightarrow> bool" where
  "controls_inv w \<longleftrightarrow>
     host_enabled_F w = connect_enabled_F w \<and> port_enabled_F w = connect_enabled_F w
     \<and> refresh_enabled_F w = (\<not> connect_enabled_F w) \<and> join_enabled_F w = (\<not> connect_enabled_F w)
     \<and> message_enabled_F w = (\<not> connect_enabled_F w) \<and> send_enabled_F w = (\<not> connect_enabled_F w)
     \<and> (window_open_F w \<and> connect_enabled_F w \<longrightarrow> client_P (protocol_client_F w) = None)
     \<and> (window_open_F w \<longrightarrow> poll_timer_F w)"

definition frame_inv :: "wx \<Rightarrow> ChatClientFrame \<Rightarrow> bool" where
  "frame_inv W w \<longleftrightarrow> rows_inv w \<and> users_inv W w \<and> controls_inv w"

lemmas frame_text_defs = AppendSystemMessage_def AppendChatMessage_def AppendLine_def SetStatusText_def
  wxMessageBox_def

lemmas frame_inv_defs = frame_inv_def rows_inv_def users_inv_def controls_inv_def


text \<open>The functions that only change texts.\<close>

lemma frame_inv_texts [inv_intros]:
  "frame_inv W w \<Longrightarrow> frame_inv W (AppendSystemMessage m w)"
  "frame_inv W w \<Longrightarrow> frame_inv W (AppendChatMessage a m w)"
  "frame_inv W w \<Longrightarrow> frame_inv W (SetStatusText m w)"
  "frame_inv W w \<Longrightarrow> frame_inv W (wxMessageBox m w)"
  by (simp_all add: frame_inv_defs frame_text_defs Let_def)

lemma ApplyRoom_rows:
  assumes "room_list_F w = map room_row (rooms_F w)"
  shows "ApplyRoom W room w =
    w\<lparr>rooms_F := rooms_F w @ [\<lparr>room_id_E = room_id_CR room, room_name_E = ToWxString W (room_name_CR room),
         user_count_E = user_count_CR room\<rparr>],
      room_list_F := map room_row (rooms_F w @ [\<lparr>room_id_E = room_id_CR room,
         room_name_E = ToWxString W (room_name_CR room), user_count_E = user_count_CR room\<rparr>])\<rparr>"
  using assms by (simp add: ApplyRoom_def Let_def room_row_def)

lemma ApplyRoomList_eq:
  fixes W
  defines "entries rs \<equiv> map (\<lambda>r. \<lparr>room_id_E = room_id_CR r, room_name_E = ToWxString W (room_name_CR r),
      user_count_E = user_count_CR r\<rparr>) rs"
  shows "ApplyRoomList W rs w =
    w\<lparr>rooms_F := entries rs, room_list_F := map room_row (entries rs), selected_F := None\<rparr>"
proof -
  have "fold (ApplyRoom W) rs v = v\<lparr>rooms_F := rooms_F v @ entries rs, room_list_F := map room_row (rooms_F v @ entries rs)\<rparr>"
    if "room_list_F v = map room_row (rooms_F v)" for v
    using that
  proof (induction rs arbitrary: v)
    case Nil
    then show ?case by (simp add: entries_def)
  next
    case (Cons r rs)
    then show ?case by (simp add: ApplyRoom_rows entries_def)
  qed
  then show ?thesis by (simp add: ApplyRoomList_def)
qed

lemma frame_inv_ApplyRoomList [inv_intros]:
  "frame_inv W w \<Longrightarrow> frame_inv W (ApplyRoomList W rs w)"
  by (simp add: ApplyRoomList_eq frame_inv_defs)

lemma frame_inv_ApplyJoinedRoom [inv_intros]:
  "frame_inv W w \<Longrightarrow> frame_inv W (ApplyJoinedRoom W room w)"
  by (simp add: ApplyJoinedRoom_def frame_inv_defs SetStatusText_def)

lemma FindString_None: "FindString W name us = None \<longleftrightarrow> (\<forall>u \<in> set us. \<not> same_string W u name)"
  by (induction us) auto

lemma frame_inv_AddUser [inv_intros]:
  "frame_inv W w \<Longrightarrow> frame_inv W (AddUser W name w)"
  by (auto simp: AddUser_def FindString_None frame_inv_defs nth_append less_Suc_eq)

lemma users_inv_sorted:
  "users_inv W w \<longleftrightarrow> sorted_wrt (\<lambda>a b. \<not> same_string W a b) (user_list_F w) \<and> [] \<notin> set (user_list_F w)"
  by (auto simp: users_inv_def sorted_wrt_iff_nth_less)

lemma frame_inv_RemoveUser [inv_intros]:
  assumes "frame_inv W w"
  shows "frame_inv W (RemoveUser W name w)"
proof -
  have "sorted_wrt R (take i us @ drop (Suc i) us)" if "sorted_wrt R us" for R i and us :: "wxString list"
  proof -
    have "\<forall>x \<in> set (take i us). \<forall>y \<in> set (drop i us). R x y"
      using that by (metis append_take_drop_id sorted_wrt_append)
    then show ?thesis
      using that set_drop_subset_set_drop [of i "Suc i" us]
      by (auto simp: sorted_wrt_append sorted_wrt_take sorted_wrt_drop)
  qed
  then show ?thesis
    using assms by (auto simp: RemoveUser_def frame_inv_def rows_inv_def controls_inv_def users_inv_sorted
        split: option.split dest: in_set_takeD in_set_dropD)
qed

lemma frame_inv_ProcessProtocolEvent [inv_intros]:
  "frame_inv W w \<Longrightarrow> frame_inv W (ProcessProtocolEvent W e w)"
  by (cases e) (auto intro!: inv_intros simp: Let_def)

lemma frame_inv_fold [inv_intros]:
  "frame_inv W w \<Longrightarrow> frame_inv W (fold (ProcessProtocolEvent W) es w)"
  by (induction es arbitrary: w) (simp_all add: inv_intros)

text \<open>The controls an event of the protocol leaves alone.\<close>

lemma process_keeps:
  "protocol_client_F (ProcessProtocolEvent W e w) = protocol_client_F w
   \<and> connect_enabled_F (ProcessProtocolEvent W e w) = connect_enabled_F w
   \<and> window_open_F (ProcessProtocolEvent W e w) = window_open_F w"
  by (cases e) (auto simp: frame_text_defs ApplyRoomList_eq ApplyJoinedRoom_def AddUser_def RemoveUser_def Let_def
      split: option.split)

lemma fold_process_keeps:
  "protocol_client_F (fold (ProcessProtocolEvent W) es w) = protocol_client_F w
   \<and> connect_enabled_F (fold (ProcessProtocolEvent W) es w) = connect_enabled_F w
   \<and> window_open_F (fold (ProcessProtocolEvent W) es w) = window_open_F w"
  by (induction es arbitrary: w) (simp_all add: process_keeps)

lemma client_None_SendBuffer [simp]: "client_P (SendBuffer d p) = None \<longleftrightarrow> client_P p = None"
  by (simp add: SendBuffer_def split: option.split)

lemma client_None_same [simp]:
  "client_P (SendLoginRequest f name p) = None \<longleftrightarrow> client_P p = None"
  "client_P (SendRoomListRequest f p) = None \<longleftrightarrow> client_P p = None"
  "client_P (SendJoinRoomRequest f room p) = None \<longleftrightarrow> client_P p = None"
  "client_P (SendChatRequest f txt p) = None \<longleftrightarrow> client_P p = None"
  "client_P (snd (PollEvents f p)) = None \<longleftrightarrow> client_P p = None"
  "client_P (io_steps push es p) = None \<longleftrightarrow> client_P p = None"
  by (simp_all add: SendLoginRequest_def SendRoomListRequest_def SendJoinRoomRequest_def SendChatRequest_def
      NextRequestId_def PollEvents_def io_steps_def poll_loop_eq split: option.split)

text \<open>A change of the protocol client that neither makes nor destroys the connection object.\<close>

lemma frame_inv_client [inv_intros]:
  "frame_inv W w \<Longrightarrow> client_P p = None \<longleftrightarrow> client_P (protocol_client_F w) = None
   \<Longrightarrow> frame_inv W (w\<lparr>protocol_client_F := p\<rparr>)"
  by (simp add: frame_inv_defs)

lemma frame_inv_connect:
  assumes inv: "frame_inv W w"
  shows "frame_inv W (OnConnectClicked W f os t w)"
  using assms
  by (simp add: OnConnectClicked_def Connect_P_def Let_def frame_text_defs SetConnectionState_def frame_inv_defs
      split: option.split sum.split)

lemma frame_inv_join:
  assumes inv: "frame_inv W w"
  shows "frame_inv W (OnJoinRoomClicked f w)"
proof -
  have "frame_inv W ((AppendSystemMessage m w)\<lparr>protocol_client_F :=
      SendJoinRoomRequest f r (protocol_client_F (AppendSystemMessage m w))\<rparr>)" for m r
    using inv by (intro frame_inv_client frame_inv_texts) simp_all
  then show ?thesis
    using inv frame_inv_texts(4) [OF inv]
    by (simp add: OnJoinRoomClicked_def Let_def split: option.split)
qed

lemma frame_inv_poll:
  assumes inv: "frame_inv W w"
  shows "frame_inv W (OnPollTimer W f push during w)"
proof -
  define w1 where "w1 = fold (ProcessProtocolEvent W) (fst (PollEvents f (protocol_client_F w)))
      (w\<lparr>protocol_client_F := snd (PollEvents f (protocol_client_F w))\<rparr>)"
  have inv1: "frame_inv W w1" unfolding w1_def using inv by (intro inv_intros) simp_all
  let ?w2 = "w1\<lparr>protocol_client_F := io_steps push during (protocol_client_F w1)\<rparr>"
  have inv2: "frame_inv W ?w2" using inv1 by (intro inv_intros) simp_all
  have "frame_inv W (SetConnectionState False (?w2\<lparr>protocol_client_F := Disconnect_P (protocol_client_F ?w2)\<rparr>))"
    using inv2 by (simp add: frame_inv_defs SetConnectionState_def Disconnect_P_def)
  from frame_inv_texts(1) [OF frame_inv_texts(3) [OF this]] show ?thesis
    using inv inv2 by (simp add: OnPollTimer_def Update_P_def Let_def case_prod_beta flip: w1_def)
qed

lemma frame_inv_attempt:
  assumes inv: "frame_inv W w"
  shows "frame_inv W (ui_attempt W f push e w)"
proof -
  have "frame_inv W (ui_fire W f push e w)" if en: "ui_enabled e w"
  proof (cases e)
    case (ConnectClicked os t)
    then show ?thesis using frame_inv_connect [OF inv] by simp
  next
    case (PollTimer during)
    then show ?thesis using frame_inv_poll [OF inv] by simp
  next
    case CloseWindow
    then show ?thesis using inv by (simp add: OnClose_def frame_inv_defs Disconnect_P_def)
  next
    case (SelectRow r)
    then show ?thesis using inv en by (auto simp: frame_inv_defs split: option.splits)
  next
    case JoinClicked
    then show ?thesis using frame_inv_join [OF inv] by simp
  next
    case RoomActivated
    then show ?thesis using frame_inv_join [OF inv] by (simp add: OnRoomActivated_def)
  qed (use inv in \<open>auto simp: OnRefreshRoomsClicked_def OnSendClicked_def frame_inv_defs
         frame_text_defs Let_def\<close>)
  then show ?thesis using inv by (simp add: ui_attempt_def)
qed

lemma frame_inv_init: "frame_inv W (ChatClientFrame_init W)"
proof -
  let ?w = "(SetConnectionState False BuildLayout)\<lparr>rooms_F := [], room_list_F := [], selected_F := None,
      user_list_F := [], chat_log_ctrl_F := [], current_room_id_F := 0,
      current_room_label_F := lit ''Current Room: -'', poll_timer_F := True\<rparr>"
  have "frame_inv W ?w"
    by (simp add: frame_inv_defs SetConnectionState_def BuildLayout_def ChatProtocolClient_init_def)
  then have "frame_inv W (fold (ProcessProtocolEvent W) CreateMockEvents ?w)"
    by (rule frame_inv_fold)
  then show ?thesis
    by (simp add: ChatClientFrame_init_def LoadMockData_def CreateMockEvents_def ApplyRoomList_eq
        frame_text_defs Let_def frame_inv_defs SetConnectionState_def BuildLayout_def)
qed

interpretation ui: event_machine "ui_attempt W f push" "frame_inv W" for W f push
  by unfold_locales (rule frame_inv_attempt)

lemma ui_run_inv: "frame_inv W (ui_run W f push es)"
  unfolding ui_run_def by (rule ui.run_invar [OF frame_inv_init])

end
