(* ===== verification/Frame_Properties.thy ===== *)
theory Frame_Properties
  imports Chat_Frame Chat_Properties
begin

text \<open>
  The properties of the window of the chat client.
\<close>

section \<open>Example\<close>

text \<open>A stand-in for wxWidgets that is right for ASCII texts.\<close>

definition lower :: "nat \<Rightarrow> nat" where
  "lower n = (if 65 \<le> n \<and> n \<le> 90 then n + 32 else n)"

definition example_wx :: wx where
  "example_wx =
     \<lparr>FromUTF8 = map of_char, ToStdString = map char_of,
      wx_space = (\<lambda>n. n = 32 \<or> 9 \<le> n \<and> n \<le> 13), same_string = (\<lambda>a b. map lower a = map lower b)\<rparr>"

text \<open>A host with one server, which will send nothing.\<close>

definition one_server :: connect_results where
  "one_server =
     \<lparr>resolve_os = (\<lambda>host service. if host = ''127.0.0.1'' then
          Inr [\<lparr>ep_address = [127, 0, 0, 1], ep_port = of_nat (digits_value service)\<rparr>] else Inl ''unknown host''),
      connect_os = (\<lambda>endpoints. if \<lparr>ep_address = [127, 0, 0, 1], ep_port = 12345\<rparr> \<in> set endpoints
          then Inr [] else Inl ''refused''),
      nodelay_ec = None\<rparr>"

text \<open>The user connects with the texts the window starts with.\<close>

definition example_window :: "ui_event list \<Rightarrow> ChatClientFrame" where
  "example_window es = ui_run example_wx example_fb queue_of_4096 (ConnectClicked one_server 50 # es)"

section \<open>The port\<close>

lemma ParsePort_Some:
  "ParsePort W v = Some n \<longleftrightarrow>
     ToStdString W (Trimmed W v) \<noteq> [] \<and> list_all is_digit (ToStdString W (Trimmed W v))
     \<and> digits_value (ToStdString W (Trimmed W v)) \<le> 65535
     \<and> n = of_nat (digits_value (ToStdString W (Trimmed W v)))"
proof -
  let ?t = "ToStdString W (Trimmed W v)"
  show ?thesis
  proof (cases "list_all is_digit ?t")
    case True
    then have take: "takeWhile is_digit ?t = ?t" and drop: "dropWhile is_digit ?t = []"
      by (simp_all only: list_all_iff takeWhile_eq_all_conv dropWhile_eq_Nil_conv)
    have "from_chars ?t = (if ?t = [] \<or> 2 ^ 32 \<le> digits_value ?t then None else Some (digits_value ?t, []))"
      unfolding from_chars_def take drop by (simp add: Let_def)
    then show ?thesis using True by (auto simp: ParsePort_def)
  next
    case False
    then have "dropWhile is_digit ?t \<noteq> []" by (simp add: list_all_iff dropWhile_eq_Nil_conv)
    then show ?thesis using False by (simp add: ParsePort_def from_chars_def Let_def del: dropWhile_eq_Nil_conv)
  qed
qed

lemma digits_value_snoc: "digits_value (ds @ [c]) = 10 * digits_value ds + (of_char c - 48)"
  by (simp add: digits_value_def)

text \<open>What \<^verbatim>\<open>%u\<close> prints is read back.\<close>

lemma decimal_read: "digits_value (decimal n) = n \<and> list_all is_digit (decimal n) \<and> decimal n \<noteq> []"
proof (induction n rule: decimal.induct)
  case (1 n)
  have d: "(of_char (char_of (48 + n mod 10) :: char) :: nat) = 48 + n mod 10"
    by (simp add: of_char_of)
  have "n mod 10 \<le> 9" by presburger
  then have dig: "is_digit (char_of (48 + n mod 10))" by (simp add: is_digit_def d)
  have eq: "decimal n = (if n < 10 then [] else decimal (n div 10)) @ [char_of (48 + n mod 10)]"
    by (rule decimal.simps)
  show ?case
  proof (cases "n < 10")
    case True
    then show ?thesis unfolding eq using d dig by (simp add: digits_value_def)
  next
    case False
    then show ?thesis unfolding eq using 1 d dig by (simp add: digits_value_snoc)
  qed
qed

section \<open>State of the window\<close>

text \<open>
  C34: After every sequence of user actions, timer ticks and I/O events, the rows of the room list show
  the rooms the window knows, in order, with their numbers of users; a selected row is the row of
  the room that \<^verbatim>\<open>OnJoinRoomClicked\<close> will ask to join; no user is listed twice or with an empty
  name; the controls are either all set for connecting or all set for chatting, and as long as
  they are set for connecting there is no connection.
\<close>

theorem window_shows_state:
  fixes W f push es
  defines "w \<equiv> ui_run W f push es"
  shows "room_list_F w = map (\<lambda>e. (room_name_E e, lit (decimal (unat (user_count_E e))))) (rooms_F w)
    \<and> GetSelectedRoom w = map_option ((!) (rooms_F w)) (selected_F w)
    \<and> sorted_wrt (\<lambda>a b. \<not> same_string W a b) (user_list_F w) \<and> [] \<notin> set (user_list_F w)
    \<and> [host_enabled_F w, port_enabled_F w, connect_enabled_F w] = replicate 3 (connect_enabled_F w)
    \<and> [refresh_enabled_F w, join_enabled_F w, message_enabled_F w, send_enabled_F w]
        = replicate 4 (\<not> connect_enabled_F w)
    \<and> (window_open_F w \<and> connect_enabled_F w \<longrightarrow> client_P (protocol_client_F w) = None)"
proof -
  have inv: "frame_inv W w" unfolding w_def by (rule ui_run_inv)
  then have "users_inv W w" by (simp add: frame_inv_def)
  moreover have "GetSelectedRoom w = map_option ((!) (rooms_F w)) (selected_F w)"
    using inv by (auto simp: GetSelectedRoom_def frame_inv_defs split: option.split)
  ultimately show ?thesis
    using inv by (auto simp: users_inv_sorted frame_inv_def rows_inv_def controls_inv_def room_row_def numeral_eq_Suc)
qed

section \<open>Connecting\<close>

text \<open>
  C40: What the Connect button does, on every branch.  The host and the display name must not be blank
  and the port must be decimal digits, and nothing else, of a value up to 65535; otherwise a box
  is shown and nothing changes.  Otherwise the client is made for exactly that host and port.  If
  the operating system cannot connect, its message is shown and nothing changes.  Otherwise the window is set for chatting, the transport has been given the
  login request with the name the user typed and the room list request, as the first two requests
  of the connection and in this order, and the next request will be the third.
\<close>

theorem connect_button:
  fixes W f os t w
  defines "w' \<equiv> OnConnectClicked W f os t w"
    and "host \<equiv> Trimmed W (host_ctrl_F w)" and "name \<equiv> Trimmed W (display_name_ctrl_F w)" and "port \<equiv> ToStdString W (Trimmed W (port_ctrl_F w))"
  defines "valid \<equiv> host \<noteq> [] \<and> name \<noteq> []
      \<and> port \<noteq> [] \<and> list_all is_digit port \<and> digits_value port \<le> 65535"
    and "requests \<equiv> [request_bytes f 1 (AskLogin (ToStdString W name)), request_bytes f 2 AskRoomList]"
  assumes "fb_ok f"
  shows "(\<not> valid \<longrightarrow> (\<exists>box. w' = w\<lparr>message_boxes_F := message_boxes_F w @ [box]\<rparr>))
    \<and> (valid \<longrightarrow>
        (case create_C (ToStdString W host) (of_nat (digits_value port)) os t of
           Inl e \<Rightarrow> w' = w\<lparr>message_boxes_F := message_boxes_F w @ [FromUTF8 W e]\<rparr>
         | Inr c0 \<Rightarrow>
             (\<exists>c. client_P (protocol_client_F w') = Some c \<and> is_connected c
                \<and> sent_C c = filter (\<lambda>d. length d \<le> 2048) requests \<and> inbox_C c = inbox_C c0)
             \<and> next_request_id_P (protocol_client_F w') = 3
             \<and> \<not> connect_enabled_F w' \<and> send_enabled_F w'))"
proof -
  have parse: "ParsePort W (port_ctrl_F w) =
      (if port \<noteq> [] \<and> list_all is_digit port \<and> digits_value port \<le> 65535 then Some (of_nat (digits_value port)) else None)"
    using ParsePort_Some [of W "port_ctrl_F w"] unfolding port_def
    by (cases "ParsePort W (port_ctrl_F w)") (auto simp: port_def)
  have "\<exists>box. w' = w\<lparr>message_boxes_F := message_boxes_F w @ [box]\<rparr>" if "\<not> valid"
    using that parse unfolding valid_def w'_def name_def host_def
    by (auto simp: OnConnectClicked_def wxMessageBox_def Let_def split: option.split)
  moreover have "w' = w\<lparr>message_boxes_F := message_boxes_F w @ [FromUTF8 W e]\<rparr>"
    if "valid" "create_C (ToStdString W host) (of_nat (digits_value port)) os t = Inl e" for e
    using that parse unfolding valid_def w'_def name_def host_def
    by (auto simp: OnConnectClicked_def wxMessageBox_def Connect_P_def ToWxString_def Let_def)
  moreover have "(\<exists>c. client_P (protocol_client_F w') = Some c \<and> is_connected c
        \<and> sent_C c = filter (\<lambda>d. length d \<le> 2048) requests \<and> inbox_C c = inbox_C c0)
      \<and> next_request_id_P (protocol_client_F w') = 3 \<and> \<not> connect_enabled_F w' \<and> send_enabled_F w'"
    if v: "valid" and c0: "create_C (ToStdString W host) (of_nat (digits_value port)) os t = Inr c0" for c0
  proof -
    obtain stream where start: "c0 = client_started t stream" using c0 by (auto simp: create_C_Inr)
    let ?p = "(protocol_client_F w)\<lparr>client_P := Some c0, next_request_id_P := 1\<rparr>"
    let ?r1 = "AskLogin (ToStdString W name)"
    have "send_request f AskRoomList (send_request f ?r1 ?p) =
        ?p\<lparr>client_P := Some (send_C (request_bytes f 2 AskRoomList) (send_C (request_bytes f 1 ?r1) c0)),
           next_request_id_P := 3\<rparr>"
      using send_request_eq [OF \<open>fb_ok f\<close>, of ?p c0 ?r1]
        send_request_eq [OF \<open>fb_ok f\<close>, of "send_request f ?r1 ?p" _ AskRoomList] by simp
    moreover have "protocol_client_F w' = send_request f AskRoomList (send_request f ?r1 ?p)"
        "\<not> connect_enabled_F w'" "send_enabled_F w'"
      using v parse c0 unfolding w'_def valid_def name_def host_def
      by (simp_all add: OnConnectClicked_def Connect_P_def frame_text_defs SetConnectionState_def Let_def)
    moreover have "game_pool_C c0 = []" "connected_C c0" "\<not> shutting_down_C c0" "sent_C c0 = []"
      unfolding start by (simp_all add: client_started_def start_io_def Client_init_def client_defs)
    moreover have "request_bytes f i r \<noteq> []" for i r
      using \<open>fb_ok f\<close> by (simp add: request_bytes_nonempty)
    ultimately show ?thesis
      by (simp add: send_C_eq is_connected_def requests_def sendable_payload_def MAX_PAYLOAD_SIZE_def)
  qed
  ultimately show ?thesis by (auto split: sum.split)
qed

lemma init_window:
  "host_ctrl_F (ChatClientFrame_init W) = lit ''127.0.0.1''" "port_ctrl_F (ChatClientFrame_init W) = lit ''12345''"
  "display_name_ctrl_F (ChatClientFrame_init W) = lit ''NightUser''"
  "connect_enabled_F (ChatClientFrame_init W)" "window_open_F (ChatClientFrame_init W)"
  by (simp_all add: ChatClientFrame_init_def LoadMockData_def CreateMockEvents_def ApplyRoomList_eq frame_text_defs
      SetConnectionState_def BuildLayout_def Let_def)

lemma example_texts:
  "Trimmed example_wx (lit ''127.0.0.1'') = lit ''127.0.0.1''" "Trimmed example_wx (lit ''12345'') = lit ''12345''"
  "Trimmed example_wx (lit ''NightUser'') = lit ''NightUser''"
  "ToStdString example_wx (lit s) = s" "lit ''127.0.0.1'' \<noteq> []" "lit ''NightUser'' \<noteq> []"
  by (simp_all add: Trimmed_def example_wx_def lit_def comp_def)

lemma example_port: "list_all is_digit ''12345''" "digits_value ''12345'' = 12345"
  by (simp_all add: is_digit_def digits_value_def)

lemma one_server_created: "create_C ''127.0.0.1'' 12345 one_server 50 = Inr (client_started 50 [])"
  unfolding create_C_Inr
  by (simp add: one_server_def decimal.simps digits_value_def)

theorem connect_button_witness:
  "next_request_id_P (protocol_client_F
     (OnConnectClicked example_wx example_fb one_server 50 (ChatClientFrame_init example_wx))) = 3"
  using connect_button [OF example_fb_ok, where W = example_wx and os = one_server and t = 50
      and w = "ChatClientFrame_init example_wx"]
  by (simp add: init_window example_texts example_port is_digit_def one_server_created)

theorem window_shows_state_witness:
  "client_P (protocol_client_F (ui_run example_wx example_fb queue_of_4096 [])) = None
   \<and> GetSelectedRoom (ui_run example_wx example_fb queue_of_4096 [SelectRow (Some 1)]) \<noteq> None"
proof -
  let ?w = "ui_run example_wx example_fb queue_of_4096 [SelectRow (Some 1)]"
  have rows: "length (room_list_F (ChatClientFrame_init example_wx)) = 3"
    by (simp add: ChatClientFrame_init_def LoadMockData_def CreateMockEvents_def ApplyRoomList_eq frame_text_defs Let_def)
  have "window_open_F (ui_run example_wx example_fb queue_of_4096 [])" "connect_enabled_F (ui_run example_wx example_fb queue_of_4096 [])"
      "selected_F ?w = Some 1"
    using rows by (simp_all add: ui_run_def ui_attempt_def init_window)
  then show ?thesis
    using window_shows_state [of example_wx example_fb queue_of_4096 "[]"]
      window_shows_state [of example_wx example_fb queue_of_4096 "[SelectRow (Some 1)]"] by simp
qed

section \<open>A lost connection\<close>

text \<open>What stays the same in a window that is set for chatting but has no connection.\<close>

definition same_display :: "ChatClientFrame \<Rightarrow> ChatClientFrame \<Rightarrow> bool" where
  "same_display w w' \<longleftrightarrow>
     status_text_F w' = status_text_F w \<and> chat_log_ctrl_F w' = chat_log_ctrl_F w
     \<and> message_boxes_F w' = message_boxes_F w \<and> user_list_F w' = user_list_F w
     \<and> rooms_F w' = rooms_F w \<and> connect_enabled_F w' = connect_enabled_F w \<and> window_open_F w' = window_open_F w"

lemma io_steps_offline:
  assumes "\<not> IsConnected p"
  shows "\<not> IsConnected (io_steps push es p)"
proof -
  have "\<not> is_connected (fold (client_attempt push) (filter transport_event es) c)" if "\<not> is_connected c" for c
    using that
  proof (induction es arbitrary: c)
    case (Cons e es)
    then show ?case
      using calm_transport [of e c push] by (auto simp: calm_def is_connected_def)
  qed simp
  then show ?thesis using assms by (auto simp: IsConnected_def io_steps_def split: option.splits)
qed

lemma offline_attempt:
  assumes "\<not> IsConnected (protocol_client_F w)" and "\<not> connect_enabled_F w" and "e \<noteq> CloseWindow"
  shows "same_display w (ui_attempt W f push e w)" and "\<not> IsConnected (protocol_client_F (ui_attempt W f push e w))"
  using assms
  by (cases e; simp add: same_display_def ui_attempt_def OnRefreshRoomsClicked_def OnJoinRoomClicked_def
      OnRoomActivated_def OnSendClicked_def OnPollTimer_def io_steps_offline)+

lemma offline_run:
  assumes "\<not> IsConnected (protocol_client_F w)" and "\<not> connect_enabled_F w" and "CloseWindow \<notin> set es"
  shows "same_display w (fold (ui_attempt W f push) es w)
    \<and> \<not> IsConnected (protocol_client_F (fold (ui_attempt W f push) es w))"
  using assms
proof (induction es arbitrary: w)
  case Nil
  then show ?case by (simp add: same_display_def)
next
  case (Cons e es)
  note step = offline_attempt [OF Cons.prems(1,2), of e W f push]
  have "same_display w (ui_attempt W f push e w)" "\<not> IsConnected (protocol_client_F (ui_attempt W f push e w))"
    using step Cons.prems(3) by auto
  with Cons.IH [of "ui_attempt W f push e w"] Cons.prems show ?case
    by (simp add: same_display_def)
qed

text \<open>
  C39: The window does not notice a lost connection.  \<^verbatim>\<open>OnPollTimer\<close> tests \<^verbatim>\<open>IsConnected\<close> before it polls,
  so once the I/O thread has ended the connection between two ticks, the branch that tells the
  user and enables the Connect button is never reached: whatever the user, the timer and the I/O
  thread do until the window is closed, the status line, the log and the lists stay as they are,
  no box is shown, packets that had arrived are not shown, and the Connect button stays disabled.
\<close>

theorem connection_loss_unseen:
  fixes W f push es later
  defines "w \<equiv> ui_run W f push es"
  defines "w' \<equiv> fold (ui_attempt W f push) later w"
  assumes "\<not> connect_enabled_F w" and "\<not> IsConnected (protocol_client_F w)" and "CloseWindow \<notin> set later"
  shows "\<not> connect_enabled_F w' \<and> \<not> IsConnected (protocol_client_F w')
    \<and> status_text_F w' = status_text_F w \<and> chat_log_ctrl_F w' = chat_log_ctrl_F w
    \<and> message_boxes_F w' = message_boxes_F w \<and> user_list_F w' = user_list_F w \<and> rooms_F w' = rooms_F w"
  using offline_run [OF assms(4,3,5), of W f push] assms(3) unfolding w'_def same_display_def by simp

lemma example_lost:
  "\<not> connect_enabled_F (example_window [FrameIo IoHeaderFailed])"
  "\<not> IsConnected (protocol_client_F (example_window [FrameIo IoHeaderFailed]))"
proof -
  let ?w = "OnConnectClicked example_wx example_fb one_server 50 (ChatClientFrame_init example_wx)"
  have port: "ParsePort example_wx (lit ''12345'') = Some 12345"
    by (simp add: ParsePort_Some example_texts example_port is_digit_def)
  let ?p = "(protocol_client_F (ChatClientFrame_init example_wx))\<lparr>client_P := Some (client_started 50 []), next_request_id_P := 1\<rparr>"
  let ?r1 = "AskLogin ''NightUser''"
  have p: "protocol_client_F ?w = send_request example_fb AskRoomList (send_request example_fb ?r1 ?p)"
    and off: "\<not> connect_enabled_F ?w" "window_open_F ?w"
    by (simp_all add: OnConnectClicked_def init_window example_texts port one_server_created Connect_P_def frame_text_defs
        SetConnectionState_def Let_def)
  obtain d1 d2 where c: "client_P (protocol_client_F ?w) = Some (send_C d2 (send_C d1 (client_started 50 [])))"
    using send_request_eq [OF example_fb_ok, of ?p _ ?r1]
      send_request_eq [OF example_fb_ok, of "send_request example_fb ?r1 ?p" _ AskRoomList] unfolding p by simp
  have "\<not> connected_C (client_attempt queue_of_4096 IoHeaderFailed (send_C d2 (send_C d1 (client_started 50 []))))"
    by (simp add: send_C_eq client_attempt_def client_started_def start_io_def Client_init_def client_defs
        io_running_def on_header_read_C_def Let_def)
  then show "\<not> connect_enabled_F (example_window [FrameIo IoHeaderFailed])"
      "\<not> IsConnected (protocol_client_F (example_window [FrameIo IoHeaderFailed]))"
    using off c by (simp_all add: example_window_def ui_run_def ui_attempt_def init_window io_steps_def
        IsConnected_def is_connected_def)
qed

theorem connection_loss_unseen_witness:
  "\<not> connect_enabled_F (fold (ui_attempt example_wx example_fb queue_of_4096) [PollTimer [], RefreshClicked, PollTimer []]
     (example_window [FrameIo IoHeaderFailed]))"
  using connection_loss_unseen [OF example_lost [unfolded example_window_def], of "[PollTimer [], RefreshClicked, PollTimer []]"]
  unfolding example_window_def by simp

section \<open>A message that is too long\<close>

text \<open>
  A chat message whose encoding is longer than a payload may be is dropped by the transport, while
  the message field is cleared and nothing is shown.
\<close>

lemma long_message_lost:
  assumes "fb_ok f" and "client_P (protocol_client_F w) = Some c" and "is_connected c" and "current_room_id_F w \<noteq> 0"
    and "txt = Trimmed W (message_input_ctrl_F w)" and "txt \<noteq> []"
    and "2048 < length (request_bytes f (next_request_id_P (protocol_client_F w)) (AskChat (ToStdString W txt)))"
  shows "client_P (protocol_client_F (OnSendClicked W f w)) = Some c \<and> message_input_ctrl_F (OnSendClicked W f w) = []
    \<and> chat_log_ctrl_F (OnSendClicked W f w) = chat_log_ctrl_F w \<and> message_boxes_F (OnSendClicked W f w) = message_boxes_F w"
  using assms(2-7) send_request_eq [OF assms(1,2), of "AskChat (ToStdString W txt)"]
  by (simp add: OnSendClicked_def IsConnected_def send_C_def MAX_PAYLOAD_SIZE_def Let_def)

end
