(* ===== verification/Spec2Isabelle.thy ===== *)
theory Spec2Isabelle
  imports Night_Prelude Night_Protocol Fb_Runtime Fb_Tables Fb_Reading Fb_Building Fb_Roundtrip
    Example_Runtime Fb_Properties Room_System Game_Logic Game_Properties
    Wire_Format Net_Session Transport_Properties Net_Server Server_Shutdown Network_System
    Server_Properties World_Properties Net_Client Client_Properties Chat_Client Chat_Properties
    Chat_Frame Frame_Properties
begin

text \<open>
  Night is a chat program: a TCP server with rooms, a client with a window, and the network library
  both are built on.  This development models the C++ sources under \<^verbatim>\<open>src/\<close> as definitions of HOL and
  proves what makes them correct, from the bytes on the wire to what the user sees.

  \<^bold>\<open>The parts and how they interact.\<close>  On the server, one \<^verbatim>\<open>Session\<close> per connection reads frames, writes
  frames and keeps a heartbeat; \<^verbatim>\<open>Server\<close> accepts connections, keeps the table of sessions and turns
  what the sessions report into packets of a queue.  Once per tick the main loop
  (\<^verbatim>\<open>NightServer.cpp\<close>) lets \<^verbatim>\<open>NetworkSystem\<close> take the packets and decode them to events,
  \<^verbatim>\<open>GameLogicSystem\<close> handle the events on the state of \<^verbatim>\<open>RoomSystem\<close>, and \<^verbatim>\<open>NetworkSystem\<close> hand the
  resulting messages and disconnections back to \<^verbatim>\<open>Server\<close>.  On the other side, \<^verbatim>\<open>Client\<close> is the transport of
  one connection, \<^verbatim>\<open>ChatProtocolClient\<close> builds requests and decodes answers, and \<^verbatim>\<open>ChatClientFrame\<close>
  is the window.  The message schema and its helpers are shared by both sides.

  \<^bold>\<open>Theories and sources.\<close>
  \<^item> \<open>Night_Prelude\<close>: the hash table of the C++ library as an association list whose order an insertion
    may change (\<open>um_find\<close>, \<open>um_emplace\<close>, \<open>um_erase\<close>), the locales \<open>keyed_store\<close> (what a client of such a
    table relies on) and \<open>event_machine\<close> (a component driven by events, with an invariant every step
    keeps), and the collections \<open>inv_intros\<close> and \<open>state_simps\<close>.
  \<^item> \<open>Night_Protocol\<close>: \<^verbatim>\<open>messages_generated.h\<close> and \<^verbatim>\<open>ProtocolUtil.h\<close> at the level of whole messages, which
    the components use.  \<open>Example_Codec\<close>: a concrete serialisation for the witnesses.
  \<^item> \<open>Fb_Runtime\<close>: the calls of the FlatBuffers runtime and their documented behaviour.  \<open>Fb_Tables\<close>:
    \<^verbatim>\<open>messages_generated.h\<close> and \<^verbatim>\<open>ProtocolUtil.h\<close> over these calls: accessors, \<^verbatim>\<open>Verify\<close>, builders and
    \<^verbatim>\<open>Create\<close> functions of every table.  \<open>Fb_Reading\<close>: verified tables can be read.  \<open>Fb_Building\<close>,
    \<open>Fb_Roundtrip\<close>: built messages are accepted and read back; the message level is a refinement of this one.
    \<open>Example_Runtime\<close>: a concrete runtime.  \<open>Fb_Properties\<close>: the properties.
  \<^item> \<open>Room_System\<close>: \<^verbatim>\<open>ServerTypes.h\<close>, \<^verbatim>\<open>RoomSystem\<close>.  \<open>Game_Logic\<close>: \<^verbatim>\<open>GameLogicSystem\<close>, one definition per handler
    and per \<^verbatim>\<open>Queue\<close> function.  \<open>Game_Properties\<close>: what they guarantee.
  \<^item> \<open>Wire_Format\<close>: \<^verbatim>\<open>Protocol.h\<close>, \<^verbatim>\<open>BufferPool.h\<close>, \<^verbatim>\<open>TransportDetail.h\<close>.  \<open>Net_Session\<close>: \<^verbatim>\<open>Session\<close> as a
    state machine.  \<open>Transport_Properties\<close>: a connection, alone and against a peer.
  \<^item> \<open>Net_Server\<close>: \<^verbatim>\<open>Packet.h\<close>, \<^verbatim>\<open>Server.cpp\<close>.  \<open>Server_Shutdown\<close>: what follows a shutdown.
    \<open>Network_System\<close>: \<^verbatim>\<open>NetworkSystem.cpp\<close> and \<^verbatim>\<open>NightServer.cpp\<close>, with the calls of the game thread
    interleaved with the I/O threads.  \<open>Server_Properties\<close>, \<open>World_Properties\<close>: the transport server, and the program.
  \<^item> \<open>Net_Client\<close>: \<^verbatim>\<open>Client.cpp\<close>.  \<open>Client_Properties\<close>: the client as a session, and connected to one.
  \<^item> \<open>Chat_Client\<close>: \<^verbatim>\<open>ChatProtocolClient\<close>.  \<open>Chat_Properties\<close>: requests and answers end to end.
  \<^item> \<open>Chat_Frame\<close>: \<^verbatim>\<open>ChatClientFrame\<close>.  \<open>Frame_Properties\<close>: what the user sees.

  \<^bold>\<open>How state and operations correspond.\<close>  A class is a record with its members; an operation is a
  function from the state to the state, with every guard and early return of the code.  A suffix
  tells members of the same name apart (\<open>_C\<close> for the transport client, \<open>_P\<close> for the protocol client,
  \<open>_F\<close> for the window).  An object of asio is what is pending on it: the read, the write with its bytes,
  the wait on the timer, the functions posted to a strand.  A completion handler is a definition of
  its own (\<open>on_header_read\<close> is the handler that \<open>do_read_header\<close> passes to asio), and a run is a sequence
  of handler calls, API calls and steps of the clock, chosen by the environment; \<open>enabled\<close>,
  \<open>server_enabled\<close>, \<open>client_enabled\<close> and \<open>ui_enabled\<close> say which can happen.  A handler runs as one step:
  a strand, and the single I/O thread of the client, run one at a time, and functions posted to one of them
  run in order.  Where another thread can act in the middle of a handler and this makes a difference, it
  is an argument of the handler (\<open>begins\<close> of \<open>on_body_read_C\<close>, \<open>during\<close> of \<open>OnPollTimer\<close>, \<open>early\<close> of
  \<open>on_accept\<close> and \<open>on_callback\<close>: how many loads of \<^verbatim>\<open>shutting_down\<close> came before the flag was set).
  Undefined behaviour of C++, and an asynchronous read or write started while another of its kind is
  pending, sets a flag (\<open>fault\<close>, \<open>server_fault\<close>, \<open>fault_C\<close>) or is the result \<open>None\<close>; that it
  never happens is proved.  Integers of fixed width are words; byte buffers carry their capacity.
  History variables (\<open>calls\<close>, \<open>sent\<close>, \<open>outbox\<close>, \<open>polled\<close>, \<open>arrivals_C\<close>, \<open>message_boxes_F\<close> and the like) record
  what happened and no operation reads them.

  \<^bold>\<open>What the lemmas show.\<close>
  \<^item> C10 and C12, the generated code: no accessor of a verified message leaves the buffer, whatever bytes arrived;
    a built message is accepted and reads back, so that \<open>fb_ok\<close> holds of generated code and runtime.
  \<^item> C1 to C14 (without C3, C10 and C12) and C26, the chat logic: its class invariant, that it implements the abstract registry of sessions,
    names and rooms, and message by message who is told what on login, join, chat, leave and
    disconnection, refusals included; a duplicate name that gets past the check; every queued message is
    within the limits of packets and of the verifier.
  \<^item> C15 to C21, one connection: headers and frames are read back as written, and nothing else is
    accepted; memory safety, queue bounds and the life cycle of a session; payloads arrive in order and
    unchanged; the heartbeat; what closing discards.
  \<^item> C3, C22 to C25 and C33, the transport server: table, packets, sending, broadcast, shutdown.
  \<^item> C27 to C32, the server program: decoding, a tick, no failure in any interleaving of the threads, that
    the chat logic knows exactly the sessions that are open, and what happens when a full queue refused
    a packet.
  \<^item> C35 to C38, client and server together: the client refines the session, both directions of the
    exchange, requests of the user up to the chat logic and answers of the server up to the user.
  \<^item> C34, C39 and C40, the window: its invariant, a lost connection it does not notice, the Connect button.

  \<^bold>\<open>Parameters and hypotheses.\<close>  Code outside the repository is an argument of the definitions.
  \<open>runtime\<close> is the FlatBuffers runtime as the generated code calls it, \<open>fb_view\<close> the meaning of its states;
  \<open>builder_ok\<close>, \<open>verifier_ok\<close> and \<open>finished_ok\<close> are its documented behaviour: a builder keeps what it has
  finished and stores what differs from the default; a check that answers true makes the read it is for
  defined; a finished buffer contains the objects of its builder and passes the checks within the default limits
  of 64 nested and 1000000 counted tables.  Offsets are natural numbers: a builder that grows past 2 GB, where
  FlatBuffers only asserts, is out of scope.  \<open>flatbuffers\<close> is the same runtime as the components see it;
  \<open>fb_ok\<close> says that the buffer of a message of buildable tables is not empty, passes
  the verifier and reads back as the message it was made from, and \<open>flatbuffers_of\<close> derives it from the above.  \<open>push_ok\<close> of \<open>server_env\<close> and \<open>push\<close> of the
  client say when a Boost queue takes a packet; where a capacity matters it is a hypothesis.
  \<open>table_order\<close> and \<open>iter_order\<close> are the iteration orders of the hash tables, \<open>now_ms\<close> the clock,
  \<open>listen_results\<close> and \<open>connect_results\<close> the answers of the operating system (for the port, the host and
  the endpoints it is given), \<open>hardware_concurrency\<close> the number of I/O threads, \<open>wx\<close> the text functions of
  wxWidgets.  Every property with a hypothesis has a witness that computes a concrete case.

  \<^bold>\<open>Loops.\<close>  No definition uses fuel: the polling loops end because each round takes a packet off the
  queue (\<open>receive_loop\<close>, \<open>poll_loop\<close>), the others are recursions on lists.  The asynchronous loops of
  asio, which need not end, are runs, and so is the loop of \<^verbatim>\<open>main\<close>; while the I/O threads push as fast as
  the game thread polls, a round of it need not end.  Time is an integer number of nanoseconds without bound.

  \<^bold>\<open>Not modelled.\<close>  The byte format of FlatBuffers, which is the business of its runtime, and the aliases
  \<^verbatim>\<open>payload_as<T>\<close> of \<^verbatim>\<open>messages_generated.h\<close>; console output; the threads themselves (their number
  is kept, and what they run is interleaved) and the sleep between ticks; the geometry of the window and the start of the application
  (\<^verbatim>\<open>NightClient.cpp\<close>); the tests.  The size of a payload on its way through a chat message is not derived
  from the text, as it depends on FlatBuffers: the properties speak of messages that fit.
\<close>

end
